theory Spec2Isabelle
  imports Complex_Main "HOL-Library.Sublist" "HOL-Library.AList"
begin

section \<open>Shared helpers of the three scripts\<close>

text \<open>
  The scripts \<^verbatim>\<open>ambulance_comm.py\<close>, \<^verbatim>\<open>interface.py\<close> and \<^verbatim>\<open>generate_rsu.py\<close>
  drive a traffic simulator through its remote-control API. Coordinates, speeds and lane
  lengths are Python floats; they are modelled as real numbers, so rounding, infinities and
  NaN are outside the model. Identifiers are strings.
\<close>

type_synonym point = "real \<times> real"

text \<open>
  \<^verbatim>\<open>def distance(p1, p2):
      return math.sqrt((p1[0] - p2[0]) ** 2 + (p1[1] - p2[1]) ** 2)\<close>
  (the same two lines in \<^verbatim>\<open>ambulance_comm.py\<close> and in \<^verbatim>\<open>interface.py\<close>).
\<close>

definition distance :: "point \<Rightarrow> point \<Rightarrow> real" where
  "distance p1 p2 = sqrt ((fst p1 - fst p2) ^ 2 + (snd p1 - snd p2) ^ 2)"

definition PROACTIVE_DISTANCE :: real where
  "PROACTIVE_DISTANCE = 100"

section \<open>The simulator as the scripts see it\<close>

text \<open>
  Every query of the remote-control API is a field of the simulator state; a query on an
  unknown identifier is answered by whatever the field holds there. The fields written by
  the mutators the scripts call (\<^verbatim>\<open>setColor\<close>, \<^verbatim>\<open>setSpeedMode\<close>,
  \<^verbatim>\<open>setRedYellowGreenState\<close>, \<^verbatim>\<open>setProgram\<close>) are the ones the matching queries read.
\<close>

type_synonym rgba = "nat \<times> nat \<times> nat \<times> nat"

record sim =
  min_expected_number :: int
  vehicle_id_list :: "string list"
  vehicle_class :: "string \<Rightarrow> string"
  vehicle_position :: "string \<Rightarrow> point"
  vehicle_road_id :: "string \<Rightarrow> string"
  vehicle_lane_index :: "string \<Rightarrow> int"
  vehicle_lane_id :: "string \<Rightarrow> string"
  vehicle_speed :: "string \<Rightarrow> real"
  vehicle_route :: "string \<Rightarrow> string list"
  vehicle_color :: "string \<Rightarrow> rgba"
  vehicle_speed_mode :: "string \<Rightarrow> int"
  trafficlight_id_list :: "string list"
  controlled_lanes :: "string \<Rightarrow> string list"
  trafficlight_program :: "string \<Rightarrow> string"
  red_yellow_green_state :: "string \<Rightarrow> string"
  edge_lane_number :: "string \<Rightarrow> int"
  lane_id_list :: "string list"
  lane_length :: "string \<Rightarrow> real"

text \<open>
  What \<^verbatim>\<open>traci.simulationStep()\<close> and \<^verbatim>\<open>traci.vehicle.changeLane(v, lane, duration)\<close> do
  to the simulator is decided by the simulator alone, so both are parameters of the model.
  A lane-change call returns the simulator state after it, and the exception text when it
  raised.
\<close>

type_synonym simulation_step = "sim \<Rightarrow> sim"
type_synonym change_lane = "sim \<Rightarrow> string \<Rightarrow> int \<Rightarrow> real \<Rightarrow> sim \<times> string option"

text \<open>The mutating calls a script sends, in the order it sends them.\<close>

datatype command =
    SimulationStep
  | SetColor string rgba
  | SetSpeedMode string int
  | SetRedYellowGreenState string string
  | SetProgram string string
  | ChangeLane string int real

text \<open>The lines the main script prints inside its loop.\<close>

datatype message =
    TakingControl string string
  | StateLengthMismatch string
  | ReleasingControl string string
  | Alerting string string int
  | LaneChanged string string string
  | LaneChangeError string int string
  | OthersStopping string
  | MovingFreely string

text \<open>
  The variables both stepping loops own: the simulator connection, the dictionary
  \<^verbatim>\<open>original_tl_programs\<close> and the counter \<^verbatim>\<open>step\<close>; \<open>commands\<close> records the
  mutating calls sent so far.
\<close>

record state =
  sim :: sim
  original_tl_programs :: "string \<rightharpoonup> string"
  commands :: "command list"
  step :: nat

record main_state = state +
  printed :: "message list"

definition print :: "message \<Rightarrow> 'a main_state_scheme \<Rightarrow> 'a main_state_scheme" where
  "print m st = st\<lparr>printed := printed st @ [m]\<rparr>"

definition setColor :: "string \<Rightarrow> rgba \<Rightarrow> 'a state_scheme \<Rightarrow> 'a state_scheme" where
  "setColor v c st =
     st\<lparr>sim := (sim st)\<lparr>vehicle_color := (vehicle_color (sim st))(v := c)\<rparr>,
        commands := commands st @ [SetColor v c]\<rparr>"

definition setSpeedMode :: "string \<Rightarrow> int \<Rightarrow> 'a state_scheme \<Rightarrow> 'a state_scheme" where
  "setSpeedMode v m st =
     st\<lparr>sim := (sim st)\<lparr>vehicle_speed_mode := (vehicle_speed_mode (sim st))(v := m)\<rparr>,
        commands := commands st @ [SetSpeedMode v m]\<rparr>"

definition setRedYellowGreenState :: "string \<Rightarrow> string \<Rightarrow> 'a state_scheme \<Rightarrow> 'a state_scheme" where
  "setRedYellowGreenState tl_id s st =
     st\<lparr>sim := (sim st)\<lparr>red_yellow_green_state := (red_yellow_green_state (sim st))(tl_id := s)\<rparr>,
        commands := commands st @ [SetRedYellowGreenState tl_id s]\<rparr>"

definition setProgram :: "string \<Rightarrow> string \<Rightarrow> 'a state_scheme \<Rightarrow> 'a state_scheme" where
  "setProgram tl_id p st =
     st\<lparr>sim := (sim st)\<lparr>trafficlight_program := (trafficlight_program (sim st))(tl_id := p)\<rparr>,
        commands := commands st @ [SetProgram tl_id p]\<rparr>"

definition simulationStep :: "simulation_step \<Rightarrow> 'a state_scheme \<Rightarrow> 'a state_scheme" where
  "simulationStep advance st =
     st\<lparr>sim := advance (sim st), commands := commands st @ [SimulationStep]\<rparr>"

definition changeLane ::
  "change_lane \<Rightarrow> string \<Rightarrow> int \<Rightarrow> real \<Rightarrow> 'a state_scheme \<Rightarrow> 'a state_scheme \<times> string option" where
  "changeLane request v lane duration st =
     (case request (sim st) v lane duration of
        (sim', exc) \<Rightarrow>
          (st\<lparr>sim := sim', commands := commands st @ [ChangeLane v lane duration]\<rparr>, exc))"

section \<open>Detecting emergency vehicles\<close>

text \<open>
  \<^verbatim>\<open>v.lower()\<close>: the letters A to Z are mapped to a to z. A string is a list of bytes
  here; no character outside ASCII lowercases to one of the letters of "ambulance", so the
  test below agrees with Python's on every identifier.
\<close>

definition lower_char :: "char \<Rightarrow> char" where
  "lower_char c =
     (case map_of (zip ''ABCDEFGHIJKLMNOPQRSTUVWXYZ'' ''abcdefghijklmnopqrstuvwxyz'') c of
        Some l \<Rightarrow> l
      | None \<Rightarrow> c)"

definition lower :: "string \<Rightarrow> string" where
  "lower s = map lower_char s"

text \<open>
  \<^verbatim>\<open>"ambulance" in v.lower() or traci.vehicle.getVehicleClass(v) == "emergency"\<close>;
  Python's \<^verbatim>\<open>a in b\<close> on strings is the contiguous-substring test \<open>sublist a b\<close>.
\<close>

definition is_ambulance :: "sim \<Rightarrow> string \<Rightarrow> bool" where
  "is_ambulance s v \<longleftrightarrow> sublist ''ambulance'' (lower v) \<or> vehicle_class s v = ''emergency''"

definition ambulances_of :: "sim \<Rightarrow> string list \<Rightarrow> string list" where
  "ambulances_of s vehicles = filter (is_ambulance s) vehicles"

section \<open>Traffic-light override\<close>

text \<open>\<^verbatim>\<open>any(amb_edge in lane for lane in controlled_lanes)\<close>\<close>

definition on_controlled_lanes :: "string \<Rightarrow> string list \<Rightarrow> bool" where
  "on_controlled_lanes amb_edge lanes = list_ex (sublist amb_edge) lanes"

text \<open>
  The loop that builds the signal string, one character appended per controlled lane:
  \<^verbatim>\<open>state = ''
  for lane in controlled_lanes:
      if amb_edge in lane: state += 'G'
      else:                state += 'r'\<close>
\<close>

fun build_state :: "string \<Rightarrow> string list \<Rightarrow> string \<Rightarrow> string" where
  "build_state amb_edge [] state = state"
| "build_state amb_edge (lane # lanes) state =
     build_state amb_edge lanes
       (if sublist amb_edge lane then state @ ''G'' else state @ ''r'')"

text \<open>
  \<^verbatim>\<open>if tl not in original_tl_programs:
      original_tl_programs[tl] = traci.trafficlight.getProgram(tl)\<close>
\<close>

definition save_program :: "string \<Rightarrow> 'a state_scheme \<Rightarrow> 'a state_scheme" where
  "save_program tl_id st =
     st\<lparr>original_tl_programs := (original_tl_programs st)(tl_id \<mapsto> trafficlight_program (sim st) tl_id)\<rparr>"

text \<open>
  The body of \<^verbatim>\<open>for tl in junctions\<close> in \<^verbatim>\<open>ambulance_comm.py\<close> (lines 33 to 59).
\<close>

definition main_tl :: "string \<Rightarrow> string \<Rightarrow> string \<Rightarrow> 'a main_state_scheme \<Rightarrow> 'a main_state_scheme" where
  "main_tl amb_id amb_edge tl_id st =
     (let lanes = controlled_lanes (sim st) tl_id in
      if on_controlled_lanes amb_edge lanes then
        let st1 = (if original_tl_programs st tl_id = None
                   then print (TakingControl amb_id tl_id) (save_program tl_id st)
                   else st);
            original_state = red_yellow_green_state (sim st1) tl_id;
            state = build_state amb_edge lanes []
        in if length state = length original_state
           then setRedYellowGreenState tl_id state st1
           else print (StateLengthMismatch tl_id) st1
      else
        (case original_tl_programs st tl_id of
           Some saved \<Rightarrow>
             let st1 = print (ReleasingControl amb_id tl_id) st;
                 st2 = setProgram tl_id saved st1
             in st2\<lparr>original_tl_programs := (original_tl_programs st2)(tl_id := None)\<rparr>
         | None \<Rightarrow> st))"

text \<open>
  The same loop body in \<^verbatim>\<open>interface.py\<close> (lines 57 to 70): it counts the lights it
  takes, prints nothing and has no branch that restores a program.
\<close>

definition dash_tl :: "string \<Rightarrow> string \<Rightarrow> nat \<times> 'a state_scheme \<Rightarrow> nat \<times> 'a state_scheme" where
  "dash_tl amb_edge tl_id acc =
     (case acc of (controlled_this_ambulance, st) \<Rightarrow>
        let lanes = controlled_lanes (sim st) tl_id in
        if on_controlled_lanes amb_edge lanes then
          let st1 = (if original_tl_programs st tl_id = None then save_program tl_id st else st);
              original_state = red_yellow_green_state (sim st1) tl_id;
              state = build_state amb_edge lanes []
          in (controlled_this_ambulance + 1,
              if length state = length original_state
              then setRedYellowGreenState tl_id state st1
              else st1)
        else (controlled_this_ambulance, st))"

section \<open>Alert scan and lane change of the main script\<close>

text \<open>
  The loop \<^verbatim>\<open>for veh_id in vehicles\<close> of \<^verbatim>\<open>ambulance_comm.py\<close> (lines 61 to 75). It
  returns \<^verbatim>\<open>congestion_detected\<close>; the \<^verbatim>\<open>break\<close> after the first alert ends the scan.
  \<^verbatim>\<open>int(dist)\<close> is the floor of a positive number.
\<close>

fun main_scan ::
  "string \<Rightarrow> point \<Rightarrow> string \<Rightarrow> int \<Rightarrow> string list \<Rightarrow> 'a main_state_scheme
   \<Rightarrow> bool \<times> 'a main_state_scheme" where
  "main_scan amb_id amb_pos amb_edge amb_lane_index [] st = (False, st)"
| "main_scan amb_id amb_pos amb_edge amb_lane_index (veh_id # vehicles) st =
     (if veh_id = amb_id \<or> vehicle_class (sim st) veh_id = ''emergency''
      then main_scan amb_id amb_pos amb_edge amb_lane_index vehicles st
      else if vehicle_road_id (sim st) veh_id = amb_edge
              \<and> vehicle_lane_index (sim st) veh_id = amb_lane_index
      then if 0 < distance amb_pos (vehicle_position (sim st) veh_id)
              \<and> distance amb_pos (vehicle_position (sim st) veh_id) < PROACTIVE_DISTANCE
              \<and> fst (vehicle_position (sim st) veh_id) > fst amb_pos
           then (True,
                 print (Alerting amb_id veh_id
                          \<lfloor>distance amb_pos (vehicle_position (sim st) veh_id)\<rfloor>) st)
           else main_scan amb_id amb_pos amb_edge amb_lane_index vehicles st
      else main_scan amb_id amb_pos amb_edge amb_lane_index vehicles st)"

text \<open>
  \<^verbatim>\<open>options = []
  if amb_lane_index + 1 < num_lanes: options.append(amb_lane_index + 1)
  if amb_lane_index - 1 >= 0:        options.append(amb_lane_index - 1)\<close>
\<close>

definition lane_options :: "int \<Rightarrow> int \<Rightarrow> int list" where
  "lane_options amb_lane_index num_lanes =
     (if amb_lane_index + 1 < num_lanes then [amb_lane_index + 1] else [])
     @ (if amb_lane_index - 1 \<ge> 0 then [amb_lane_index - 1] else [])"

text \<open>
  The loop \<^verbatim>\<open>for new_lane in options\<close> (lines 88 to 100); it returns \<^verbatim>\<open>changed\<close>. An
  exception of the lane-change call is caught, printed, and the loop goes on.
\<close>

fun try_lanes ::
  "change_lane \<Rightarrow> string \<Rightarrow> int list \<Rightarrow> 'a main_state_scheme \<Rightarrow> bool \<times> 'a main_state_scheme" where
  "try_lanes request amb_id [] st = (False, st)"
| "try_lanes request amb_id (new_lane # options) st =
     (case changeLane request amb_id new_lane 10 st of
        (st1, Some e) \<Rightarrow>
          try_lanes request amb_id options (print (LaneChangeError amb_id new_lane e) st1)
      | (st1, None) \<Rightarrow>
          if vehicle_lane_id (sim st1) amb_id \<noteq> vehicle_lane_id (sim st) amb_id
          then (True,
                print (LaneChanged amb_id (vehicle_lane_id (sim st) amb_id)
                         (vehicle_lane_id (sim st1) amb_id)) st1)
          else try_lanes request amb_id options st1)"

text \<open>The lines 78 to 106: what follows the scan.\<close>

definition main_react ::
  "change_lane \<Rightarrow> string \<Rightarrow> string \<Rightarrow> int \<Rightarrow> bool \<times> 'a main_state_scheme \<Rightarrow> 'a main_state_scheme" where
  "main_react request amb_id amb_edge amb_lane_index scanned =
     (case scanned of (congestion_detected, st) \<Rightarrow>
        if congestion_detected then
          (case try_lanes request amb_id
                  (lane_options amb_lane_index (edge_lane_number (sim st) amb_edge)) st of
             (changed, st1) \<Rightarrow> if \<not> changed then print (OthersStopping amb_id) st1 else st1)
        else print (MovingFreely amb_id) st)"

text \<open>The body of \<^verbatim>\<open>for amb_id in ambulances\<close> of the main script (lines 23 to 106).\<close>

definition main_ambulance ::
  "change_lane \<Rightarrow> string list \<Rightarrow> string \<Rightarrow> 'a main_state_scheme \<Rightarrow> 'a main_state_scheme" where
  "main_ambulance request vehicles amb_id st =
     (let amb_pos = vehicle_position (sim st) amb_id;
          amb_edge = vehicle_road_id (sim st) amb_id;
          amb_lane_index = vehicle_lane_index (sim st) amb_id;
          st1 = setColor amb_id (255, 0, 0, 255) st;
          st2 = setSpeedMode amb_id 0 st1;
          junctions = trafficlight_id_list (sim st2);
          st3 = fold (main_tl amb_id amb_edge) junctions st2
      in main_react request amb_id amb_edge amb_lane_index
           (main_scan amb_id amb_pos amb_edge amb_lane_index vehicles st3))"

text \<open>One iteration of the \<^verbatim>\<open>while\<close> loop of the main script (lines 18 to 108).\<close>

definition main_body :: "simulation_step \<Rightarrow> change_lane \<Rightarrow> 'a main_state_scheme \<Rightarrow> 'a main_state_scheme" where
  "main_body advance request st =
     (let st1 = simulationStep advance st;
          vehicles = vehicle_id_list (sim st1);
          ambulances = ambulances_of (sim st1) vehicles;
          st2 = fold (main_ambulance request vehicles) ambulances st1
      in st2\<lparr>step := step st2 + 1\<rparr>)"

text \<open>
  \<^verbatim>\<open>while traci.simulation.getMinExpectedNumber() > 0: ...\<close>
  The loop may run forever; not returning is the value \<open>None\<close>.
\<close>

partial_function (option) main_loop ::
  "simulation_step \<Rightarrow> change_lane \<Rightarrow> main_state \<Rightarrow> main_state option" where
  "main_loop advance request st =
     (if min_expected_number (sim st) > 0
      then main_loop advance request (main_body advance request st)
      else Some st)"

section \<open>The simulation worker of the dashboard\<close>

text \<open>
  The loop \<^verbatim>\<open>for veh_id in vehicles\<close> of \<^verbatim>\<open>interface.py\<close> (lines 75 to 86): it counts every
  alerted vehicle and has no \<^verbatim>\<open>break\<close>.
\<close>

definition dash_alert :: "sim \<Rightarrow> string \<Rightarrow> point \<Rightarrow> string \<Rightarrow> string \<Rightarrow> nat \<Rightarrow> nat" where
  "dash_alert s amb_id amb_pos amb_edge veh_id alerted_vehicles_in_step =
     (if veh_id = amb_id \<or> vehicle_class s veh_id = ''emergency''
      then alerted_vehicles_in_step
      else if vehicle_road_id s veh_id = amb_edge
              \<and> vehicle_lane_index s veh_id = vehicle_lane_index s amb_id
      then if 0 < distance amb_pos (vehicle_position s veh_id)
              \<and> distance amb_pos (vehicle_position s veh_id) < PROACTIVE_DISTANCE
              \<and> fst (vehicle_position s veh_id) > fst amb_pos
           then alerted_vehicles_in_step + 1
           else alerted_vehicles_in_step
      else alerted_vehicles_in_step)"

definition dash_scan :: "sim \<Rightarrow> string \<Rightarrow> point \<Rightarrow> string \<Rightarrow> string list \<Rightarrow> nat" where
  "dash_scan s amb_id amb_pos amb_edge vehicles =
     fold (dash_alert s amb_id amb_pos amb_edge) vehicles 0"

text \<open>The values of the dictionary \<^verbatim>\<open>vehicle_data\<close>.\<close>

record vehicle_info =
  info_speed :: real
  info_class :: string
  info_position :: point
  info_stopped :: bool
  info_is_ambulance :: bool

text \<open>
  The module-level lists and the dictionary the worker fills. A Python dictionary keeps
  its keys in insertion order and a store to a present key keeps the key's place: an
  association list under \<open>AList.update\<close>.
\<close>

record dash_state = state +
  time_log :: "nat list"
  ambulance_speed_log :: "real list"
  vehicle_alert_count :: "nat list"
  traffic_light_control_log :: "nat list"
  stopped_vehicle_counts :: "nat list"
  simulation_times :: "nat list"
  vehicle_data :: "(string \<times> vehicle_info) list"

text \<open>
  The three blocks run under \<^verbatim>\<open>log_lock\<close>. First (lines 43, 44):
  \<^verbatim>\<open>vehicle_data.clear()\<close>.
\<close>

definition clear_vehicle_data :: "dash_state \<Rightarrow> dash_state" where
  "clear_vehicle_data st = st\<lparr>vehicle_data := []\<rparr>"

text \<open>Second (lines 90 to 94): the four appends per ambulance.\<close>

definition append_logs :: "real \<Rightarrow> nat \<Rightarrow> nat \<Rightarrow> dash_state \<Rightarrow> dash_state" where
  "append_logs amb_speed total_alerted_this_step traffic_lights_controlled st =
     st\<lparr>time_log := time_log st @ [step st],
        ambulance_speed_log := ambulance_speed_log st @ [amb_speed],
        vehicle_alert_count := vehicle_alert_count st @ [total_alerted_this_step],
        traffic_light_control_log := traffic_light_control_log st @ [traffic_lights_controlled]\<rparr>"

text \<open>Third (lines 97 to 113): the table of all vehicles and the stopped-vehicle count.\<close>

definition record_vehicle ::
  "sim \<Rightarrow> string \<Rightarrow> (string \<times> vehicle_info) list \<Rightarrow> (string \<times> vehicle_info) list" where
  "record_vehicle s veh_id table =
     AList.update veh_id
       \<lparr>info_speed = vehicle_speed s veh_id,
        info_class = vehicle_class s veh_id,
        info_position = vehicle_position s veh_id,
        info_stopped = (vehicle_speed s veh_id < 0.1),
        info_is_ambulance =
          (sublist ''ambulance'' (lower veh_id) \<or> vehicle_class s veh_id = ''emergency'')\<rparr>
       table"

definition stopped_count_of :: "(string \<times> vehicle_info) list \<Rightarrow> nat" where
  "stopped_count_of table =
     length (filter (\<lambda>v. info_stopped v \<and> \<not> info_is_ambulance v) (map snd table))"

definition update_vehicle_data :: "string list \<Rightarrow> dash_state \<Rightarrow> dash_state" where
  "update_vehicle_data vehicles st =
     (let table = fold (record_vehicle (sim st)) vehicles (vehicle_data st)
      in st\<lparr>vehicle_data := table,
            stopped_vehicle_counts := stopped_vehicle_counts st @ [stopped_count_of table],
            simulation_times := simulation_times st @ [step st]\<rparr>)"

text \<open>The body of \<^verbatim>\<open>for amb_id in ambulances\<close> of the worker (lines 47 to 94).\<close>

definition dash_ambulance ::
  "string list \<Rightarrow> string \<Rightarrow> nat \<times> nat \<times> dash_state \<Rightarrow> nat \<times> nat \<times> dash_state" where
  "dash_ambulance vehicles amb_id acc =
     (case acc of (total_alerted_this_step, traffic_lights_controlled, st) \<Rightarrow>
        let amb_pos = vehicle_position (sim st) amb_id;
            amb_edge = vehicle_road_id (sim st) amb_id;
            amb_speed = vehicle_speed (sim st) amb_id;
            st1 = setColor amb_id (255, 0, 0, 255) st;
            st2 = setSpeedMode amb_id 0 st1;
            junctions = trafficlight_id_list (sim st2)
        in case fold (dash_tl amb_edge) junctions (0, st2) of
             (controlled_this_ambulance, st3) \<Rightarrow>
               let controlled = traffic_lights_controlled + controlled_this_ambulance;
                   alerted = total_alerted_this_step
                             + dash_scan (sim st3) amb_id amb_pos amb_edge vehicles
               in (alerted, controlled, append_logs amb_speed alerted controlled st3))"

text \<open>One iteration of the \<^verbatim>\<open>while\<close> loop of \<^verbatim>\<open>run_simulation\<close> (lines 35 to 115).\<close>

definition dash_body :: "simulation_step \<Rightarrow> dash_state \<Rightarrow> dash_state" where
  "dash_body advance st =
     (let st1 = simulationStep advance st;
          vehicles = vehicle_id_list (sim st1);
          ambulances = ambulances_of (sim st1) vehicles;
          st2 = clear_vehicle_data st1
      in case fold (dash_ambulance vehicles) ambulances (0, 0, st2) of
           (total_alerted_this_step, traffic_lights_controlled, st3) \<Rightarrow>
             let st4 = update_vehicle_data vehicles st3
             in st4\<lparr>step := step st4 + 1\<rparr>)"

partial_function (option) run_simulation :: "simulation_step \<Rightarrow> dash_state \<Rightarrow> dash_state option" where
  "run_simulation advance st =
     (if min_expected_number (sim st) > 0
      then run_simulation advance (dash_body advance st)
      else Some st)"

text \<open>
  The state the worker starts in: the module-level lists and the dictionary are empty
  (lines 15 to 21), \<^verbatim>\<open>step = 0\<close> and \<^verbatim>\<open>original_tl_programs = {}\<close> (lines 31, 32).
\<close>

definition initial_dash :: "sim \<Rightarrow> dash_state" where
  "initial_dash s =
     \<lparr>sim = s, original_tl_programs = Map.empty, commands = [], step = 0,
      time_log = [], ambulance_speed_log = [], vehicle_alert_count = [],
      traffic_light_control_log = [], stopped_vehicle_counts = [], simulation_times = [],
      vehicle_data = []\<rparr>"

section \<open>The RSU generator\<close>

text \<open>
  \<^verbatim>\<open>emergency_edges\<close> is a Python set: a collection without duplicates, kept here as a
  duplicate-free list. \<^verbatim>\<open>emergency_edges.update(route)\<close> inserts each edge of the route that
  is not yet a member. The body of \<^verbatim>\<open>for veh_id in traci.vehicle.getIDList()\<close>
  (lines 15 to 18, and again lines 25 to 27):
\<close>

definition add_route :: "sim \<Rightarrow> string \<Rightarrow> string list \<Rightarrow> string list" where
  "add_route s veh_id emergency_edges =
     (if vehicle_class s veh_id = ''emergency''
      then fold List.insert (vehicle_route s veh_id) emergency_edges
      else emergency_edges)"

definition scan_routes :: "sim \<Rightarrow> string list \<Rightarrow> string list" where
  "scan_routes s emergency_edges = fold (add_route s) (vehicle_id_list s) emergency_edges"

text \<open>\<^verbatim>\<open>for _ in range(n): traci.simulationStep(); ...\<close> (lines 23 to 27).\<close>

fun advance_and_scan :: "simulation_step \<Rightarrow> nat \<Rightarrow> sim \<times> string list \<Rightarrow> sim \<times> string list" where
  "advance_and_scan advance 0 acc = acc"
| "advance_and_scan advance (Suc n) acc =
     (case acc of (s, emergency_edges) \<Rightarrow>
        advance_and_scan advance n (advance s, scan_routes (advance s) emergency_edges))"

text \<open>Step 1 of the script (lines 12 to 27).\<close>

definition find_emergency_edges :: "simulation_step \<Rightarrow> sim \<Rightarrow> sim \<times> string list" where
  "find_emergency_edges advance s =
     (let emergency_edges = scan_routes s []
      in if emergency_edges = []
         then advance_and_scan advance 200 (s, emergency_edges)
         else (s, emergency_edges))"

text \<open>
  Step 2 (lines 32 to 38), the body of \<^verbatim>\<open>for edge_id in emergency_edges\<close>:
  \<^verbatim>\<open>lane_id = edge_id + "_0"
  if lane_id in traci.lane.getIDList():
      lane_length = traci.lane.getLength(lane_id)
      pos = max(1, min(lane_length / 2, lane_length - 1))
      rsu_list.append((lane_id, pos))\<close>
\<close>

definition rsu_pos :: "real \<Rightarrow> real" where
  "rsu_pos len = max 1 (min (len / 2) (len - 1))"

definition place_rsu :: "sim \<Rightarrow> string \<Rightarrow> (string \<times> real) list \<Rightarrow> (string \<times> real) list" where
  "place_rsu s edge_id rsu_list =
     (let lane_id = edge_id @ ''_0''
      in if lane_id \<in> set (lane_id_list s)
         then rsu_list @ [(lane_id, rsu_pos (lane_length s lane_id))]
         else rsu_list)"

definition place_rsus :: "sim \<Rightarrow> string list \<Rightarrow> (string \<times> real) list" where
  "place_rsus s emergency_edges = fold (place_rsu s) emergency_edges []"

text \<open>
  Step 3 (lines 43 to 54). \<^verbatim>\<open>f"rsu_{i}"\<close> writes the index in decimal. The attribute
  \<^verbatim>\<open>pos=str(pos)\<close> is kept as the number it prints.
\<close>

fun str_nat :: "nat \<Rightarrow> string" where
  "str_nat n =
     (if n < 10 then [''0123456789'' ! n]
      else str_nat (n div 10) @ [''0123456789'' ! (n mod 10)])"

declare str_nat.simps [simp del]

record induction_loop =
  loop_id :: string
  loop_lane :: string
  loop_pos :: real
  loop_freq :: string
  loop_file :: string

definition sub_element :: "nat \<times> string \<times> real \<Rightarrow> induction_loop" where
  "sub_element entry =
     (case entry of (i, lane_id, pos) \<Rightarrow>
        \<lparr>loop_id = ''rsu_'' @ str_nat i,
         loop_lane = lane_id,
         loop_pos = pos,
         loop_freq = ''1'',
         loop_file = ''ev_detection_output.xml''\<rparr>)"

definition additional :: "(string \<times> real) list \<Rightarrow> induction_loop list" where
  "additional rsu_list = map sub_element (enumerate 0 rsu_list)"

text \<open>The whole script: the name of the file written and the elements under its root.\<close>

definition generate_rsu :: "simulation_step \<Rightarrow> sim \<Rightarrow> string \<times> induction_loop list" where
  "generate_rsu advance s =
     (case find_emergency_edges advance s of
        (s1, emergency_edges) \<Rightarrow> (''osm.add.xml'', additional (place_rsus s1 emergency_edges)))"

section \<open>Reading the record of commands\<close>

text \<open>
  Helpers for statements about what a script sent: the commands sent between two states,
  the ones that address traffic lights or request a lane change, the ones that mark a
  vehicle, and the pair of marking commands the scripts send for an ambulance
  (\<^verbatim>\<open>setColor(amb_id, (255, 0, 0, 255))\<close> and \<^verbatim>\<open>setSpeedMode(amb_id, 0)\<close>).
\<close>

definition sent_in :: "'a state_scheme \<Rightarrow> 'a state_scheme \<Rightarrow> command list" where
  "sent_in before after = drop (length (commands before)) (commands after)"

text \<open>The lines the main script printed between two states.\<close>

definition printed_in :: "'a main_state_scheme \<Rightarrow> 'a main_state_scheme \<Rightarrow> message list" where
  "printed_in before after = drop (length (printed before)) (printed after)"

fun light_or_lane :: "command \<Rightarrow> bool" where
  "light_or_lane (SetRedYellowGreenState tl_id s) = True"
| "light_or_lane (SetProgram tl_id p) = True"
| "light_or_lane (ChangeLane v lane duration) = True"
| "light_or_lane c = False"

fun is_marking :: "command \<Rightarrow> bool" where
  "is_marking (SetColor v c) = True"
| "is_marking (SetSpeedMode v m) = True"
| "is_marking c = False"

definition marking :: "string \<Rightarrow> command list" where
  "marking amb_id = [SetColor amb_id (255, 0, 0, 255), SetSpeedMode amb_id 0]"

section \<open>The wording of claims, as definitions\<close>

text \<open>
  The vehicles the alert scan is about, in the words of claim C4: another vehicle, not of
  class emergency, on the ambulance's road and lane index, strictly ahead of it (greater
  x-coordinate), at a distance strictly between 0 and 100.
\<close>

definition alert_target :: "sim \<Rightarrow> string \<Rightarrow> point \<Rightarrow> string \<Rightarrow> int \<Rightarrow> string \<Rightarrow> bool" where
  "alert_target s amb_id amb_pos amb_edge amb_lane_index veh_id \<longleftrightarrow>
     veh_id \<noteq> amb_id
     \<and> vehicle_class s veh_id \<noteq> ''emergency''
     \<and> vehicle_road_id s veh_id = amb_edge
     \<and> vehicle_lane_index s veh_id = amb_lane_index
     \<and> fst amb_pos < fst (vehicle_position s veh_id)
     \<and> 0 < distance amb_pos (vehicle_position s veh_id)
     \<and> distance amb_pos (vehicle_position s veh_id) < 100"

text \<open>
  The candidate lanes a lane change is requested for, in the words of claim C5: the
  candidates in order, up to and including the first one after which the ambulance's lane
  identifier has changed; an attempt that raises, or leaves the identifier as it was,
  is followed by the next candidate.
\<close>

fun attempts :: "change_lane \<Rightarrow> string \<Rightarrow> int list \<Rightarrow> sim \<Rightarrow> int list" where
  "attempts request amb_id [] s = []"
| "attempts request amb_id (new_lane # options) s =
     (case request s amb_id new_lane 10 of
        (s1, exc) \<Rightarrow>
          if exc = None \<and> vehicle_lane_id s1 amb_id \<noteq> vehicle_lane_id s amb_id
          then [new_lane]
          else new_lane # attempts request amb_id options s1)"

text \<open>
  The emergency-route edges of claim C8: the edges on the route of a listed vehicle whose
  class is "emergency".
\<close>

definition emergency_route_edges :: "sim \<Rightarrow> string set" where
  "emergency_route_edges s =
     (\<Union>v \<in> {v \<in> set (vehicle_id_list s). vehicle_class s v = ''emergency''}.
        set (vehicle_route s v))"

text \<open>
  The wording of claims C1 and C2. A light's zone: the light controls a lane whose
  identifier contains the identifier of the road the vehicle is on
  (\<^verbatim>\<open>any(amb_edge in lane for lane in controlled_lanes)\<close> with
  \<^verbatim>\<open>amb_edge = getRoadID(amb_id)\<close>). The signal string: what the loop over the controlled
  lanes builds for that road. The detected emergency vehicles: the list \<^verbatim>\<open>ambulances\<close>.
\<close>

definition in_zone :: "sim \<Rightarrow> string \<Rightarrow> string \<Rightarrow> bool" where
  "in_zone s amb_id tl_id \<longleftrightarrow>
     on_controlled_lanes (vehicle_road_id s amb_id) (controlled_lanes s tl_id)"

definition signal_string :: "sim \<Rightarrow> string \<Rightarrow> string \<Rightarrow> string" where
  "signal_string s amb_id tl_id =
     build_state (vehicle_road_id s amb_id) (controlled_lanes s tl_id) []"

definition detected :: "sim \<Rightarrow> string list" where
  "detected s = ambulances_of s (vehicle_id_list s)"

text \<open>
  The state of the main script when the turn of the detected vehicle at index \<open>k\<close> of
  \<^verbatim>\<open>for amb_id in ambulances\<close> starts: after the simulation step and the turns of the
  vehicles before it.
\<close>

definition main_turn ::
  "simulation_step \<Rightarrow> change_lane \<Rightarrow> 'a main_state_scheme \<Rightarrow> nat \<Rightarrow> 'a main_state_scheme" where
  "main_turn advance request st k =
     (let st1 = simulationStep advance st;
          vehicles = vehicle_id_list (sim st1);
          ambulances = ambulances_of (sim st1) vehicles
      in fold (main_ambulance request vehicles) (take k ambulances) st1)"

text \<open>
  The wording of claim C10: the four per-ambulance lists have one length, and the two
  per-iteration lists have one length.
\<close>

definition logs_aligned :: "dash_state \<Rightarrow> bool" where
  "logs_aligned st \<longleftrightarrow>
     length (ambulance_speed_log st) = length (time_log st)
     \<and> length (vehicle_alert_count st) = length (time_log st)
     \<and> length (traffic_light_control_log st) = length (time_log st)
     \<and> length (simulation_times st) = length (stopped_vehicle_counts st)"

section \<open>Concrete simulator states\<close>

text \<open>
  Two stand-ins for the simulator's own behaviour: a step that changes nothing but the
  count of expected entities, and a lane-change request that is accepted without effect.
\<close>

definition frozen :: simulation_step where
  "frozen s = s"

definition countdown :: simulation_step where
  "countdown s = s\<lparr>min_expected_number := min_expected_number s - 1\<rparr>"

definition no_lane_change :: change_lane where
  "no_lane_change s v lane duration = (s, None)"

text \<open>
  One emergency vehicle and two cars ahead of it, 10 and 20 metres away, all on lane 0 of
  the one-lane edge \<open>e1\<close>; one traffic light controlling a lane of \<open>e1\<close> and a lane of
  \<open>e3\<close>.
\<close>

definition example_sim :: sim where
  "example_sim =
     \<lparr>min_expected_number = 1,
      vehicle_id_list = [''ambulance_1'', ''car_1'', ''car_2''],
      vehicle_class = (\<lambda>v. if v = ''ambulance_1'' then ''emergency'' else ''passenger''),
      vehicle_position =
        (\<lambda>v. if v = ''ambulance_1'' then (0, 0) else if v = ''car_1'' then (10, 0) else (20, 0)),
      vehicle_road_id = (\<lambda>v. ''e1''),
      vehicle_lane_index = (\<lambda>v. 0),
      vehicle_lane_id = (\<lambda>v. ''e1_0''),
      vehicle_speed = (\<lambda>v. if v = ''car_2'' then 0 else 10),
      vehicle_route = (\<lambda>v. [''e1'', ''e2'', ''e1'']),
      vehicle_color = (\<lambda>v. (255, 255, 0, 255)),
      vehicle_speed_mode = (\<lambda>v. 31),
      trafficlight_id_list = [''J1''],
      controlled_lanes = (\<lambda>t. [''e1_0'', ''e3_0'']),
      trafficlight_program = (\<lambda>t. ''0''),
      red_yellow_green_state = (\<lambda>t. ''rG''),
      edge_lane_number = (\<lambda>e. 1),
      lane_id_list = [''e1_0'', ''e3_0''],
      lane_length = (\<lambda>l. 50)\<rparr>"

definition example_main :: main_state where
  "example_main =
     \<lparr>sim = example_sim, original_tl_programs = Map.empty, commands = [], step = 0,
      printed = []\<rparr>"

definition example_dash :: dash_state where
  "example_dash =
     \<lparr>sim = example_sim, original_tl_programs = Map.empty, commands = [], step = 0,
      time_log = [], ambulance_speed_log = [], vehicle_alert_count = [],
      traffic_light_control_log = [], stopped_vehicle_counts = [], simulation_times = [],
      vehicle_data = []\<rparr>"

text \<open>Two ambulances and no other vehicle: the first on \<open>e1\<close>, the second on \<open>e2\<close>.\<close>

definition two_ambulances :: main_state where
  "two_ambulances =
     example_main\<lparr>sim := example_sim
       \<lparr>vehicle_id_list := [''ambulance_1'', ''ambulance_2''],
        vehicle_road_id := (\<lambda>v. if v = ''ambulance_2'' then ''e2'' else ''e1'')\<rparr>\<rparr>"

text \<open>The example state with a program already saved for the light.\<close>

definition light_taken :: main_state where
  "light_taken = example_main\<lparr>original_tl_programs := [''J1'' \<mapsto> ''7'']\<rparr>"

text \<open>
  The ambulance on the middle lane of a three-lane edge, and a simulator that raises on a
  request for lane 2 and moves the vehicle on any other request.
\<close>

definition three_lanes :: main_state where
  "three_lanes =
     example_main\<lparr>sim := example_sim
       \<lparr>vehicle_lane_index := (\<lambda>v. 1),
        vehicle_lane_id := (\<lambda>v. ''e1_1''),
        edge_lane_number := (\<lambda>e. 3)\<rparr>\<rparr>"


text \<open>A simulator without vehicles that expects two more entities.\<close>

definition idle_sim :: sim where
  "idle_sim = example_sim\<lparr>min_expected_number := 2, vehicle_id_list := []\<rparr>"

definition idle_main :: main_state where
  "idle_main = example_main\<lparr>sim := idle_sim\<rparr>"

definition idle_dash :: dash_state where
  "idle_dash = example_dash\<lparr>sim := idle_sim\<rparr>"

text \<open>
  The first example with a light whose current state has three characters, while it
  controls two lanes.
\<close>

definition mismatch_sim :: sim where
  "mismatch_sim = example_sim\<lparr>red_yellow_green_state := (\<lambda>t. ''rGy'')\<rparr>"

definition mismatch_main :: main_state where
  "mismatch_main = example_main\<lparr>sim := mismatch_sim\<rparr>"

definition mismatch_dash :: dash_state where
  "mismatch_dash = example_dash\<lparr>sim := mismatch_sim\<rparr>"

section \<open>Properties of the distance helper\<close>

lemma distance_commute: "distance p q = distance q p"
  by (simp add: distance_def power2_commute)

lemma distance_nonneg: "0 \<le> distance p q"
  by (simp add: distance_def)

lemma distance_self: "distance p p = 0"
  by (simp add: distance_def)

text \<open>
  Claim C9. The helper \<open>distance\<close> is the Euclidean distance of two points of the plane:
  it is symmetric in its arguments, never negative, and zero from a point to itself.
\<close>

theorem C9_distance_euclidean:
  "distance p q = sqrt ((fst p - fst q)\<^sup>2 + (snd p - snd q)\<^sup>2)
   \<and> distance p q = distance q p
   \<and> 0 \<le> distance p q
   \<and> distance p p = 0"
  by (simp add: distance_def power2_commute)

section \<open>Evaluation on the concrete states\<close>


lemmas tl_defs = main_tl_def dash_tl_def Let_def setRedYellowGreenState_def setProgram_def
  save_program_def print_def


lemmas example_defs = example_main_def example_dash_def example_sim_def two_ambulances_def
  light_taken_def three_lanes_def
  frozen_def countdown_def no_lane_change_def

section \<open>The signal string\<close>

lemma build_state_map:
  "build_state amb_edge lanes state =
     state @ map (\<lambda>lane. if sublist amb_edge lane then CHR ''G'' else CHR ''r'') lanes"
  by (induction lanes arbitrary: state) simp_all

section \<open>Saving and restoring a light's program\<close>

lemma main_tl_controlled_lanes [simp]:
  "controlled_lanes (sim (main_tl amb_id amb_edge tl_id st)) = controlled_lanes (sim st)"
  by (simp add: tl_defs split: option.splits)



lemma main_tl_entry_other:
  "other \<noteq> tl_id \<Longrightarrow>
   original_tl_programs (main_tl amb_id amb_edge tl_id st) other = original_tl_programs st other"
  by (simp add: tl_defs split: option.splits)






section \<open>The alert scan\<close>

lemma main_scan_find:
  "main_scan amb_id amb_pos amb_edge amb_lane_index vehicles st =
     (case find (alert_target (sim st) amb_id amb_pos amb_edge amb_lane_index) vehicles of
        None \<Rightarrow> (False, st)
      | Some v \<Rightarrow>
          (True, print (Alerting amb_id v \<lfloor>distance amb_pos (vehicle_position (sim st) v)\<rfloor>) st))"
  by (induction vehicles) (auto simp: alert_target_def PROACTIVE_DISTANCE_def)





section \<open>The lane change\<close>

lemma commands_try_lanes:
  "commands (snd (try_lanes request amb_id options st))
     = commands st @ map (\<lambda>lane. ChangeLane amb_id lane 10) (attempts request amb_id options (sim st))"
proof (induction options arbitrary: st)
  case Nil
  then show ?case by simp
next
  case (Cons new_lane options)
  obtain s1 exc where req: "request (sim st) amb_id new_lane 10 = (s1, exc)"
    by (cases "request (sim st) amb_id new_lane 10")
  show ?case
    using req by (cases exc) (simp_all add: changeLane_def print_def Cons.IH)
qed


lemma attempts_prefix: "prefix (attempts request amb_id options s) options"
  by (induction options arbitrary: s) (auto split: prod.splits)







section \<open>What one iteration sends\<close>

lemma main_tl_sent:
  "\<exists>xs. commands (main_tl amb_id amb_edge tl_id st) = commands st @ xs \<and> list_all light_or_lane xs"
  by (simp add: tl_defs split: option.splits)

lemma fold_main_tl_sent:
  "\<exists>xs. commands (fold (main_tl amb_id amb_edge) junctions st) = commands st @ xs
        \<and> list_all light_or_lane xs"
proof (induction junctions arbitrary: st)
  case Nil
  then show ?case by simp
next
  case (Cons j js)
  obtain xs where xs: "commands (main_tl amb_id amb_edge j st) = commands st @ xs"
      "list_all light_or_lane xs"
    using main_tl_sent by blast
  obtain ys where ys: "commands (fold (main_tl amb_id amb_edge) js (main_tl amb_id amb_edge j st))
        = commands (main_tl amb_id amb_edge j st) @ ys" "list_all light_or_lane ys"
    using Cons.IH by blast
  from xs ys show ?case
    by (intro exI [of _ "xs @ ys"]) simp
qed

lemma main_tl_step [simp]: "step (main_tl amb_id amb_edge tl_id st) = step st"
  by (simp add: tl_defs split: option.splits)

lemma fold_main_tl_step [simp]: "step (fold (main_tl amb_id amb_edge) junctions st) = step st"
  by (induction junctions arbitrary: st) simp_all

lemma try_lanes_step: "step (snd (try_lanes request amb_id options st)) = step st"
proof (induction options arbitrary: st)
  case Nil
  then show ?case by simp
next
  case (Cons new_lane options)
  obtain s1 exc where req: "request (sim st) amb_id new_lane 10 = (s1, exc)"
    by (cases "request (sim st) amb_id new_lane 10")
  show ?case
    using req by (cases exc) (simp_all add: changeLane_def print_def Cons.IH)
qed

lemma main_react_sent:
  "\<exists>xs. commands (main_react request amb_id amb_edge amb_lane_index scanned)
          = commands (snd scanned) @ xs \<and> list_all light_or_lane xs"
proof (cases scanned)
  case (Pair detected st)
  let ?opts = "lane_options amb_lane_index (edge_lane_number (sim st) amb_edge)"
  show ?thesis
  proof (cases detected)
    case True
    have "commands (main_react request amb_id amb_edge amb_lane_index scanned)
          = commands (snd (try_lanes request amb_id ?opts st))"
      using True Pair by (simp add: main_react_def print_def split: prod.splits)
    then show ?thesis
      using Pair by (simp add: commands_try_lanes list_all_iff)
  next
    case False
    then show ?thesis using Pair by (simp add: main_react_def print_def)
  qed
qed

lemma main_react_step:
  "step (main_react request amb_id amb_edge amb_lane_index scanned) = step (snd scanned)"
proof (cases scanned)
  case (Pair detected st)
  let ?opts = "lane_options amb_lane_index (edge_lane_number (sim st) amb_edge)"
  obtain changed st1 where tried: "try_lanes request amb_id ?opts st = (changed, st1)"
    by (cases "try_lanes request amb_id ?opts st")
  have "step st1 = step st"
    using try_lanes_step [of request amb_id ?opts st] by (simp add: tried)
  then show ?thesis
    using Pair tried by (simp add: main_react_def print_def)
qed

lemma main_scan_snd:
  "commands (snd (main_scan amb_id amb_pos amb_edge amb_lane_index vehicles st)) = commands st"
  "step (snd (main_scan amb_id amb_pos amb_edge amb_lane_index vehicles st)) = step st"
  by (simp_all add: main_scan_find print_def split: option.splits)

lemma main_ambulance_sent:
  "\<exists>xs. commands (main_ambulance request vehicles amb_id st)
          = commands st @ marking amb_id @ xs \<and> list_all light_or_lane xs"
proof -
  let ?st2 = "setSpeedMode amb_id 0 (setColor amb_id (255, 0, 0, 255) st)"
  let ?e = "vehicle_road_id (sim st) amb_id"
  let ?st3 = "fold (main_tl amb_id ?e) (trafficlight_id_list (sim ?st2)) ?st2"
  let ?scan = "main_scan amb_id (vehicle_position (sim st) amb_id) ?e
                 (vehicle_lane_index (sim st) amb_id) vehicles ?st3"
  have unfold: "main_ambulance request vehicles amb_id st
      = main_react request amb_id ?e (vehicle_lane_index (sim st) amb_id) ?scan"
    by (simp add: main_ambulance_def Let_def)
  have c2: "commands ?st2 = commands st @ marking amb_id"
    by (simp add: setColor_def setSpeedMode_def marking_def)
  obtain xs where xs: "commands ?st3 = commands ?st2 @ xs" "list_all light_or_lane xs"
    using fold_main_tl_sent by blast
  obtain ys where ys: "commands (main_react request amb_id ?e (vehicle_lane_index (sim st) amb_id)
        ?scan) = commands (snd ?scan) @ ys" "list_all light_or_lane ys"
    using main_react_sent by blast
  have "commands (main_ambulance request vehicles amb_id st)
        = commands st @ marking amb_id @ (xs @ ys)"
    unfolding unfold ys(1) main_scan_snd(1) xs(1) c2 by simp
  with xs(2) ys(2) show ?thesis
    by (intro exI [of _ "xs @ ys"]) simp
qed

lemma main_ambulance_step [simp]: "step (main_ambulance request vehicles amb_id st) = step st"
proof -
  let ?st2 = "setSpeedMode amb_id 0 (setColor amb_id (255, 0, 0, 255) st)"
  let ?e = "vehicle_road_id (sim st) amb_id"
  let ?st3 = "fold (main_tl amb_id ?e) (trafficlight_id_list (sim ?st2)) ?st2"
  let ?scan = "main_scan amb_id (vehicle_position (sim st) amb_id) ?e
                 (vehicle_lane_index (sim st) amb_id) vehicles ?st3"
  have unfold: "main_ambulance request vehicles amb_id st
      = main_react request amb_id ?e (vehicle_lane_index (sim st) amb_id) ?scan"
    by (simp add: main_ambulance_def Let_def)
  have "step ?st2 = step st"
    by (simp add: setColor_def setSpeedMode_def)
  then show ?thesis
    unfolding unfold by (simp add: main_react_step main_scan_snd)
qed

lemma filter_light_or_lane:
  "list_all light_or_lane xs \<Longrightarrow> filter (\<lambda>c. \<not> light_or_lane c) xs = []"
  by (induction xs) simp_all

lemma filter_marking: "filter (\<lambda>c. \<not> light_or_lane c) (marking amb_id) = marking amb_id"
  by (simp add: marking_def)

lemma fold_main_ambulance_sent:
  "\<exists>ys. commands (fold (main_ambulance request vehicles) ambulances st) = commands st @ ys
        \<and> filter (\<lambda>c. \<not> light_or_lane c) ys = concat (map marking ambulances)"
proof (induction ambulances arbitrary: st)
  case Nil
  then show ?case by simp
next
  case (Cons a ambulances)
  let ?st1 = "main_ambulance request vehicles a st"
  obtain xs where xs: "commands ?st1 = commands st @ marking a @ xs" "list_all light_or_lane xs"
    using main_ambulance_sent by blast
  obtain ys where ys: "commands (fold (main_ambulance request vehicles) ambulances ?st1)
        = commands ?st1 @ ys"
      "filter (\<lambda>c. \<not> light_or_lane c) ys = concat (map marking ambulances)"
    using Cons.IH by blast
  from xs ys show ?case
    by (intro exI [of _ "marking a @ xs @ ys"])
       (simp add: filter_light_or_lane filter_marking)
qed

lemma fold_main_ambulance_step [simp]:
  "step (fold (main_ambulance request vehicles) ambulances st) = step st"
  by (induction ambulances arbitrary: st) simp_all

lemma main_body_sent:
  "\<exists>ys. commands (main_body advance request st) = commands st @ SimulationStep # ys
        \<and> filter (\<lambda>c. \<not> light_or_lane c) ys
            = concat (map marking
                (ambulances_of (advance (sim st)) (vehicle_id_list (advance (sim st)))))"
proof -
  let ?st1 = "simulationStep advance st"
  let ?vs = "vehicle_id_list (sim ?st1)"
  let ?ambs = "ambulances_of (sim ?st1) ?vs"
  obtain ys where ys: "commands (fold (main_ambulance request ?vs) ?ambs ?st1) = commands ?st1 @ ys"
      "filter (\<lambda>c. \<not> light_or_lane c) ys = concat (map marking ?ambs)"
    using fold_main_ambulance_sent by blast
  have "commands (main_body advance request st) = commands st @ SimulationStep # ys"
    using ys(1) by (simp add: main_body_def Let_def simulationStep_def)
  moreover have "sim ?st1 = advance (sim st)"
    by (simp add: simulationStep_def)
  ultimately show ?thesis
    using ys(2) by auto
qed

lemma main_body_step [simp]: "step (main_body advance request st) = Suc (step st)"
  by (simp add: main_body_def Let_def simulationStep_def)

lemma dash_tl_sent:
  "\<exists>xs. commands (snd (dash_tl amb_edge tl_id acc)) = commands (snd acc) @ xs
        \<and> list_all light_or_lane xs"
  by (cases acc) (simp add: tl_defs)

lemma fold_dash_tl_sent:
  "\<exists>xs. commands (snd (fold (dash_tl amb_edge) junctions acc)) = commands (snd acc) @ xs
        \<and> list_all light_or_lane xs"
proof (induction junctions arbitrary: acc)
  case Nil
  then show ?case by simp
next
  case (Cons j js)
  obtain xs where xs: "commands (snd (dash_tl amb_edge j acc)) = commands (snd acc) @ xs"
      "list_all light_or_lane xs"
    using dash_tl_sent by blast
  obtain ys where ys: "commands (snd (fold (dash_tl amb_edge) js (dash_tl amb_edge j acc)))
        = commands (snd (dash_tl amb_edge j acc)) @ ys" "list_all light_or_lane ys"
    using Cons.IH by blast
  from xs ys show ?case
    by (intro exI [of _ "xs @ ys"]) simp
qed

lemma dash_tl_step [simp]: "step (snd (dash_tl amb_edge tl_id acc)) = step (snd acc)"
  by (cases acc) (simp add: tl_defs)

lemma fold_dash_tl_step [simp]:
  "step (snd (fold (dash_tl amb_edge) junctions acc)) = step (snd acc)"
  by (induction junctions arbitrary: acc) simp_all

lemma dash_ambulance_sent:
  "\<exists>xs. commands (snd (snd (dash_ambulance vehicles amb_id acc)))
          = commands (snd (snd acc)) @ marking amb_id @ xs \<and> list_all light_or_lane xs"
proof -
  obtain alerted controlled st where acc: "acc = (alerted, controlled, st)"
    by (cases acc) auto
  let ?st2 = "setSpeedMode amb_id 0 (setColor amb_id (255, 0, 0, 255) st)"
  let ?lights = "fold (dash_tl (vehicle_road_id (sim st) amb_id)) (trafficlight_id_list (sim ?st2))
                   (0, ?st2)"
  obtain xs where xs: "commands (snd ?lights) = commands (snd (0 :: nat, ?st2)) @ xs"
      "list_all light_or_lane xs"
    using fold_dash_tl_sent by blast
  have "commands (snd (snd (dash_ambulance vehicles amb_id acc))) = commands (snd ?lights)"
    by (simp add: acc dash_ambulance_def Let_def append_logs_def case_prod_beta)
  also have "\<dots> = commands st @ marking amb_id @ xs"
    using xs(1) by (simp add: setColor_def setSpeedMode_def marking_def)
  finally show ?thesis
    using xs(2) acc by auto
qed

lemma dash_ambulance_step [simp]:
  "step (snd (snd (dash_ambulance vehicles amb_id acc))) = step (snd (snd acc))"
proof -
  obtain alerted controlled st where acc: "acc = (alerted, controlled, st)"
    by (cases acc) auto
  let ?st2 = "setSpeedMode amb_id 0 (setColor amb_id (255, 0, 0, 255) st)"
  let ?lights = "fold (dash_tl (vehicle_road_id (sim st) amb_id)) (trafficlight_id_list (sim ?st2))
                   (0, ?st2)"
  have "step (snd (snd (dash_ambulance vehicles amb_id acc))) = step (snd ?lights)"
    by (simp add: acc dash_ambulance_def Let_def append_logs_def case_prod_beta
          del: fold_dash_tl_step)
  then show ?thesis
    by (simp add: acc setColor_def setSpeedMode_def)
qed

lemma fold_dash_ambulance_sent:
  "\<exists>ys. commands (snd (snd (fold (dash_ambulance vehicles) ambulances acc)))
          = commands (snd (snd acc)) @ ys
        \<and> filter (\<lambda>c. \<not> light_or_lane c) ys = concat (map marking ambulances)"
proof (induction ambulances arbitrary: acc)
  case Nil
  then show ?case by simp
next
  case (Cons a ambulances)
  let ?acc1 = "dash_ambulance vehicles a acc"
  obtain xs where xs: "commands (snd (snd ?acc1)) = commands (snd (snd acc)) @ marking a @ xs"
      "list_all light_or_lane xs"
    using dash_ambulance_sent by blast
  obtain ys where ys: "commands (snd (snd (fold (dash_ambulance vehicles) ambulances ?acc1)))
        = commands (snd (snd ?acc1)) @ ys"
      "filter (\<lambda>c. \<not> light_or_lane c) ys = concat (map marking ambulances)"
    using Cons.IH by blast
  from xs ys show ?case
    by (intro exI [of _ "marking a @ xs @ ys"])
       (simp add: filter_light_or_lane filter_marking)
qed

lemma fold_dash_ambulance_step [simp]:
  "step (snd (snd (fold (dash_ambulance vehicles) ambulances acc))) = step (snd (snd acc))"
  by (induction ambulances arbitrary: acc) simp_all

lemma dash_body_unfold:
  "dash_body advance st =
     (let st3 = snd (snd (fold (dash_ambulance (vehicle_id_list (advance (sim st))))
                     (ambulances_of (advance (sim st)) (vehicle_id_list (advance (sim st))))
                     (0, 0, clear_vehicle_data (simulationStep advance st))));
          st4 = update_vehicle_data (vehicle_id_list (advance (sim st))) st3
      in st4\<lparr>step := step st4 + 1\<rparr>)"
  by (simp add: dash_body_def Let_def simulationStep_def case_prod_beta)

lemma dash_body_sent:
  "\<exists>ys. commands (dash_body advance st) = commands st @ SimulationStep # ys
        \<and> filter (\<lambda>c. \<not> light_or_lane c) ys
            = concat (map marking
                (ambulances_of (advance (sim st)) (vehicle_id_list (advance (sim st)))))"
proof -
  let ?vs = "vehicle_id_list (advance (sim st))"
  let ?ambs = "ambulances_of (advance (sim st)) ?vs"
  let ?acc = "(0 :: nat, 0 :: nat, clear_vehicle_data (simulationStep advance st))"
  obtain ys where ys: "commands (snd (snd (fold (dash_ambulance ?vs) ?ambs ?acc)))
        = commands (snd (snd ?acc)) @ ys"
      "filter (\<lambda>c. \<not> light_or_lane c) ys = concat (map marking ?ambs)"
    using fold_dash_ambulance_sent by blast
  have "commands (dash_body advance st) = commands st @ SimulationStep # ys"
    using ys(1)
    by (simp add: dash_body_unfold update_vehicle_data_def Let_def clear_vehicle_data_def
          simulationStep_def)
  with ys(2) show ?thesis by auto
qed

lemma dash_body_step [simp]: "step (dash_body advance st) = Suc (step st)"
  by (simp add: dash_body_unfold update_vehicle_data_def Let_def clear_vehicle_data_def
        simulationStep_def)

lemma filter_is_marking:
  "filter is_marking ys = filter is_marking (filter (\<lambda>c. \<not> light_or_lane c) ys)"
proof -
  have "\<not> light_or_lane c \<and> is_marking c \<longleftrightarrow> is_marking c" for c
    by (cases c) simp_all
  then show ?thesis by simp
qed

lemma filter_is_marking_concat:
  "filter is_marking (concat (map marking ambulances)) = concat (map marking ambulances)"
  by (induction ambulances) (simp_all add: marking_def)

lemma marked_after_step:
  assumes "commands after = commands before @ SimulationStep # ys"
      and "filter (\<lambda>c. \<not> light_or_lane c) ys = concat (map marking ambulances)"
  shows "filter is_marking (sent_in before after) = concat (map marking ambulances)"
proof -
  have "filter is_marking (sent_in before after) = filter is_marking ys"
    using assms(1) by (simp add: sent_in_def)
  also have "\<dots> = filter is_marking (concat (map marking ambulances))"
    using assms(2) filter_is_marking [of ys] by simp
  finally show ?thesis by (simp add: filter_is_marking_concat)
qed

lemma main_body_marked:
  "filter is_marking (sent_in st (main_body advance request st))
     = concat (map marking (ambulances_of (advance (sim st)) (vehicle_id_list (advance (sim st)))))"
proof -
  obtain ys where "commands (main_body advance request st) = commands st @ SimulationStep # ys"
    "filter (\<lambda>c. \<not> light_or_lane c) ys
       = concat (map marking (ambulances_of (advance (sim st)) (vehicle_id_list (advance (sim st)))))"
    using main_body_sent by blast
  then show ?thesis by (rule marked_after_step)
qed

lemma dash_body_marked:
  "filter is_marking (sent_in st (dash_body advance st))
     = concat (map marking (ambulances_of (advance (sim st)) (vehicle_id_list (advance (sim st)))))"
proof -
  obtain ys where "commands (dash_body advance st) = commands st @ SimulationStep # ys"
    "filter (\<lambda>c. \<not> light_or_lane c) ys
       = concat (map marking (ambulances_of (advance (sim st)) (vehicle_id_list (advance (sim st)))))"
    using dash_body_sent by blast
  then show ?thesis by (rule marked_after_step)
qed

lemma marked_members:
  assumes "filter is_marking sent = concat (map marking (ambulances_of s vehicles))"
  shows "SetColor v c \<in> set sent
           \<longleftrightarrow> c = (255, 0, 0, 255) \<and> v \<in> set vehicles \<and> is_ambulance s v"
    and "SetSpeedMode v m \<in> set sent
           \<longleftrightarrow> m = 0 \<and> v \<in> set vehicles \<and> is_ambulance s v"
proof -
  have "SetColor v c \<in> set sent \<longleftrightarrow> SetColor v c \<in> set (filter is_marking sent)"
    by simp
  then show "SetColor v c \<in> set sent
           \<longleftrightarrow> c = (255, 0, 0, 255) \<and> v \<in> set vehicles \<and> is_ambulance s v"
    unfolding assms by (auto simp: marking_def ambulances_of_def)
  have "SetSpeedMode v m \<in> set sent \<longleftrightarrow> SetSpeedMode v m \<in> set (filter is_marking sent)"
    by simp
  then show "SetSpeedMode v m \<in> set sent
           \<longleftrightarrow> m = 0 \<and> v \<in> set vehicles \<and> is_ambulance s v"
    unfolding assms by (auto simp: marking_def ambulances_of_def)
qed

text \<open>
  Claim C6. In one iteration of either stepping loop, the colour and speed-mode commands
  sent are, for each vehicle of the simulator's list taken after the step whose lowercased
  identifier contains "ambulance" or whose class is "emergency", in list order, the colour
  red and the speed mode 0; no other vehicle is sent either command, and no vehicle is
  sent another colour or speed mode.
\<close>

theorem C6_priority_treatment:
  "filter is_marking (sent_in st (main_body advance request st))
     = concat (map (\<lambda>v. [SetColor v (255, 0, 0, 255), SetSpeedMode v 0])
         (filter (\<lambda>v. sublist ''ambulance'' (lower v)
                       \<or> vehicle_class (advance (sim st)) v = ''emergency'')
            (vehicle_id_list (advance (sim st)))))
   \<and> (SetColor v c \<in> set (sent_in st (main_body advance request st))
        \<longleftrightarrow> c = (255, 0, 0, 255) \<and> v \<in> set (vehicle_id_list (advance (sim st)))
            \<and> (sublist ''ambulance'' (lower v) \<or> vehicle_class (advance (sim st)) v = ''emergency''))
   \<and> (SetSpeedMode v m \<in> set (sent_in st (main_body advance request st))
        \<longleftrightarrow> m = 0 \<and> v \<in> set (vehicle_id_list (advance (sim st)))
            \<and> (sublist ''ambulance'' (lower v) \<or> vehicle_class (advance (sim st)) v = ''emergency''))
   \<and> filter is_marking (sent_in dst (dash_body advance dst))
     = concat (map (\<lambda>v. [SetColor v (255, 0, 0, 255), SetSpeedMode v 0])
         (filter (\<lambda>v. sublist ''ambulance'' (lower v)
                       \<or> vehicle_class (advance (sim dst)) v = ''emergency'')
            (vehicle_id_list (advance (sim dst)))))
   \<and> (SetColor v c \<in> set (sent_in dst (dash_body advance dst))
        \<longleftrightarrow> c = (255, 0, 0, 255) \<and> v \<in> set (vehicle_id_list (advance (sim dst)))
            \<and> (sublist ''ambulance'' (lower v) \<or> vehicle_class (advance (sim dst)) v = ''emergency''))
   \<and> (SetSpeedMode v m \<in> set (sent_in dst (dash_body advance dst))
        \<longleftrightarrow> m = 0 \<and> v \<in> set (vehicle_id_list (advance (sim dst)))
            \<and> (sublist ''ambulance'' (lower v) \<or> vehicle_class (advance (sim dst)) v = ''emergency''))"
proof -
  have shape: "concat (map marking (ambulances_of s vehicles))
      = concat (map (\<lambda>v. [SetColor v (255, 0, 0, 255), SetSpeedMode v 0])
          (filter (\<lambda>v. sublist ''ambulance'' (lower v) \<or> vehicle_class s v = ''emergency'')
             vehicles))" for s vehicles
    by (simp add: marking_def [abs_def] ambulances_of_def is_ambulance_def [abs_def])
  note main = main_body_marked [of st advance request]
  note dash = dash_body_marked [of dst advance]
  show ?thesis
    using main dash
      marked_members(1) [OF main, where v = v and c = c]
      marked_members(1) [OF dash, where v = v and c = c]
      marked_members(2) [OF main, where v = v and m = m]
      marked_members(2) [OF dash, where v = v and m = m]
    by (simp add: shape is_ambulance_def)
qed

section \<open>The stepping loops\<close>

lemma no_step_in_marking:
  "filter (\<lambda>c. c = SimulationStep) (concat (map marking ambulances)) = []"
  by (induction ambulances) (simp_all add: marking_def)

lemma filter_step:
  "filter (\<lambda>c. c = SimulationStep) ys
     = filter (\<lambda>c. c = SimulationStep) (filter (\<lambda>c. \<not> light_or_lane c) ys)"
proof -
  have "\<not> light_or_lane c \<and> c = SimulationStep \<longleftrightarrow> c = SimulationStep" for c
    by (cases c) simp_all
  then show ?thesis by simp
qed

lemma one_step_sent:
  assumes "filter (\<lambda>c. \<not> light_or_lane c) ys = concat (map marking ambulances)"
  shows "length (filter (\<lambda>c. c = SimulationStep) (SimulationStep # ys)) = 1"
  using assms filter_step [of ys] by (simp add: no_step_in_marking)

lemma main_body_one_step:
  "\<exists>xs. commands (main_body advance request st) = commands st @ xs
        \<and> length (filter (\<lambda>c. c = SimulationStep) xs) = 1"
proof -
  obtain ys where ys: "commands (main_body advance request st) = commands st @ SimulationStep # ys"
    "filter (\<lambda>c. \<not> light_or_lane c) ys
       = concat (map marking (ambulances_of (advance (sim st)) (vehicle_id_list (advance (sim st)))))"
    using main_body_sent by blast
  from ys(1) one_step_sent [OF ys(2)] show ?thesis by blast
qed

lemma dash_body_one_step:
  "\<exists>xs. commands (dash_body advance st) = commands st @ xs
        \<and> length (filter (\<lambda>c. c = SimulationStep) xs) = 1"
proof -
  obtain ys where ys: "commands (dash_body advance st) = commands st @ SimulationStep # ys"
    "filter (\<lambda>c. \<not> light_or_lane c) ys
       = concat (map marking (ambulances_of (advance (sim st)) (vehicle_id_list (advance (sim st)))))"
    using dash_body_sent by blast
  from ys(1) one_step_sent [OF ys(2)] show ?thesis by blast
qed

text \<open>Iterating a loop body whose every run sends one step command and adds one to the counter.\<close>

lemma iterate_counts:
  fixes body :: "'a state_scheme \<Rightarrow> 'a state_scheme"
  assumes sent: "\<And>st. \<exists>xs. commands (body st) = commands st @ xs
                      \<and> length (filter (\<lambda>c. c = SimulationStep) xs) = 1"
      and counter: "\<And>st. step (body st) = Suc (step st)"
  shows "step ((body ^^ k) st) = step st + k
         \<and> length (filter (\<lambda>c. c = SimulationStep) (sent_in st ((body ^^ k) st))) = k"
proof -
  have "step ((body ^^ k) st) = step st + k
        \<and> (\<exists>xs. commands ((body ^^ k) st) = commands st @ xs
               \<and> length (filter (\<lambda>c. c = SimulationStep) xs) = k)"
  proof (induction k)
    case 0
    then show ?case by simp
  next
    case (Suc k)
    then obtain xs where xs: "commands ((body ^^ k) st) = commands st @ xs"
        "length (filter (\<lambda>c. c = SimulationStep) xs) = k"
      by blast
    obtain ys where ys: "commands (body ((body ^^ k) st)) = commands ((body ^^ k) st) @ ys"
        "length (filter (\<lambda>c. c = SimulationStep) ys) = 1"
      using sent by blast
    have "commands ((body ^^ Suc k) st) = commands st @ (xs @ ys)"
      using xs(1) ys(1) by simp
    moreover have "length (filter (\<lambda>c. c = SimulationStep) (xs @ ys)) = Suc k"
      using xs(2) ys(2) by simp
    ultimately show ?case
      using Suc counter by simp
  qed
  then show ?thesis
    by (auto simp: sent_in_def)
qed

lemma funpow_after: "(f ^^ Suc k) x = (f ^^ k) (f x)"
  by (simp only: funpow_Suc_right o_apply)

lemma main_loop_returns:
  "min_expected_number (sim ((main_body advance request ^^ n) st)) \<le> 0 \<Longrightarrow>
   \<exists>k\<le>n. main_loop advance request st = Some ((main_body advance request ^^ k) st)
         \<and> (\<forall>i<k. 0 < min_expected_number (sim ((main_body advance request ^^ i) st)))
         \<and> min_expected_number (sim ((main_body advance request ^^ k) st)) \<le> 0"
proof (induction n arbitrary: st)
  case 0
  then have "main_loop advance request st = Some st"
    by (subst main_loop.simps) simp
  with 0 show ?case by simp
next
  case (Suc n)
  show ?case
  proof (cases "0 < min_expected_number (sim st)")
    case False
    then have "main_loop advance request st = Some st"
      by (subst main_loop.simps) simp
    with False show ?thesis
      by (intro exI [of _ 0]) simp
  next
    case True
    let ?st1 = "main_body advance request st"
    from Suc.prems have "min_expected_number (sim ((main_body advance request ^^ n) ?st1)) \<le> 0"
      by (simp only: funpow_after)
    from Suc.IH [OF this] obtain k where k: "k \<le> n"
        "main_loop advance request ?st1 = Some ((main_body advance request ^^ k) ?st1)"
        "\<forall>i<k. 0 < min_expected_number (sim ((main_body advance request ^^ i) ?st1))"
        "min_expected_number (sim ((main_body advance request ^^ k) ?st1)) \<le> 0"
      by blast
    have "main_loop advance request st = main_loop advance request ?st1"
      using True by (subst main_loop.simps) simp
    with k(2) have result:
      "main_loop advance request st = Some ((main_body advance request ^^ Suc k) st)"
      by (simp only: funpow_after)
    have final: "min_expected_number (sim ((main_body advance request ^^ Suc k) st)) \<le> 0"
      using k(4) by (simp only: funpow_after)
    have earlier: "\<forall>i<Suc k. 0 < min_expected_number (sim ((main_body advance request ^^ i) st))"
    proof (intro allI impI)
      fix i assume "i < Suc k"
      show "0 < min_expected_number (sim ((main_body advance request ^^ i) st))"
      proof (cases i)
        case 0
        with True show ?thesis by simp
      next
        case (Suc j)
        with \<open>i < Suc k\<close> have "j < k" by simp
        with k(3) have "0 < min_expected_number (sim ((main_body advance request ^^ j) ?st1))"
          by blast
        then show ?thesis
          unfolding Suc by (simp only: funpow_after)
      qed
    qed
    from k(1) have "Suc k \<le> Suc n" by simp
    with result earlier final show ?thesis by blast
  qed
qed

lemma main_loop_Some:
  assumes "main_loop advance request st = Some r"
  shows "\<exists>k. r = (main_body advance request ^^ k) st \<and> min_expected_number (sim r) \<le> 0"
proof -
  let ?P = "\<lambda>advance request st r.
              \<exists>k. r = (main_body advance request ^^ k) st \<and> min_expected_number (sim r) \<le> 0"
  have "?P advance request st r"
  proof (rule main_loop.raw_induct [where P = ?P, OF _ assms])
    fix loop :: "simulation_step \<Rightarrow> change_lane \<Rightarrow> main_state \<Rightarrow> main_state option"
    fix advance request st r
    assume IH: "\<And>advance request st r. loop advance request st = Some r \<Longrightarrow> ?P advance request st r"
      and unrolled: "(if 0 < min_expected_number (sim st)
                      then loop advance request (main_body advance request st)
                      else Some st) = Some r"
    show "?P advance request st r"
    proof (cases "0 < min_expected_number (sim st)")
      case True
      with unrolled have "loop advance request (main_body advance request st) = Some r"
        by simp
      from IH [OF this] obtain k where
        "r = (main_body advance request ^^ k) (main_body advance request st)"
        "min_expected_number (sim r) \<le> 0"
        by blast
      then have "r = (main_body advance request ^^ Suc k) st \<and> min_expected_number (sim r) \<le> 0"
        by (simp only: funpow_after)
      then show ?thesis ..
    next
      case False
      with unrolled have "r = (main_body advance request ^^ 0) st \<and> min_expected_number (sim r) \<le> 0"
        by simp
      then show ?thesis ..
    qed
  qed
  then show ?thesis .
qed

lemma main_loop_diverges:
  "(\<forall>i. 0 < min_expected_number (sim ((main_body advance request ^^ i) st))) \<Longrightarrow>
   main_loop advance request st = None"
proof (rule ccontr)
  assume positive: "\<forall>i. 0 < min_expected_number (sim ((main_body advance request ^^ i) st))"
  assume "main_loop advance request st \<noteq> None"
  then obtain r where "main_loop advance request st = Some r" by blast
  from main_loop_Some [OF this] obtain k where
    "r = (main_body advance request ^^ k) st" "min_expected_number (sim r) \<le> 0"
    by blast
  moreover from positive
  have "0 < min_expected_number (sim ((main_body advance request ^^ k) st))" ..
  ultimately show False by simp
qed

lemma run_simulation_returns:
  "min_expected_number (sim ((dash_body advance ^^ n) st)) \<le> 0 \<Longrightarrow>
   \<exists>k\<le>n. run_simulation advance st = Some ((dash_body advance ^^ k) st)
         \<and> (\<forall>i<k. 0 < min_expected_number (sim ((dash_body advance ^^ i) st)))
         \<and> min_expected_number (sim ((dash_body advance ^^ k) st)) \<le> 0"
proof (induction n arbitrary: st)
  case 0
  then have "run_simulation advance st = Some st"
    by (subst run_simulation.simps) simp
  with 0 show ?case by simp
next
  case (Suc n)
  show ?case
  proof (cases "0 < min_expected_number (sim st)")
    case False
    then have "run_simulation advance st = Some st"
      by (subst run_simulation.simps) simp
    with False show ?thesis
      by (intro exI [of _ 0]) simp
  next
    case True
    let ?st1 = "dash_body advance st"
    from Suc.prems have "min_expected_number (sim ((dash_body advance ^^ n) ?st1)) \<le> 0"
      by (simp only: funpow_after)
    from Suc.IH [OF this] obtain k where k: "k \<le> n"
        "run_simulation advance ?st1 = Some ((dash_body advance ^^ k) ?st1)"
        "\<forall>i<k. 0 < min_expected_number (sim ((dash_body advance ^^ i) ?st1))"
        "min_expected_number (sim ((dash_body advance ^^ k) ?st1)) \<le> 0"
      by blast
    have "run_simulation advance st = run_simulation advance ?st1"
      using True by (subst run_simulation.simps) simp
    with k(2) have result:
      "run_simulation advance st = Some ((dash_body advance ^^ Suc k) st)"
      by (simp only: funpow_after)
    have final: "min_expected_number (sim ((dash_body advance ^^ Suc k) st)) \<le> 0"
      using k(4) by (simp only: funpow_after)
    have earlier: "\<forall>i<Suc k. 0 < min_expected_number (sim ((dash_body advance ^^ i) st))"
    proof (intro allI impI)
      fix i assume "i < Suc k"
      show "0 < min_expected_number (sim ((dash_body advance ^^ i) st))"
      proof (cases i)
        case 0
        with True show ?thesis by simp
      next
        case (Suc j)
        with \<open>i < Suc k\<close> have "j < k" by simp
        with k(3) have "0 < min_expected_number (sim ((dash_body advance ^^ j) ?st1))"
          by blast
        then show ?thesis
          unfolding Suc by (simp only: funpow_after)
      qed
    qed
    from k(1) have "Suc k \<le> Suc n" by simp
    with result earlier final show ?thesis by blast
  qed
qed

lemma run_simulation_Some:
  assumes "run_simulation advance st = Some r"
  shows "\<exists>k. r = (dash_body advance ^^ k) st \<and> min_expected_number (sim r) \<le> 0"
proof -
  let ?P = "\<lambda>advance st r.
              \<exists>k. r = (dash_body advance ^^ k) st \<and> min_expected_number (sim r) \<le> 0"
  have "?P advance st r"
  proof (rule run_simulation.raw_induct [where P = ?P, OF _ assms])
    fix loop :: "simulation_step \<Rightarrow> dash_state \<Rightarrow> dash_state option"
    fix advance st r
    assume IH: "\<And>advance st r. loop advance st = Some r \<Longrightarrow> ?P advance st r"
      and unrolled: "(if 0 < min_expected_number (sim st)
                      then loop advance (dash_body advance st)
                      else Some st) = Some r"
    show "?P advance st r"
    proof (cases "0 < min_expected_number (sim st)")
      case True
      with unrolled have "loop advance (dash_body advance st) = Some r"
        by simp
      from IH [OF this] obtain k where
        "r = (dash_body advance ^^ k) (dash_body advance st)"
        "min_expected_number (sim r) \<le> 0"
        by blast
      then have "r = (dash_body advance ^^ Suc k) st \<and> min_expected_number (sim r) \<le> 0"
        by (simp only: funpow_after)
      then show ?thesis ..
    next
      case False
      with unrolled have "r = (dash_body advance ^^ 0) st \<and> min_expected_number (sim r) \<le> 0"
        by simp
      then show ?thesis ..
    qed
  qed
  then show ?thesis .
qed

lemma run_simulation_diverges:
  "(\<forall>i. 0 < min_expected_number (sim ((dash_body advance ^^ i) st))) \<Longrightarrow>
   run_simulation advance st = None"
proof (rule ccontr)
  assume positive: "\<forall>i. 0 < min_expected_number (sim ((dash_body advance ^^ i) st))"
  assume "run_simulation advance st \<noteq> None"
  then obtain r where "run_simulation advance st = Some r" by blast
  from run_simulation_Some [OF this] obtain k where
    "r = (dash_body advance ^^ k) st" "min_expected_number (sim r) \<le> 0"
    by blast
  moreover from positive
  have "0 < min_expected_number (sim ((dash_body advance ^^ k) st))" ..
  ultimately show False by simp
qed


lemma main_body_no_vehicles:
  "vehicle_id_list (advance (sim st)) = [] \<Longrightarrow> sim (main_body advance request st) = advance (sim st)"
  by (simp add: main_body_def Let_def simulationStep_def ambulances_of_def)

lemma dash_body_no_vehicles:
  "vehicle_id_list (advance (sim st)) = [] \<Longrightarrow> sim (dash_body advance st) = advance (sim st)"
  by (simp add: dash_body_unfold Let_def simulationStep_def ambulances_of_def
        update_vehicle_data_def clear_vehicle_data_def)

lemma iterate_no_vehicles:
  fixes body :: "'a state_scheme \<Rightarrow> 'a state_scheme"
  assumes body: "\<And>st. vehicle_id_list (advance (sim st)) = [] \<Longrightarrow> sim (body st) = advance (sim st)"
      and keeps: "\<And>s. vehicle_id_list (advance s) = vehicle_id_list s"
      and empty: "vehicle_id_list (sim st) = []"
  shows "sim ((body ^^ i) st) = (advance ^^ i) (sim st)
         \<and> vehicle_id_list (sim ((body ^^ i) st)) = []"
proof (induction i)
  case 0
  with empty show ?case by simp
next
  case (Suc i)
  then have now: "sim ((body ^^ i) st) = (advance ^^ i) (sim st)"
    and none: "vehicle_id_list (sim ((body ^^ i) st)) = []"
    by blast+
  have "vehicle_id_list (advance (sim ((body ^^ i) st))) = []"
    using keeps [of "sim ((body ^^ i) st)"] none by (simp only:)
  from body [OF this] have "sim (body ((body ^^ i) st)) = advance (sim ((body ^^ i) st))" .
  with now none show ?case
    by (simp add: keeps)
qed

lemma frozen_funpow: "(frozen ^^ i) s = s"
  by (induction i) (simp_all add: frozen_def)

text \<open>
  Claim C7. If after some number of iterations the simulator reports a minimum expected
  number that is not positive, each stepping loop returns: it has run exactly the
  iterations before the first such report, every earlier report was positive, each
  iteration sent one simulation step and added one to the step counter. If every report
  is positive the loop does not return.
\<close>

theorem C7_loop_termination:
  "(min_expected_number (sim ((main_body advance request ^^ n) st)) \<le> 0 \<longrightarrow>
      (\<exists>k\<le>n. main_loop advance request st = Some ((main_body advance request ^^ k) st)
          \<and> (\<forall>i<k. 0 < min_expected_number (sim ((main_body advance request ^^ i) st)))
          \<and> min_expected_number (sim ((main_body advance request ^^ k) st)) \<le> 0
          \<and> step ((main_body advance request ^^ k) st) = step st + k
          \<and> length (filter (\<lambda>c. c = SimulationStep)
                       (sent_in st ((main_body advance request ^^ k) st))) = k))
   \<and> ((\<forall>i. 0 < min_expected_number (sim ((main_body advance request ^^ i) st))) \<longrightarrow>
        main_loop advance request st = None)
   \<and> (min_expected_number (sim ((dash_body advance ^^ m) dst)) \<le> 0 \<longrightarrow>
      (\<exists>k\<le>m. run_simulation advance dst = Some ((dash_body advance ^^ k) dst)
          \<and> (\<forall>i<k. 0 < min_expected_number (sim ((dash_body advance ^^ i) dst)))
          \<and> min_expected_number (sim ((dash_body advance ^^ k) dst)) \<le> 0
          \<and> step ((dash_body advance ^^ k) dst) = step dst + k
          \<and> length (filter (\<lambda>c. c = SimulationStep)
                       (sent_in dst ((dash_body advance ^^ k) dst))) = k))
   \<and> ((\<forall>i. 0 < min_expected_number (sim ((dash_body advance ^^ i) dst))) \<longrightarrow>
        run_simulation advance dst = None)"
proof (intro conjI impI)
  assume "min_expected_number (sim ((main_body advance request ^^ n) st)) \<le> 0"
  from main_loop_returns [OF this] obtain k where k: "k \<le> n"
      "main_loop advance request st = Some ((main_body advance request ^^ k) st)"
      "\<forall>i<k. 0 < min_expected_number (sim ((main_body advance request ^^ i) st))"
      "min_expected_number (sim ((main_body advance request ^^ k) st)) \<le> 0"
    by blast
  have "step ((main_body advance request ^^ k) st) = step st + k
        \<and> length (filter (\<lambda>c. c = SimulationStep)
                    (sent_in st ((main_body advance request ^^ k) st))) = k"
    by (rule iterate_counts) (rule main_body_one_step, rule main_body_step)
  with k show "\<exists>k\<le>n. main_loop advance request st = Some ((main_body advance request ^^ k) st)
          \<and> (\<forall>i<k. 0 < min_expected_number (sim ((main_body advance request ^^ i) st)))
          \<and> min_expected_number (sim ((main_body advance request ^^ k) st)) \<le> 0
          \<and> step ((main_body advance request ^^ k) st) = step st + k
          \<and> length (filter (\<lambda>c. c = SimulationStep)
                       (sent_in st ((main_body advance request ^^ k) st))) = k"
    by blast
next
  assume "\<forall>i. 0 < min_expected_number (sim ((main_body advance request ^^ i) st))"
  then show "main_loop advance request st = None"
    by (rule main_loop_diverges)
next
  assume "min_expected_number (sim ((dash_body advance ^^ m) dst)) \<le> 0"
  from run_simulation_returns [OF this] obtain k where k: "k \<le> m"
      "run_simulation advance dst = Some ((dash_body advance ^^ k) dst)"
      "\<forall>i<k. 0 < min_expected_number (sim ((dash_body advance ^^ i) dst))"
      "min_expected_number (sim ((dash_body advance ^^ k) dst)) \<le> 0"
    by blast
  have "step ((dash_body advance ^^ k) dst) = step dst + k
        \<and> length (filter (\<lambda>c. c = SimulationStep)
                    (sent_in dst ((dash_body advance ^^ k) dst))) = k"
    by (rule iterate_counts) (rule dash_body_one_step, rule dash_body_step)
  with k show "\<exists>k\<le>m. run_simulation advance dst = Some ((dash_body advance ^^ k) dst)
          \<and> (\<forall>i<k. 0 < min_expected_number (sim ((dash_body advance ^^ i) dst)))
          \<and> min_expected_number (sim ((dash_body advance ^^ k) dst)) \<le> 0
          \<and> step ((dash_body advance ^^ k) dst) = step dst + k
          \<and> length (filter (\<lambda>c. c = SimulationStep)
                       (sent_in dst ((dash_body advance ^^ k) dst))) = k"
    by blast
next
  assume "\<forall>i. 0 < min_expected_number (sim ((dash_body advance ^^ i) dst))"
  then show "run_simulation advance dst = None"
    by (rule run_simulation_diverges)
qed

text \<open>
  The witness: with no vehicles and two entities expected, a simulator that counts down
  ends both loops after two iterations, and one that never changes keeps them running.
\<close>

theorem C7_loop_termination_witness:
  "min_expected_number (sim ((main_body countdown no_lane_change ^^ 2) idle_main)) \<le> 0
   \<and> (\<exists>k\<le>2. main_loop countdown no_lane_change idle_main
               = Some ((main_body countdown no_lane_change ^^ k) idle_main)
          \<and> step ((main_body countdown no_lane_change ^^ k) idle_main) = k)
   \<and> main_loop frozen no_lane_change idle_main = None
   \<and> min_expected_number (sim ((dash_body countdown ^^ 2) idle_dash)) \<le> 0
   \<and> (\<exists>k\<le>2. run_simulation countdown idle_dash = Some ((dash_body countdown ^^ k) idle_dash)
          \<and> step ((dash_body countdown ^^ k) idle_dash) = k)
   \<and> run_simulation frozen idle_dash = None"
proof -
  have idle: "vehicle_id_list (sim idle_main) = []" "vehicle_id_list (sim idle_dash) = []"
      "step idle_main = 0" "step idle_dash = 0"
      "sim idle_main = idle_sim" "sim idle_dash = idle_sim"
    by (simp_all add: idle_main_def idle_dash_def idle_sim_def example_defs)
  have main_sim: "sim ((main_body advance no_lane_change ^^ i) idle_main) = (advance ^^ i) idle_sim"
    if "\<And>s. vehicle_id_list (advance s) = vehicle_id_list s" for advance i
    using iterate_no_vehicles [where body = "main_body advance no_lane_change"
        and advance = advance and st = idle_main and i = i, OF main_body_no_vehicles that idle(1)]
      idle(5) by simp
  have dash_sim: "sim ((dash_body advance ^^ i) idle_dash) = (advance ^^ i) idle_sim"
    if "\<And>s. vehicle_id_list (advance s) = vehicle_id_list s" for advance i
    using iterate_no_vehicles [where body = "dash_body advance"
        and advance = advance and st = idle_dash and i = i, OF dash_body_no_vehicles that idle(2)]
      idle(6) by simp
  have twice: "min_expected_number ((countdown ^^ 2) idle_sim) = 0"
    by (simp add: numeral_2_eq_2 countdown_def idle_sim_def example_sim_def)
  have stays: "0 < min_expected_number ((frozen ^^ i) idle_sim)" for i
    by (simp add: frozen_funpow idle_sim_def example_sim_def)
  have m2: "min_expected_number (sim ((main_body countdown no_lane_change ^^ 2) idle_main)) \<le> 0"
    using twice by (simp add: main_sim countdown_def)
  have d2: "min_expected_number (sim ((dash_body countdown ^^ 2) idle_dash)) \<le> 0"
    using twice by (simp add: dash_sim countdown_def)
  have mf: "\<forall>i. 0 < min_expected_number (sim ((main_body frozen no_lane_change ^^ i) idle_main))"
    using stays by (simp add: main_sim frozen_def)
  have df: "\<forall>i. 0 < min_expected_number (sim ((dash_body frozen ^^ i) idle_dash))"
    using stays by (simp add: dash_sim frozen_def)
  from C7_loop_termination [where advance = countdown and request = no_lane_change
         and n = 2 and st = idle_main and m = 2 and dst = idle_dash]
       C7_loop_termination [where advance = frozen and request = no_lane_change
         and n = 2 and st = idle_main and m = 2 and dst = idle_dash]
  show ?thesis
    using m2 d2 mf df idle(3,4) by auto
qed

section \<open>The RSU file\<close>

lemma fold_insert: "set (fold List.insert xs acc) = set xs \<union> set acc"
  "distinct acc \<Longrightarrow> distinct (fold List.insert xs acc)"
  by (induction xs arbitrary: acc) auto

lemma add_route_set:
  "set (add_route s v acc)
     = set acc \<union> (if vehicle_class s v = ''emergency'' then set (vehicle_route s v) else {})"
  by (auto simp: add_route_def fold_insert)

lemma add_route_distinct: "distinct acc \<Longrightarrow> distinct (add_route s v acc)"
  by (simp add: add_route_def fold_insert)

lemma fold_add_route:
  "set (fold (add_route s) vs acc)
     = set acc \<union> (\<Union>v \<in> {v \<in> set vs. vehicle_class s v = ''emergency''}. set (vehicle_route s v))"
  "distinct acc \<Longrightarrow> distinct (fold (add_route s) vs acc)"
  by (induction vs arbitrary: acc) (auto simp: add_route_set add_route_distinct)

lemma scan_routes_set: "set (scan_routes s acc) = set acc \<union> emergency_route_edges s"
  by (simp add: scan_routes_def fold_add_route emergency_route_edges_def)

lemma scan_routes_distinct: "distinct acc \<Longrightarrow> distinct (scan_routes s acc)"
  by (simp add: scan_routes_def fold_add_route)

lemma advance_and_scan_result:
  "fst (advance_and_scan advance n (s, acc)) = (advance ^^ n) s
   \<and> set (snd (advance_and_scan advance n (s, acc)))
       = set acc \<union> (\<Union>i \<in> {1..n}. emergency_route_edges ((advance ^^ i) s))
   \<and> (distinct acc \<longrightarrow> distinct (snd (advance_and_scan advance n (s, acc))))"
proof (induction n arbitrary: s acc)
  case 0
  then show ?case by simp
next
  case (Suc n)
  let ?s1 = "advance s"
  let ?acc1 = "scan_routes ?s1 acc"
  have unroll: "advance_and_scan advance (Suc n) (s, acc) = advance_and_scan advance n (?s1, ?acc1)"
    by simp
  have range: "{1..Suc n} = insert 1 (Suc ` {1..n})"
    by (auto simp: image_iff)
  have "(\<Union>i \<in> {1..Suc n}. emergency_route_edges ((advance ^^ i) s))
      = emergency_route_edges ((advance ^^ 1) s)
        \<union> (\<Union>i \<in> Suc ` {1..n}. emergency_route_edges ((advance ^^ i) s))"
    unfolding range by (rule UN_insert)
  also have "(\<Union>i \<in> Suc ` {1..n}. emergency_route_edges ((advance ^^ i) s))
      = (\<Union>i \<in> {1..n}. emergency_route_edges ((advance ^^ Suc i) s))"
    by blast
  finally have union: "(\<Union>i \<in> {1..Suc n}. emergency_route_edges ((advance ^^ i) s))
      = emergency_route_edges ?s1 \<union> (\<Union>i \<in> {1..n}. emergency_route_edges ((advance ^^ i) ?s1))"
    by (simp only: funpow_after One_nat_def funpow.simps(1) id_apply)
  from Suc.IH [of ?s1 ?acc1] show ?case
    unfolding unroll union
    by (auto simp: scan_routes_set scan_routes_distinct funpow_after simp del: funpow.simps)
qed

lemma find_emergency_edges_result:
  "distinct (snd (find_emergency_edges advance s))
   \<and> fst (find_emergency_edges advance s)
       = (if emergency_route_edges s = {} then (advance ^^ 200) s else s)
   \<and> set (snd (find_emergency_edges advance s))
       = (if emergency_route_edges s = {}
          then (\<Union>i \<in> {1..200}. emergency_route_edges ((advance ^^ i) s))
          else emergency_route_edges s)"
proof -
  have first: "set (scan_routes s []) = emergency_route_edges s"
    by (simp add: scan_routes_set)
  have empty: "scan_routes s [] = [] \<longleftrightarrow> emergency_route_edges s = {}"
    using first by (metis set_empty)
  show ?thesis
  proof (cases "emergency_route_edges s = {}")
    case True
    with empty have "find_emergency_edges advance s = advance_and_scan advance 200 (s, [])"
      by (simp add: find_emergency_edges_def Let_def)
    with True advance_and_scan_result [of advance 200 s "[]"] show ?thesis
      by simp
  next
    case False
    with empty have "find_emergency_edges advance s = (s, scan_routes s [])"
      by (simp add: find_emergency_edges_def Let_def)
    with False first show ?thesis
      by (simp add: scan_routes_distinct)
  qed
qed

lemma fold_place_rsu:
  "fold (place_rsu s) edges acc
     = acc @ map (\<lambda>e. (e @ ''_0'', rsu_pos (lane_length s (e @ ''_0''))))
               (filter (\<lambda>e. e @ ''_0'' \<in> set (lane_id_list s)) edges)"
  by (induction edges arbitrary: acc) (simp_all add: place_rsu_def Let_def)

lemma place_rsus_map:
  "place_rsus s edges
     = map (\<lambda>e. (e @ ''_0'', rsu_pos (lane_length s (e @ ''_0''))))
         (filter (\<lambda>e. e @ ''_0'' \<in> set (lane_id_list s)) edges)"
  by (simp add: place_rsus_def fold_place_rsu)

lemma str_nat_not_Nil: "str_nat n \<noteq> []"
  by (subst str_nat.simps) simp

lemma digit_inj:
  "a < 10 \<Longrightarrow> b < 10 \<Longrightarrow> ''0123456789'' ! a = ''0123456789'' ! b \<Longrightarrow> a = b"
proof -
  assume "a < 10" "b < 10" "''0123456789'' ! a = ''0123456789'' ! b"
  moreover have "distinct ''0123456789''" by simp
  ultimately show "a = b"
    by (simp add: nth_eq_iff_index_eq)
qed

lemma str_nat_inj: "str_nat n = str_nat m \<Longrightarrow> n = m"
proof (induction n arbitrary: m rule: str_nat.induct)
  case (1 n)
  show ?case
  proof (cases "n < 10")
    case True
    then have n: "str_nat n = [''0123456789'' ! n]"
      by (subst str_nat.simps) simp
    show ?thesis
    proof (cases "m < 10")
      case mt: True
      then have "str_nat m = [''0123456789'' ! m]"
        by (subst str_nat.simps) simp
      with n "1.prems" True mt show ?thesis
        by (simp add: digit_inj)
    next
      case mf: False
      then have "str_nat m = str_nat (m div 10) @ [''0123456789'' ! (m mod 10)]"
        by (subst str_nat.simps) simp
      with n "1.prems" str_nat_not_Nil [of "m div 10"] show ?thesis
        by simp
    qed
  next
    case False
    then have n: "str_nat n = str_nat (n div 10) @ [''0123456789'' ! (n mod 10)]"
      by (subst str_nat.simps) simp
    show ?thesis
    proof (cases "m < 10")
      case mt: True
      then have "str_nat m = [''0123456789'' ! m]"
        by (subst str_nat.simps) simp
      with n "1.prems" str_nat_not_Nil [of "n div 10"] show ?thesis
        by simp
    next
      case mf: False
      then have "str_nat m = str_nat (m div 10) @ [''0123456789'' ! (m mod 10)]"
        by (subst str_nat.simps) simp
      with n "1.prems" have parts: "str_nat (n div 10) = str_nat (m div 10)"
          "''0123456789'' ! (n mod 10) = ''0123456789'' ! (m mod 10)"
        by simp_all
      from "1.IH" [OF False parts(1)] have "n div 10 = m div 10" .
      moreover from parts(2) have "n mod 10 = m mod 10"
        by (intro digit_inj) simp_all
      ultimately show ?thesis
        by (metis div_mult_mod_eq)
    qed
  qed
qed

lemma sub_element_enumerate:
  "map (\<lambda>entry. loop_lane (sub_element entry)) (enumerate n rsu_list) = map fst rsu_list"
  "map (\<lambda>entry. loop_pos (sub_element entry)) (enumerate n rsu_list) = map snd rsu_list"
  "map (\<lambda>entry. loop_id (sub_element entry)) (enumerate n rsu_list)
     = map (\<lambda>i. ''rsu_'' @ str_nat i) [n..<n + length rsu_list]"
proof -
  show "map (\<lambda>entry. loop_lane (sub_element entry)) (enumerate n rsu_list) = map fst rsu_list"
    by (induction rsu_list arbitrary: n) (simp_all add: sub_element_def case_prod_beta)
  show "map (\<lambda>entry. loop_pos (sub_element entry)) (enumerate n rsu_list) = map snd rsu_list"
    by (induction rsu_list arbitrary: n) (simp_all add: sub_element_def case_prod_beta)
  show "map (\<lambda>entry. loop_id (sub_element entry)) (enumerate n rsu_list)
     = map (\<lambda>i. ''rsu_'' @ str_nat i) [n..<n + length rsu_list]"
  proof (induction rsu_list arbitrary: n)
    case Nil
    then show ?case by simp
  next
    case (Cons entry rsu_list)
    have "[n..<n + length (entry # rsu_list)] = n # [Suc n..<Suc n + length rsu_list]"
      by (subst upt_rec) (simp del: upt_Suc)
    then show ?case
      using Cons [of "Suc n"]
      by (simp only: list.map enumerate_simps) (simp add: sub_element_def case_prod_beta del: upt_Suc)
  qed
qed

lemma additional_fields:
  "length (additional rsu_list) = length rsu_list"
  "map loop_lane (additional rsu_list) = map fst rsu_list"
  "map loop_pos (additional rsu_list) = map snd rsu_list"
  "map loop_id (additional rsu_list) = map (\<lambda>i. ''rsu_'' @ str_nat i) [0..<length rsu_list]"
  using sub_element_enumerate [of 0 rsu_list]
  by (simp_all add: additional_def comp_def)

lemma rsu_ids_distinct: "distinct (map (\<lambda>i. ''rsu_'' @ str_nat i) [0..<n])"
  by (simp add: distinct_map inj_on_def str_nat_inj)

lemma rsu_pos_bounds: "2 \<le> len \<Longrightarrow> rsu_pos len = len / 2 \<and> 1 \<le> rsu_pos len \<and> rsu_pos len \<le> len - 1"
  by (simp add: rsu_pos_def max_def min_def)

lemma additional_pos:
  assumes "l \<in> set (additional (place_rsus s edges))"
  shows "loop_pos l = rsu_pos (lane_length s (loop_lane l))"
proof -
  from assms obtain i p where l: "l = sub_element (i, p)" and "(i, p) \<in> set (enumerate 0 (place_rsus s edges))"
    by (auto simp: additional_def)
  then have "p \<in> set (place_rsus s edges)"
    by (auto simp: in_set_enumerate_eq)
  then obtain e where "p = (e @ ''_0'', rsu_pos (lane_length s (e @ ''_0'')))"
    by (auto simp: place_rsus_map)
  with l show ?thesis
    by (simp add: sub_element_def)
qed

lemma lanes_distinct:
  "distinct edges \<Longrightarrow> distinct (map (\<lambda>e. e @ ''_0'') (filter P edges))"
  by (simp add: distinct_map inj_on_def)

text \<open>
  Claim C8. The generator writes the file \<open>osm.add.xml\<close>. The edges it collected are
  without duplicates: the emergency-route edges of the first scan, or, when that scan finds
  none, of the 200 steps after it. The file holds one \<open>inductionLoop\<close> per collected
  edge whose lane \<open>edge_0\<close> is in the simulator's lane list, on that lane: the lanes of
  the elements are pairwise different, the identifiers are \<open>rsu_0\<close>, \<open>rsu_1\<close>, ... in
  order and pairwise different, and each position is \<open>max(1, min(length/2, length - 1))\<close>
  of its lane's length, which lies between 1 and the length minus 1 when the length is at
  least 2.
\<close>

theorem C8_rsu_file:
  "fst (generate_rsu advance s) = ''osm.add.xml''
   \<and> distinct (snd (find_emergency_edges advance s))
   \<and> fst (find_emergency_edges advance s)
       = (if emergency_route_edges s = {} then (advance ^^ 200) s else s)
   \<and> set (snd (find_emergency_edges advance s))
       = (if emergency_route_edges s = {}
          then (\<Union>i \<in> {1..200}. emergency_route_edges ((advance ^^ i) s))
          else emergency_route_edges s)
   \<and> map loop_lane (snd (generate_rsu advance s))
       = map (\<lambda>edge_id. edge_id @ ''_0'')
           (filter (\<lambda>edge_id. edge_id @ ''_0''
                      \<in> set (lane_id_list (fst (find_emergency_edges advance s))))
              (snd (find_emergency_edges advance s)))
   \<and> distinct (map loop_lane (snd (generate_rsu advance s)))
   \<and> map loop_id (snd (generate_rsu advance s))
       = map (\<lambda>i. ''rsu_'' @ str_nat i) [0..<length (snd (generate_rsu advance s))]
   \<and> distinct (map loop_id (snd (generate_rsu advance s)))
   \<and> (\<forall>l \<in> set (snd (generate_rsu advance s)).
         loop_pos l
           = max 1 (min (lane_length (fst (find_emergency_edges advance s)) (loop_lane l) / 2)
                        (lane_length (fst (find_emergency_edges advance s)) (loop_lane l) - 1))
         \<and> (2 \<le> lane_length (fst (find_emergency_edges advance s)) (loop_lane l) \<longrightarrow>
              1 \<le> loop_pos l
              \<and> loop_pos l \<le> lane_length (fst (find_emergency_edges advance s)) (loop_lane l) - 1))"
proof -
  let ?s1 = "fst (find_emergency_edges advance s)"
  let ?edges = "snd (find_emergency_edges advance s)"
  have gen: "generate_rsu advance s = (''osm.add.xml'', additional (place_rsus ?s1 ?edges))"
    by (simp add: generate_rsu_def case_prod_beta)
  have found: "distinct ?edges"
      "?s1 = (if emergency_route_edges s = {} then (advance ^^ 200) s else s)"
      "set ?edges = (if emergency_route_edges s = {}
          then (\<Union>i \<in> {1..200}. emergency_route_edges ((advance ^^ i) s))
          else emergency_route_edges s)"
    using find_emergency_edges_result [of advance s] by blast+
  have lanes: "map loop_lane (additional (place_rsus ?s1 ?edges))
       = map (\<lambda>edge_id. edge_id @ ''_0'')
           (filter (\<lambda>edge_id. edge_id @ ''_0'' \<in> set (lane_id_list ?s1)) ?edges)"
    by (simp add: additional_fields place_rsus_map comp_def)
  have lanes_d: "distinct (map loop_lane (additional (place_rsus ?s1 ?edges)))"
    unfolding lanes using found(1) by (rule lanes_distinct)
  have ids: "map loop_id (additional (place_rsus ?s1 ?edges))
       = map (\<lambda>i. ''rsu_'' @ str_nat i) [0..<length (additional (place_rsus ?s1 ?edges))]"
    by (simp only: additional_fields)
  have ids_d: "distinct (map loop_id (additional (place_rsus ?s1 ?edges)))"
    unfolding ids by (rule rsu_ids_distinct)
  have pos: "\<forall>l \<in> set (additional (place_rsus ?s1 ?edges)).
         loop_pos l = max 1 (min (lane_length ?s1 (loop_lane l) / 2) (lane_length ?s1 (loop_lane l) - 1))
         \<and> (2 \<le> lane_length ?s1 (loop_lane l) \<longrightarrow>
              1 \<le> loop_pos l \<and> loop_pos l \<le> lane_length ?s1 (loop_lane l) - 1)"
  proof
    fix l assume "l \<in> set (additional (place_rsus ?s1 ?edges))"
    then have "loop_pos l = rsu_pos (lane_length ?s1 (loop_lane l))"
      by (rule additional_pos)
    then show "loop_pos l = max 1 (min (lane_length ?s1 (loop_lane l) / 2) (lane_length ?s1 (loop_lane l) - 1))
         \<and> (2 \<le> lane_length ?s1 (loop_lane l) \<longrightarrow>
              1 \<le> loop_pos l \<and> loop_pos l \<le> lane_length ?s1 (loop_lane l) - 1)"
      using rsu_pos_bounds [of "lane_length ?s1 (loop_lane l)"] by (simp add: rsu_pos_def)
  qed
  show ?thesis
    unfolding gen fst_conv snd_conv
    using found lanes lanes_d ids ids_d pos by (intro conjI) (simp_all only:)
qed

theorem C8_rsu_file_witness:
  "generate_rsu frozen example_sim
     = (''osm.add.xml'',
        [\<lparr>loop_id = ''rsu_0'', loop_lane = ''e1_0'', loop_pos = 25, loop_freq = ''1'',
          loop_file = ''ev_detection_output.xml''\<rparr>])
   \<and> find_emergency_edges frozen example_sim = (example_sim, [''e2'', ''e1''])
   \<and> 2 \<le> lane_length example_sim ''e1_0''
   \<and> 1 \<le> loop_pos (hd (snd (generate_rsu frozen example_sim)))
   \<and> loop_pos (hd (snd (generate_rsu frozen example_sim))) \<le> lane_length example_sim ''e1_0'' - 1"
proof -
  have found: "find_emergency_edges frozen example_sim = (example_sim, [''e2'', ''e1''])"
    by (simp add: find_emergency_edges_def scan_routes_def add_route_def List.insert_def Let_def
          example_sim_def)
  have gen: "generate_rsu frozen example_sim
     = (''osm.add.xml'',
        [\<lparr>loop_id = ''rsu_0'', loop_lane = ''e1_0'', loop_pos = 25, loop_freq = ''1'',
          loop_file = ''ev_detection_output.xml''\<rparr>])"
    by (simp add: generate_rsu_def found place_rsus_def place_rsu_def additional_def
          sub_element_def rsu_pos_def Let_def str_nat.simps [of 0] enumerate_eq_zip)
       (simp add: example_sim_def)
  have len: "lane_length example_sim ''e1_0'' = 50"
    by (simp add: example_sim_def)
  from C8_rsu_file [of frozen example_sim] show ?thesis
    using gen found len by simp
qed

section \<open>The light loop within a turn and an iteration\<close>

lemma sent_in_append:
  "commands after = commands before @ xs \<Longrightarrow> sent_in before after = xs"
  by (simp add: sent_in_def)

lemma sent_in_trans:
  assumes "commands mid = commands before @ xs" and "commands after = commands mid @ ys"
  shows "sent_in before after = sent_in before mid @ sent_in mid after"
  using assms by (simp add: sent_in_def)

lemma printed_in_trans:
  assumes "printed mid = printed before @ xs" and "printed after = printed mid @ ys"
  shows "printed_in before after = printed_in before mid @ printed_in mid after"
  using assms by (simp add: printed_in_def)

text \<open>What one pass of the light loop's body sends and prints.\<close>

lemma main_tl_sent_in:
  "sent_in st (main_tl amb_id amb_edge tl_id st)
     = (if on_controlled_lanes amb_edge (controlled_lanes (sim st) tl_id)
        then if length (build_state amb_edge (controlled_lanes (sim st) tl_id) [])
                  = length (red_yellow_green_state (sim st) tl_id)
             then [SetRedYellowGreenState tl_id
                     (build_state amb_edge (controlled_lanes (sim st) tl_id) [])]
             else []
        else case original_tl_programs st tl_id of
               Some saved \<Rightarrow> [SetProgram tl_id saved]
             | None \<Rightarrow> [])"
  by (simp add: tl_defs sent_in_def split: option.splits)

lemma main_tl_printed_in:
  "printed_in st (main_tl amb_id amb_edge tl_id st)
     = (if on_controlled_lanes amb_edge (controlled_lanes (sim st) tl_id)
        then (if original_tl_programs st tl_id = None then [TakingControl amb_id tl_id] else [])
             @ (if length (build_state amb_edge (controlled_lanes (sim st) tl_id) [])
                    = length (red_yellow_green_state (sim st) tl_id)
                then [] else [StateLengthMismatch tl_id])
        else case original_tl_programs st tl_id of
               Some saved \<Rightarrow> [ReleasingControl amb_id tl_id]
             | None \<Rightarrow> [])"
  by (simp add: tl_defs printed_in_def split: option.splits)

lemma main_tl_printed_grows:
  "\<exists>ms. printed (main_tl amb_id amb_edge tl_id st) = printed st @ ms"
  by (simp add: tl_defs split: option.splits)

lemma main_tl_state_length:
  "length (red_yellow_green_state (sim (main_tl amb_id amb_edge tl_id st)) other)
     = length (red_yellow_green_state (sim st) other)"
  by (simp add: tl_defs split: option.splits)

lemma main_tl_state_other:
  "other \<noteq> tl_id \<Longrightarrow>
   red_yellow_green_state (sim (main_tl amb_id amb_edge tl_id st)) other
     = red_yellow_green_state (sim st) other"
  by (simp add: tl_defs split: option.splits)

lemma main_tl_program_other:
  "on_controlled_lanes amb_edge (controlled_lanes (sim st) tl_id) \<or> other \<noteq> tl_id \<Longrightarrow>
   trafficlight_program (sim (main_tl amb_id amb_edge tl_id st)) other
     = trafficlight_program (sim st) other"
  by (auto simp: tl_defs split: option.splits)

lemma fold_main_tl_state_length:
  "length (red_yellow_green_state (sim (fold (main_tl amb_id amb_edge) junctions st)) other)
     = length (red_yellow_green_state (sim st) other)"
  by (induction junctions arbitrary: st) (simp_all add: main_tl_state_length)

lemma fold_main_tl_printed_grows:
  "\<exists>ms. printed (fold (main_tl amb_id amb_edge) junctions st) = printed st @ ms"
proof (induction junctions arbitrary: st)
  case Nil
  then show ?case by simp
next
  case (Cons j js)
  obtain xs where "printed (main_tl amb_id amb_edge j st) = printed st @ xs"
    using main_tl_printed_grows by blast
  moreover obtain ys where "printed (fold (main_tl amb_id amb_edge) js (main_tl amb_id amb_edge j st))
      = printed (main_tl amb_id amb_edge j st) @ ys"
    using Cons.IH by blast
  ultimately show ?case by simp
qed

text \<open>The light loop of one ambulance: which overrides it sends and which warnings it prints.\<close>

lemma fold_main_tl_override:
  "SetRedYellowGreenState tl_id x \<in> set (sent_in st (fold (main_tl amb_id amb_edge) junctions st))
   \<longleftrightarrow> tl_id \<in> set junctions
       \<and> on_controlled_lanes amb_edge (controlled_lanes (sim st) tl_id)
       \<and> x = build_state amb_edge (controlled_lanes (sim st) tl_id) []
       \<and> length x = length (red_yellow_green_state (sim st) tl_id)"
proof (induction junctions arbitrary: st)
  case Nil
  then show ?case by (simp add: sent_in_def)
next
  case (Cons j js)
  let ?st1 = "main_tl amb_id amb_edge j st"
  obtain xs where xs: "commands ?st1 = commands st @ xs"
    using main_tl_sent by blast
  obtain ys where ys: "commands (fold (main_tl amb_id amb_edge) js ?st1) = commands ?st1 @ ys"
    using fold_main_tl_sent by blast
  have split: "sent_in st (fold (main_tl amb_id amb_edge) (j # js) st)
      = sent_in st ?st1 @ sent_in ?st1 (fold (main_tl amb_id amb_edge) js ?st1)"
    using sent_in_trans [OF xs ys] by simp
  have first: "SetRedYellowGreenState tl_id x \<in> set (sent_in st ?st1)
      \<longleftrightarrow> j = tl_id
          \<and> on_controlled_lanes amb_edge (controlled_lanes (sim st) tl_id)
          \<and> x = build_state amb_edge (controlled_lanes (sim st) tl_id) []
          \<and> length x = length (red_yellow_green_state (sim st) tl_id)"
    by (auto simp: main_tl_sent_in split: option.splits)
  have rest: "SetRedYellowGreenState tl_id x
        \<in> set (sent_in ?st1 (fold (main_tl amb_id amb_edge) js ?st1))
      \<longleftrightarrow> tl_id \<in> set js
          \<and> on_controlled_lanes amb_edge (controlled_lanes (sim st) tl_id)
          \<and> x = build_state amb_edge (controlled_lanes (sim st) tl_id) []
          \<and> length x = length (red_yellow_green_state (sim st) tl_id)"
    using Cons.IH [of ?st1] by (simp add: main_tl_state_length)
  show ?case
    unfolding split using first rest by auto
qed

lemma fold_main_tl_warning:
  "StateLengthMismatch tl_id \<in> set (printed_in st (fold (main_tl amb_id amb_edge) junctions st))
   \<longleftrightarrow> tl_id \<in> set junctions
       \<and> on_controlled_lanes amb_edge (controlled_lanes (sim st) tl_id)
       \<and> length (build_state amb_edge (controlled_lanes (sim st) tl_id) [])
           \<noteq> length (red_yellow_green_state (sim st) tl_id)"
proof (induction junctions arbitrary: st)
  case Nil
  then show ?case by (simp add: printed_in_def)
next
  case (Cons j js)
  let ?st1 = "main_tl amb_id amb_edge j st"
  obtain xs where xs: "printed ?st1 = printed st @ xs"
    using main_tl_printed_grows by blast
  obtain ys where ys: "printed (fold (main_tl amb_id amb_edge) js ?st1) = printed ?st1 @ ys"
    using fold_main_tl_printed_grows by blast
  have split: "printed_in st (fold (main_tl amb_id amb_edge) (j # js) st)
      = printed_in st ?st1 @ printed_in ?st1 (fold (main_tl amb_id amb_edge) js ?st1)"
    using printed_in_trans [OF xs ys] by simp
  have first: "StateLengthMismatch tl_id \<in> set (printed_in st ?st1)
      \<longleftrightarrow> j = tl_id
          \<and> on_controlled_lanes amb_edge (controlled_lanes (sim st) tl_id)
          \<and> length (build_state amb_edge (controlled_lanes (sim st) tl_id) [])
              \<noteq> length (red_yellow_green_state (sim st) tl_id)"
    by (auto simp: main_tl_printed_in split: option.splits)
  have rest: "StateLengthMismatch tl_id
        \<in> set (printed_in ?st1 (fold (main_tl amb_id amb_edge) js ?st1))
      \<longleftrightarrow> tl_id \<in> set js
          \<and> on_controlled_lanes amb_edge (controlled_lanes (sim st) tl_id)
          \<and> length (build_state amb_edge (controlled_lanes (sim st) tl_id) [])
              \<noteq> length (red_yellow_green_state (sim st) tl_id)"
    using Cons.IH [of ?st1] by (simp add: main_tl_state_length)
  show ?case
    unfolding split using first rest by auto
qed

text \<open>The light's state and saved program after the light loop.\<close>

lemma main_tl_state_self:
  "on_controlled_lanes amb_edge (controlled_lanes (sim st) tl_id) \<Longrightarrow>
   red_yellow_green_state (sim (main_tl amb_id amb_edge tl_id st)) tl_id
     = (if length (build_state amb_edge (controlled_lanes (sim st) tl_id) [])
             = length (red_yellow_green_state (sim st) tl_id)
        then build_state amb_edge (controlled_lanes (sim st) tl_id) []
        else red_yellow_green_state (sim st) tl_id)"
  by (simp add: tl_defs)

lemma fold_main_tl_state_untouched:
  "tl_id \<notin> set junctions \<Longrightarrow>
   red_yellow_green_state (sim (fold (main_tl amb_id amb_edge) junctions st)) tl_id
     = red_yellow_green_state (sim st) tl_id"
  by (induction junctions arbitrary: st) (simp_all add: main_tl_state_other)

lemma fold_main_tl_state:
  assumes "tl_id \<in> set junctions"
      and "on_controlled_lanes amb_edge (controlled_lanes (sim st) tl_id)"
  shows "red_yellow_green_state (sim (fold (main_tl amb_id amb_edge) junctions st)) tl_id
     = (if length (build_state amb_edge (controlled_lanes (sim st) tl_id) [])
             = length (red_yellow_green_state (sim st) tl_id)
        then build_state amb_edge (controlled_lanes (sim st) tl_id) []
        else red_yellow_green_state (sim st) tl_id)"
  using assms
proof (induction junctions arbitrary: st)
  case Nil
  then show ?case by simp
next
  case (Cons j js)
  let ?st1 = "main_tl amb_id amb_edge j st"
  let ?built = "build_state amb_edge (controlled_lanes (sim st) tl_id) []"
  have unroll: "fold (main_tl amb_id amb_edge) (j # js) st = fold (main_tl amb_id amb_edge) js ?st1"
    by simp
  have lanes: "controlled_lanes (sim ?st1) = controlled_lanes (sim st)"
    by simp
  have len: "length (red_yellow_green_state (sim ?st1) tl_id)
      = length (red_yellow_green_state (sim st) tl_id)"
    by (rule main_tl_state_length)
  have kept: "red_yellow_green_state (sim ?st1) tl_id = red_yellow_green_state (sim st) tl_id"
    if "length ?built \<noteq> length (red_yellow_green_state (sim st) tl_id)"
  proof (cases "j = tl_id")
    case True
    with that Cons.prems(2) show ?thesis
      by (simp add: main_tl_state_self)
  next
    case False
    then show ?thesis
      by (simp add: main_tl_state_other)
  qed
  show ?case
  proof (cases "tl_id \<in> set js")
    case True
    have zone: "on_controlled_lanes amb_edge (controlled_lanes (sim ?st1) tl_id)"
      using Cons.prems(2) by (simp only: lanes)
    show ?thesis
    proof (cases "length ?built = length (red_yellow_green_state (sim st) tl_id)")
      case eq: True
      from Cons.IH [OF True zone] show ?thesis
        unfolding unroll by (simp add: eq len)
    next
      case neq: False
      from Cons.IH [OF True zone] kept [OF neq] show ?thesis
        unfolding unroll by (simp add: neq len)
    qed
  next
    case False
    with Cons.prems(1) have j: "j = tl_id" by simp
    have "red_yellow_green_state (sim (fold (main_tl amb_id amb_edge) js ?st1)) tl_id
        = red_yellow_green_state (sim ?st1) tl_id"
      using False by (rule fold_main_tl_state_untouched)
    then show ?thesis
      unfolding unroll using Cons.prems(2) by (simp add: j main_tl_state_self)
  qed
qed


lemma fold_main_tl_entry_untouched:
  "tl_id \<notin> set junctions \<Longrightarrow>
   original_tl_programs (fold (main_tl amb_id amb_edge) junctions st) tl_id
     = original_tl_programs st tl_id"
  by (induction junctions arbitrary: st) (simp_all add: main_tl_entry_other)

lemma main_tl_saved_self:
  "on_controlled_lanes amb_edge (controlled_lanes (sim st) tl_id) \<Longrightarrow>
   original_tl_programs (main_tl amb_id amb_edge tl_id st) tl_id
     = Some (case original_tl_programs st tl_id of
               None \<Rightarrow> trafficlight_program (sim st) tl_id
             | Some saved \<Rightarrow> saved)"
  by (simp add: tl_defs split: option.splits)

lemma fold_main_tl_saved:
  assumes "tl_id \<in> set junctions"
      and "on_controlled_lanes amb_edge (controlled_lanes (sim st) tl_id)"
  shows "original_tl_programs (fold (main_tl amb_id amb_edge) junctions st) tl_id
     = Some (case original_tl_programs st tl_id of
               None \<Rightarrow> trafficlight_program (sim st) tl_id
             | Some saved \<Rightarrow> saved)"
  using assms
proof (induction junctions arbitrary: st)
  case Nil
  then show ?case by simp
next
  case (Cons j js)
  let ?st1 = "main_tl amb_id amb_edge j st"
  let ?entry = "Some (case original_tl_programs st tl_id of
                        None \<Rightarrow> trafficlight_program (sim st) tl_id
                      | Some saved \<Rightarrow> saved)"
  have unroll: "fold (main_tl amb_id amb_edge) (j # js) st = fold (main_tl amb_id amb_edge) js ?st1"
    by simp
  have zone: "on_controlled_lanes amb_edge (controlled_lanes (sim ?st1) tl_id)"
    using Cons.prems(2) by simp
  show ?case
  proof (cases "j = tl_id")
    case True
    have first: "original_tl_programs ?st1 tl_id = ?entry"
      unfolding True using Cons.prems(2) by (rule main_tl_saved_self)
    show ?thesis
    proof (cases "tl_id \<in> set js")
      case mem: True
      from Cons.IH [OF mem zone] show ?thesis
        unfolding unroll by (simp add: first)
    next
      case False
      then have "original_tl_programs (fold (main_tl amb_id amb_edge) js ?st1) tl_id
          = original_tl_programs ?st1 tl_id"
        by (rule fold_main_tl_entry_untouched)
      then show ?thesis
        unfolding unroll by (simp add: first)
    qed
  next
    case False
    with Cons.prems(1) have mem: "tl_id \<in> set js" by simp
    have "original_tl_programs ?st1 tl_id = original_tl_programs st tl_id"
      using False by (intro main_tl_entry_other) simp
    moreover have "trafficlight_program (sim ?st1) tl_id = trafficlight_program (sim st) tl_id"
      using False by (intro main_tl_program_other) simp
    ultimately show ?thesis
      using Cons.IH [OF mem zone] unfolding unroll by (simp split: option.splits)
  qed
qed

text \<open>The scan and the reaction to it: no light is addressed, no warning printed.\<close>

lemma main_scan_keeps:
  "sim (snd (main_scan amb_id amb_pos amb_edge amb_lane_index vehicles st)) = sim st"
  "original_tl_programs (snd (main_scan amb_id amb_pos amb_edge amb_lane_index vehicles st))
     = original_tl_programs st"
  by (simp_all add: main_scan_find print_def split: option.splits)

lemma main_scan_printed:
  "\<exists>ms. printed (snd (main_scan amb_id amb_pos amb_edge amb_lane_index vehicles st))
          = printed st @ ms \<and> StateLengthMismatch tl_id \<notin> set ms"
  by (simp add: main_scan_find print_def split: option.splits)

lemma try_lanes_keeps:
  "original_tl_programs (snd (try_lanes request amb_id options st)) = original_tl_programs st"
proof (induction options arbitrary: st)
  case Nil
  then show ?case by simp
next
  case (Cons new_lane options)
  obtain s1 exc where req: "request (sim st) amb_id new_lane 10 = (s1, exc)"
    by (cases "request (sim st) amb_id new_lane 10")
  show ?case
    using req by (cases exc) (simp_all add: changeLane_def print_def Cons.IH)
qed

lemma try_lanes_light_state:
  assumes "\<And>s v lane duration.
             red_yellow_green_state (fst (request s v lane duration)) = red_yellow_green_state s"
  shows "red_yellow_green_state (sim (snd (try_lanes request amb_id options st)))
     = red_yellow_green_state (sim st)"
proof (induction options arbitrary: st)
  case Nil
  then show ?case by simp
next
  case (Cons new_lane options)
  obtain s1 exc where req: "request (sim st) amb_id new_lane 10 = (s1, exc)"
    by (cases "request (sim st) amb_id new_lane 10")
  have kept: "red_yellow_green_state s1 = red_yellow_green_state (sim st)"
    using assms [of "sim st" amb_id new_lane 10] by (simp add: req)
  show ?case
    using req kept by (cases exc) (simp_all add: changeLane_def print_def Cons.IH)
qed

lemma try_lanes_printed:
  "\<exists>ms. printed (snd (try_lanes request amb_id options st)) = printed st @ ms
        \<and> StateLengthMismatch tl_id \<notin> set ms"
proof (induction options arbitrary: st)
  case Nil
  then show ?case by simp
next
  case (Cons new_lane options)
  obtain s1 exc where req: "request (sim st) amb_id new_lane 10 = (s1, exc)"
    by (cases "request (sim st) amb_id new_lane 10")
  let ?st1 = "st\<lparr>sim := s1, commands := commands st @ [ChangeLane amb_id new_lane 10]\<rparr>"
  show ?case
  proof (cases exc)
    case None
    obtain ms where "printed (snd (try_lanes request amb_id options ?st1)) = printed ?st1 @ ms"
        "StateLengthMismatch tl_id \<notin> set ms"
      using Cons.IH by blast
    then show ?thesis
      using req None by (simp add: changeLane_def print_def)
  next
    case (Some e)
    let ?st2 = "print (LaneChangeError amb_id new_lane e) ?st1"
    obtain ms where ms: "printed (snd (try_lanes request amb_id options ?st2)) = printed ?st2 @ ms"
        "StateLengthMismatch tl_id \<notin> set ms"
      using Cons.IH by blast
    have "printed (snd (try_lanes request amb_id (new_lane # options) st))
        = printed st @ LaneChangeError amb_id new_lane e # ms"
      using req Some ms(1) by (simp add: changeLane_def print_def)
    with ms(2) show ?thesis
      by (intro exI [of _ "LaneChangeError amb_id new_lane e # ms"]) simp
  qed
qed

lemma main_react_keeps:
  "original_tl_programs (main_react request amb_id amb_edge amb_lane_index scanned)
     = original_tl_programs (snd scanned)"
proof (cases scanned)
  case (Pair detected st)
  let ?opts = "lane_options amb_lane_index (edge_lane_number (sim st) amb_edge)"
  obtain changed st1 where tried: "try_lanes request amb_id ?opts st = (changed, st1)"
    by (cases "try_lanes request amb_id ?opts st")
  have "original_tl_programs st1 = original_tl_programs st"
    using try_lanes_keeps [of request amb_id ?opts st] by (simp add: tried)
  then show ?thesis
    using Pair tried by (simp add: main_react_def print_def)
qed

lemma main_react_light_state:
  assumes "\<And>s v lane duration.
             red_yellow_green_state (fst (request s v lane duration)) = red_yellow_green_state s"
  shows "red_yellow_green_state (sim (main_react request amb_id amb_edge amb_lane_index scanned))
     = red_yellow_green_state (sim (snd scanned))"
proof (cases scanned)
  case (Pair detected st)
  let ?opts = "lane_options amb_lane_index (edge_lane_number (sim st) amb_edge)"
  obtain changed st1 where tried: "try_lanes request amb_id ?opts st = (changed, st1)"
    by (cases "try_lanes request amb_id ?opts st")
  have "red_yellow_green_state (sim st1) = red_yellow_green_state (sim st)"
    using try_lanes_light_state [of request amb_id ?opts st, OF assms] by (simp add: tried)
  then show ?thesis
    using Pair tried by (simp add: main_react_def print_def)
qed

lemma main_react_printed:
  "\<exists>ms. printed (main_react request amb_id amb_edge amb_lane_index scanned)
          = printed (snd scanned) @ ms \<and> StateLengthMismatch tl_id \<notin> set ms"
proof (cases scanned)
  case (Pair detected st)
  let ?opts = "lane_options amb_lane_index (edge_lane_number (sim st) amb_edge)"
  obtain changed st1 where tried: "try_lanes request amb_id ?opts st = (changed, st1)"
    by (cases "try_lanes request amb_id ?opts st")
  obtain ms where ms: "printed st1 = printed st @ ms" "StateLengthMismatch tl_id \<notin> set ms"
    using try_lanes_printed [of request amb_id ?opts st tl_id] by (auto simp: tried)
  show ?thesis
  proof (cases detected)
    case True
    have "printed (main_react request amb_id amb_edge amb_lane_index scanned)
        = printed st @ ms @ (if changed then [] else [OthersStopping amb_id])"
      using Pair True tried ms(1) by (simp add: main_react_def print_def)
    with ms(2) show ?thesis
      using Pair by (intro exI [of _ "ms @ (if changed then [] else [OthersStopping amb_id])"]) simp
  next
    case False
    then show ?thesis using Pair by (simp add: main_react_def print_def)
  qed
qed

lemma main_react_lanes:
  "\<exists>lanes. commands (main_react request amb_id amb_edge amb_lane_index scanned)
          = commands (snd scanned) @ map (\<lambda>lane. ChangeLane amb_id lane 10) lanes"
proof (cases scanned)
  case (Pair detected st)
  let ?opts = "lane_options amb_lane_index (edge_lane_number (sim st) amb_edge)"
  show ?thesis
  proof (cases detected)
    case True
    have "commands (main_react request amb_id amb_edge amb_lane_index scanned)
          = commands (snd (try_lanes request amb_id ?opts st))"
      using True Pair by (simp add: main_react_def print_def split: prod.splits)
    then show ?thesis
      using Pair
      by (intro exI [of _ "attempts request amb_id ?opts (sim st)"])
         (simp add: commands_try_lanes)
  next
    case False
    then show ?thesis
      using Pair by (intro exI [of _ "[]"]) (simp add: main_react_def print_def)
  qed
qed

text \<open>One ambulance's turn in the main script.\<close>

lemma main_ambulance_unfold:
  "main_ambulance request vehicles amb_id st
     = main_react request amb_id (vehicle_road_id (sim st) amb_id)
         (vehicle_lane_index (sim st) amb_id)
         (main_scan amb_id (vehicle_position (sim st) amb_id) (vehicle_road_id (sim st) amb_id)
            (vehicle_lane_index (sim st) amb_id) vehicles
            (fold (main_tl amb_id (vehicle_road_id (sim st) amb_id)) (trafficlight_id_list (sim st))
               (setSpeedMode amb_id 0 (setColor amb_id (255, 0, 0, 255) st))))"
  by (simp add: main_ambulance_def Let_def setColor_def setSpeedMode_def)

lemma marked_keeps:
  "controlled_lanes (sim (setSpeedMode amb_id m (setColor amb_id c st))) = controlled_lanes (sim st)"
  "red_yellow_green_state (sim (setSpeedMode amb_id m (setColor amb_id c st)))
     = red_yellow_green_state (sim st)"
  "trafficlight_program (sim (setSpeedMode amb_id m (setColor amb_id c st)))
     = trafficlight_program (sim st)"
  "original_tl_programs (setSpeedMode amb_id m (setColor amb_id c st)) = original_tl_programs st"
  "commands (setSpeedMode amb_id m (setColor amb_id c st))
     = commands st @ [SetColor amb_id c, SetSpeedMode amb_id m]"
  by (simp_all add: setColor_def setSpeedMode_def)

lemma main_marked_printed:
  "printed (setSpeedMode amb_id m (setColor amb_id c st)) = printed st"
  by (simp add: setColor_def setSpeedMode_def)

lemma main_ambulance_override:
  "SetRedYellowGreenState tl_id x \<in> set (sent_in st (main_ambulance request vehicles amb_id st))
   \<longleftrightarrow> tl_id \<in> set (trafficlight_id_list (sim st))
       \<and> in_zone (sim st) amb_id tl_id
       \<and> x = signal_string (sim st) amb_id tl_id
       \<and> length x = length (red_yellow_green_state (sim st) tl_id)"
proof -
  let ?e = "vehicle_road_id (sim st) amb_id"
  let ?st2 = "setSpeedMode amb_id 0 (setColor amb_id (255, 0, 0, 255) st)"
  let ?st3 = "fold (main_tl amb_id ?e) (trafficlight_id_list (sim st)) ?st2"
  let ?scan = "main_scan amb_id (vehicle_position (sim st) amb_id) ?e
                 (vehicle_lane_index (sim st) amb_id) vehicles ?st3"
  obtain xs where xs: "commands ?st3 = commands ?st2 @ xs"
    using fold_main_tl_sent by blast
  obtain lanes where lanes: "commands (main_react request amb_id ?e
        (vehicle_lane_index (sim st) amb_id) ?scan)
      = commands (snd ?scan) @ map (\<lambda>lane. ChangeLane amb_id lane 10) lanes"
    using main_react_lanes by blast
  have lights: "sent_in ?st2 ?st3 = xs"
    using xs by (rule sent_in_append)
  have "commands (main_ambulance request vehicles amb_id st)
      = commands st @ ([SetColor amb_id (255, 0, 0, 255), SetSpeedMode amb_id 0] @ xs
          @ map (\<lambda>lane. ChangeLane amb_id lane 10) lanes)"
    unfolding main_ambulance_unfold lanes main_scan_snd(1) xs marked_keeps(5) by simp
  then have "sent_in st (main_ambulance request vehicles amb_id st)
      = [SetColor amb_id (255, 0, 0, 255), SetSpeedMode amb_id 0] @ xs
          @ map (\<lambda>lane. ChangeLane amb_id lane 10) lanes"
    by (rule sent_in_append)
  then have "SetRedYellowGreenState tl_id x \<in> set (sent_in st (main_ambulance request vehicles amb_id st))
      \<longleftrightarrow> SetRedYellowGreenState tl_id x \<in> set (sent_in ?st2 ?st3)"
    unfolding lights by auto
  also have "\<dots> \<longleftrightarrow> tl_id \<in> set (trafficlight_id_list (sim st))
       \<and> on_controlled_lanes ?e (controlled_lanes (sim ?st2) tl_id)
       \<and> x = build_state ?e (controlled_lanes (sim ?st2) tl_id) []
       \<and> length x = length (red_yellow_green_state (sim ?st2) tl_id)"
    by (rule fold_main_tl_override)
  finally show ?thesis
    by (simp only: marked_keeps in_zone_def signal_string_def)
qed

lemma main_ambulance_warning:
  "StateLengthMismatch tl_id \<in> set (printed_in st (main_ambulance request vehicles amb_id st))
   \<longleftrightarrow> tl_id \<in> set (trafficlight_id_list (sim st))
       \<and> in_zone (sim st) amb_id tl_id
       \<and> length (signal_string (sim st) amb_id tl_id)
           \<noteq> length (red_yellow_green_state (sim st) tl_id)"
proof -
  let ?e = "vehicle_road_id (sim st) amb_id"
  let ?st2 = "setSpeedMode amb_id 0 (setColor amb_id (255, 0, 0, 255) st)"
  let ?st3 = "fold (main_tl amb_id ?e) (trafficlight_id_list (sim st)) ?st2"
  let ?scan = "main_scan amb_id (vehicle_position (sim st) amb_id) ?e
                 (vehicle_lane_index (sim st) amb_id) vehicles ?st3"
  obtain xs where xs: "printed ?st3 = printed ?st2 @ xs"
    using fold_main_tl_printed_grows by blast
  obtain ys where ys: "printed (snd ?scan) = printed ?st3 @ ys"
      "StateLengthMismatch tl_id \<notin> set ys"
    using main_scan_printed by blast
  obtain zs where zs: "printed (main_react request amb_id ?e
        (vehicle_lane_index (sim st) amb_id) ?scan) = printed (snd ?scan) @ zs"
      "StateLengthMismatch tl_id \<notin> set zs"
    using main_react_printed by blast
  have lights: "printed_in ?st2 ?st3 = xs"
    using xs by (simp add: printed_in_def)
  have "printed (main_ambulance request vehicles amb_id st) = printed st @ (xs @ ys @ zs)"
    unfolding main_ambulance_unfold zs(1) ys(1) xs main_marked_printed by simp
  then have "printed_in st (main_ambulance request vehicles amb_id st) = xs @ ys @ zs"
    by (simp add: printed_in_def)
  then have "StateLengthMismatch tl_id \<in> set (printed_in st (main_ambulance request vehicles amb_id st))
      \<longleftrightarrow> StateLengthMismatch tl_id \<in> set (printed_in ?st2 ?st3)"
    unfolding lights using ys(2) zs(2) by auto
  also have "\<dots> \<longleftrightarrow> tl_id \<in> set (trafficlight_id_list (sim st))
       \<and> on_controlled_lanes ?e (controlled_lanes (sim ?st2) tl_id)
       \<and> length (build_state ?e (controlled_lanes (sim ?st2) tl_id) [])
           \<noteq> length (red_yellow_green_state (sim ?st2) tl_id)"
    by (rule fold_main_tl_warning)
  finally show ?thesis
    by (simp only: marked_keeps in_zone_def signal_string_def)
qed

lemma main_ambulance_light_state:
  assumes "\<And>s v lane duration.
             red_yellow_green_state (fst (request s v lane duration)) = red_yellow_green_state s"
      and "tl_id \<in> set (trafficlight_id_list (sim st))"
      and "in_zone (sim st) amb_id tl_id"
  shows "red_yellow_green_state (sim (main_ambulance request vehicles amb_id st)) tl_id
     = (if length (signal_string (sim st) amb_id tl_id)
             = length (red_yellow_green_state (sim st) tl_id)
        then signal_string (sim st) amb_id tl_id
        else red_yellow_green_state (sim st) tl_id)"
proof -
  let ?e = "vehicle_road_id (sim st) amb_id"
  let ?st2 = "setSpeedMode amb_id 0 (setColor amb_id (255, 0, 0, 255) st)"
  have zone: "on_controlled_lanes ?e (controlled_lanes (sim ?st2) tl_id)"
    using assms(3) by (simp only: marked_keeps in_zone_def)
  have "red_yellow_green_state (sim (main_ambulance request vehicles amb_id st))
      = red_yellow_green_state
          (sim (fold (main_tl amb_id ?e) (trafficlight_id_list (sim st)) ?st2))"
    unfolding main_ambulance_unfold
    by (simp only: main_react_light_state [OF assms(1)] main_scan_keeps)
  then show ?thesis
    using fold_main_tl_state [OF assms(2) zone, of amb_id]
    by (simp only: marked_keeps signal_string_def)
qed

lemma main_ambulance_saved:
  assumes "tl_id \<in> set (trafficlight_id_list (sim st))"
      and "in_zone (sim st) amb_id tl_id"
  shows "original_tl_programs (main_ambulance request vehicles amb_id st) tl_id
     = Some (case original_tl_programs st tl_id of
               None \<Rightarrow> trafficlight_program (sim st) tl_id
             | Some saved \<Rightarrow> saved)"
proof -
  let ?e = "vehicle_road_id (sim st) amb_id"
  let ?st2 = "setSpeedMode amb_id 0 (setColor amb_id (255, 0, 0, 255) st)"
  have zone: "on_controlled_lanes ?e (controlled_lanes (sim ?st2) tl_id)"
    using assms(2) by (simp only: marked_keeps in_zone_def)
  have "original_tl_programs (main_ambulance request vehicles amb_id st)
      = original_tl_programs (fold (main_tl amb_id ?e) (trafficlight_id_list (sim st)) ?st2)"
    unfolding main_ambulance_unfold by (simp only: main_react_keeps main_scan_keeps)
  then show ?thesis
    using fold_main_tl_saved [OF assms(1) zone, of amb_id]
    by (simp only: marked_keeps)
qed


text \<open>The light loop of the dashboard.\<close>

lemma dash_tl_keeps:
  "controlled_lanes (sim (snd (dash_tl amb_edge tl_id acc))) = controlled_lanes (sim (snd acc))"
  "trafficlight_id_list (sim (snd (dash_tl amb_edge tl_id acc))) = trafficlight_id_list (sim (snd acc))"
  "vehicle_road_id (sim (snd (dash_tl amb_edge tl_id acc))) = vehicle_road_id (sim (snd acc))"
  "trafficlight_program (sim (snd (dash_tl amb_edge tl_id acc))) = trafficlight_program (sim (snd acc))"
  "length (red_yellow_green_state (sim (snd (dash_tl amb_edge tl_id acc))) other)
     = length (red_yellow_green_state (sim (snd acc)) other)"
  by (cases acc; simp add: tl_defs)+

lemma fold_dash_tl_keeps:
  "controlled_lanes (sim (snd (fold (dash_tl amb_edge) junctions acc)))
     = controlled_lanes (sim (snd acc))"
  "trafficlight_id_list (sim (snd (fold (dash_tl amb_edge) junctions acc)))
     = trafficlight_id_list (sim (snd acc))"
  "vehicle_road_id (sim (snd (fold (dash_tl amb_edge) junctions acc)))
     = vehicle_road_id (sim (snd acc))"
  "trafficlight_program (sim (snd (fold (dash_tl amb_edge) junctions acc)))
     = trafficlight_program (sim (snd acc))"
  "length (red_yellow_green_state (sim (snd (fold (dash_tl amb_edge) junctions acc))) other)
     = length (red_yellow_green_state (sim (snd acc)) other)"
  by (induction junctions arbitrary: acc; simp add: dash_tl_keeps)+

lemma dash_tl_sent_in:
  "sent_in (snd acc) (snd (dash_tl amb_edge tl_id acc))
     = (if on_controlled_lanes amb_edge (controlled_lanes (sim (snd acc)) tl_id)
           \<and> length (build_state amb_edge (controlled_lanes (sim (snd acc)) tl_id) [])
               = length (red_yellow_green_state (sim (snd acc)) tl_id)
        then [SetRedYellowGreenState tl_id
                (build_state amb_edge (controlled_lanes (sim (snd acc)) tl_id) [])]
        else [])"
  by (cases acc) (simp add: tl_defs sent_in_def)

lemma dash_tl_state_other:
  "other \<noteq> tl_id \<Longrightarrow>
   red_yellow_green_state (sim (snd (dash_tl amb_edge tl_id acc))) other
     = red_yellow_green_state (sim (snd acc)) other"
  by (cases acc) (simp add: tl_defs)

lemma dash_tl_state_self:
  "on_controlled_lanes amb_edge (controlled_lanes (sim (snd acc)) tl_id) \<Longrightarrow>
   red_yellow_green_state (sim (snd (dash_tl amb_edge tl_id acc))) tl_id
     = (if length (build_state amb_edge (controlled_lanes (sim (snd acc)) tl_id) [])
             = length (red_yellow_green_state (sim (snd acc)) tl_id)
        then build_state amb_edge (controlled_lanes (sim (snd acc)) tl_id) []
        else red_yellow_green_state (sim (snd acc)) tl_id)"
  by (cases acc) (simp add: tl_defs)

lemma dash_tl_entry_other:
  "other \<noteq> tl_id \<Longrightarrow>
   original_tl_programs (snd (dash_tl amb_edge tl_id acc)) other
     = original_tl_programs (snd acc) other"
  by (cases acc) (simp add: tl_defs)

lemma dash_tl_saved_self:
  "on_controlled_lanes amb_edge (controlled_lanes (sim (snd acc)) tl_id) \<Longrightarrow>
   original_tl_programs (snd (dash_tl amb_edge tl_id acc)) tl_id
     = Some (case original_tl_programs (snd acc) tl_id of
               None \<Rightarrow> trafficlight_program (sim (snd acc)) tl_id
             | Some saved \<Rightarrow> saved)"
  by (cases acc) (simp add: tl_defs split: option.splits)

lemma fold_dash_tl_override:
  "SetRedYellowGreenState tl_id x
     \<in> set (sent_in (snd acc) (snd (fold (dash_tl amb_edge) junctions acc)))
   \<longleftrightarrow> tl_id \<in> set junctions
       \<and> on_controlled_lanes amb_edge (controlled_lanes (sim (snd acc)) tl_id)
       \<and> x = build_state amb_edge (controlled_lanes (sim (snd acc)) tl_id) []
       \<and> length x = length (red_yellow_green_state (sim (snd acc)) tl_id)"
proof (induction junctions arbitrary: acc)
  case Nil
  then show ?case by (simp add: sent_in_def)
next
  case (Cons j js)
  let ?acc1 = "dash_tl amb_edge j acc"
  obtain xs where xs: "commands (snd ?acc1) = commands (snd acc) @ xs"
    using dash_tl_sent by blast
  obtain ys where ys: "commands (snd (fold (dash_tl amb_edge) js ?acc1)) = commands (snd ?acc1) @ ys"
    using fold_dash_tl_sent by blast
  have split: "sent_in (snd acc) (snd (fold (dash_tl amb_edge) (j # js) acc))
      = sent_in (snd acc) (snd ?acc1) @ sent_in (snd ?acc1) (snd (fold (dash_tl amb_edge) js ?acc1))"
    using sent_in_trans [OF xs ys] by simp
  have first: "SetRedYellowGreenState tl_id x \<in> set (sent_in (snd acc) (snd ?acc1))
      \<longleftrightarrow> j = tl_id
          \<and> on_controlled_lanes amb_edge (controlled_lanes (sim (snd acc)) tl_id)
          \<and> x = build_state amb_edge (controlled_lanes (sim (snd acc)) tl_id) []
          \<and> length x = length (red_yellow_green_state (sim (snd acc)) tl_id)"
    by (auto simp: dash_tl_sent_in)
  have rest: "SetRedYellowGreenState tl_id x
        \<in> set (sent_in (snd ?acc1) (snd (fold (dash_tl amb_edge) js ?acc1)))
      \<longleftrightarrow> tl_id \<in> set js
          \<and> on_controlled_lanes amb_edge (controlled_lanes (sim (snd acc)) tl_id)
          \<and> x = build_state amb_edge (controlled_lanes (sim (snd acc)) tl_id) []
          \<and> length x = length (red_yellow_green_state (sim (snd acc)) tl_id)"
    using Cons.IH [of ?acc1] by (simp add: dash_tl_keeps)
  show ?case
    unfolding split using first rest by auto
qed

lemma fold_dash_tl_state_untouched:
  "tl_id \<notin> set junctions \<Longrightarrow>
   red_yellow_green_state (sim (snd (fold (dash_tl amb_edge) junctions acc))) tl_id
     = red_yellow_green_state (sim (snd acc)) tl_id"
  by (induction junctions arbitrary: acc) (simp_all add: dash_tl_state_other)

lemma fold_dash_tl_entry_untouched:
  "tl_id \<notin> set junctions \<Longrightarrow>
   original_tl_programs (snd (fold (dash_tl amb_edge) junctions acc)) tl_id
     = original_tl_programs (snd acc) tl_id"
  by (induction junctions arbitrary: acc) (simp_all add: dash_tl_entry_other)

lemma fold_dash_tl_state:
  assumes "tl_id \<in> set junctions"
      and "on_controlled_lanes amb_edge (controlled_lanes (sim (snd acc)) tl_id)"
  shows "red_yellow_green_state (sim (snd (fold (dash_tl amb_edge) junctions acc))) tl_id
     = (if length (build_state amb_edge (controlled_lanes (sim (snd acc)) tl_id) [])
             = length (red_yellow_green_state (sim (snd acc)) tl_id)
        then build_state amb_edge (controlled_lanes (sim (snd acc)) tl_id) []
        else red_yellow_green_state (sim (snd acc)) tl_id)"
  using assms
proof (induction junctions arbitrary: acc)
  case Nil
  then show ?case by simp
next
  case (Cons j js)
  let ?acc1 = "dash_tl amb_edge j acc"
  let ?built = "build_state amb_edge (controlled_lanes (sim (snd acc)) tl_id) []"
  have unroll: "fold (dash_tl amb_edge) (j # js) acc = fold (dash_tl amb_edge) js ?acc1"
    by simp
  have lanes: "controlled_lanes (sim (snd ?acc1)) = controlled_lanes (sim (snd acc))"
    by (rule dash_tl_keeps)
  have len: "length (red_yellow_green_state (sim (snd ?acc1)) tl_id)
      = length (red_yellow_green_state (sim (snd acc)) tl_id)"
    by (rule dash_tl_keeps)
  have kept: "red_yellow_green_state (sim (snd ?acc1)) tl_id
      = red_yellow_green_state (sim (snd acc)) tl_id"
    if "length ?built \<noteq> length (red_yellow_green_state (sim (snd acc)) tl_id)"
  proof (cases "j = tl_id")
    case True
    with that Cons.prems(2) show ?thesis
      by (simp add: dash_tl_state_self)
  next
    case False
    then show ?thesis
      by (simp add: dash_tl_state_other)
  qed
  show ?case
  proof (cases "tl_id \<in> set js")
    case True
    have zone: "on_controlled_lanes amb_edge (controlled_lanes (sim (snd ?acc1)) tl_id)"
      using Cons.prems(2) by (simp only: lanes)
    show ?thesis
    proof (cases "length ?built = length (red_yellow_green_state (sim (snd acc)) tl_id)")
      case eq: True
      from Cons.IH [OF True zone] show ?thesis
        unfolding unroll by (simp add: eq len lanes)
    next
      case neq: False
      from Cons.IH [OF True zone] kept [OF neq] show ?thesis
        unfolding unroll by (simp add: neq len lanes)
    qed
  next
    case False
    with Cons.prems(1) have j: "j = tl_id" by simp
    have "red_yellow_green_state (sim (snd (fold (dash_tl amb_edge) js ?acc1))) tl_id
        = red_yellow_green_state (sim (snd ?acc1)) tl_id"
      using False by (rule fold_dash_tl_state_untouched)
    then show ?thesis
      unfolding unroll using Cons.prems(2) by (simp add: j dash_tl_state_self)
  qed
qed

lemma fold_dash_tl_saved:
  assumes "tl_id \<in> set junctions"
      and "on_controlled_lanes amb_edge (controlled_lanes (sim (snd acc)) tl_id)"
  shows "original_tl_programs (snd (fold (dash_tl amb_edge) junctions acc)) tl_id
     = Some (case original_tl_programs (snd acc) tl_id of
               None \<Rightarrow> trafficlight_program (sim (snd acc)) tl_id
             | Some saved \<Rightarrow> saved)"
  using assms
proof (induction junctions arbitrary: acc)
  case Nil
  then show ?case by simp
next
  case (Cons j js)
  let ?acc1 = "dash_tl amb_edge j acc"
  let ?entry = "Some (case original_tl_programs (snd acc) tl_id of
                        None \<Rightarrow> trafficlight_program (sim (snd acc)) tl_id
                      | Some saved \<Rightarrow> saved)"
  have unroll: "fold (dash_tl amb_edge) (j # js) acc = fold (dash_tl amb_edge) js ?acc1"
    by simp
  have zone: "on_controlled_lanes amb_edge (controlled_lanes (sim (snd ?acc1)) tl_id)"
    using Cons.prems(2) by (simp add: dash_tl_keeps)
  show ?case
  proof (cases "j = tl_id")
    case True
    have first: "original_tl_programs (snd ?acc1) tl_id = ?entry"
      unfolding True using Cons.prems(2) by (rule dash_tl_saved_self)
    show ?thesis
    proof (cases "tl_id \<in> set js")
      case mem: True
      from Cons.IH [OF mem zone] show ?thesis
        unfolding unroll by (simp add: first)
    next
      case False
      then have "original_tl_programs (snd (fold (dash_tl amb_edge) js ?acc1)) tl_id
          = original_tl_programs (snd ?acc1) tl_id"
        by (rule fold_dash_tl_entry_untouched)
      then show ?thesis
        unfolding unroll by (simp add: first)
    qed
  next
    case False
    with Cons.prems(1) have mem: "tl_id \<in> set js" by simp
    have "original_tl_programs (snd ?acc1) tl_id = original_tl_programs (snd acc) tl_id"
      using False by (intro dash_tl_entry_other) simp
    then show ?thesis
      using Cons.IH [OF mem zone] unfolding unroll
      by (simp add: dash_tl_keeps split: option.splits)
  qed
qed

text \<open>One ambulance's turn in the dashboard.\<close>

lemma dash_ambulance_unfold:
  "\<exists>amb_speed alerted controlled.
     snd (snd (dash_ambulance vehicles amb_id acc))
       = append_logs amb_speed alerted controlled
           (snd (fold (dash_tl (vehicle_road_id (sim (snd (snd acc))) amb_id))
                   (trafficlight_id_list (sim (snd (snd acc))))
                   (0, setSpeedMode amb_id 0 (setColor amb_id (255, 0, 0, 255) (snd (snd acc))))))"
proof -
  obtain alerted controlled st where acc: "acc = (alerted, controlled, st)"
    by (cases acc) auto
  show ?thesis
    unfolding acc
    by (simp add: dash_ambulance_def Let_def case_prod_beta setColor_def setSpeedMode_def) blast
qed

lemma append_logs_keeps:
  "sim (append_logs amb_speed alerted controlled st) = sim st"
  "commands (append_logs amb_speed alerted controlled st) = commands st"
  "original_tl_programs (append_logs amb_speed alerted controlled st) = original_tl_programs st"
  by (simp_all add: append_logs_def)

lemma dash_ambulance_override:
  "SetRedYellowGreenState tl_id x
     \<in> set (sent_in (snd (snd acc)) (snd (snd (dash_ambulance vehicles amb_id acc))))
   \<longleftrightarrow> tl_id \<in> set (trafficlight_id_list (sim (snd (snd acc))))
       \<and> in_zone (sim (snd (snd acc))) amb_id tl_id
       \<and> x = signal_string (sim (snd (snd acc))) amb_id tl_id
       \<and> length x = length (red_yellow_green_state (sim (snd (snd acc))) tl_id)"
proof -
  let ?st = "snd (snd acc)"
  let ?e = "vehicle_road_id (sim ?st) amb_id"
  let ?st2 = "setSpeedMode amb_id 0 (setColor amb_id (255, 0, 0, 255) ?st)"
  let ?lights = "fold (dash_tl ?e) (trafficlight_id_list (sim ?st)) (0 :: nat, ?st2)"
  obtain amb_speed alerted controlled where result:
    "snd (snd (dash_ambulance vehicles amb_id acc))
       = append_logs amb_speed alerted controlled (snd ?lights)"
    using dash_ambulance_unfold by blast
  obtain xs where xs: "commands (snd ?lights) = commands (snd (0 :: nat, ?st2)) @ xs"
    using fold_dash_tl_sent by blast
  have lights: "sent_in (snd (0 :: nat, ?st2)) (snd ?lights) = xs"
    using xs by (rule sent_in_append)
  have "commands (snd (snd (dash_ambulance vehicles amb_id acc)))
      = commands ?st @ ([SetColor amb_id (255, 0, 0, 255), SetSpeedMode amb_id 0] @ xs)"
    unfolding result append_logs_keeps xs by (simp add: marked_keeps)
  then have "sent_in ?st (snd (snd (dash_ambulance vehicles amb_id acc)))
      = [SetColor amb_id (255, 0, 0, 255), SetSpeedMode amb_id 0] @ xs"
    by (rule sent_in_append)
  then have "SetRedYellowGreenState tl_id x
        \<in> set (sent_in ?st (snd (snd (dash_ambulance vehicles amb_id acc))))
      \<longleftrightarrow> SetRedYellowGreenState tl_id x \<in> set (sent_in (snd (0 :: nat, ?st2)) (snd ?lights))"
    unfolding lights by auto
  also have "\<dots> \<longleftrightarrow> tl_id \<in> set (trafficlight_id_list (sim ?st))
       \<and> on_controlled_lanes ?e (controlled_lanes (sim (snd (0 :: nat, ?st2))) tl_id)
       \<and> x = build_state ?e (controlled_lanes (sim (snd (0 :: nat, ?st2))) tl_id) []
       \<and> length x = length (red_yellow_green_state (sim (snd (0 :: nat, ?st2))) tl_id)"
    by (rule fold_dash_tl_override)
  finally show ?thesis
    by (simp only: snd_conv marked_keeps in_zone_def signal_string_def)
qed

lemma dash_ambulance_light_state:
  assumes "tl_id \<in> set (trafficlight_id_list (sim (snd (snd acc))))"
      and "in_zone (sim (snd (snd acc))) amb_id tl_id"
  shows "red_yellow_green_state (sim (snd (snd (dash_ambulance vehicles amb_id acc)))) tl_id
     = (if length (signal_string (sim (snd (snd acc))) amb_id tl_id)
             = length (red_yellow_green_state (sim (snd (snd acc))) tl_id)
        then signal_string (sim (snd (snd acc))) amb_id tl_id
        else red_yellow_green_state (sim (snd (snd acc))) tl_id)"
proof -
  let ?st = "snd (snd acc)"
  let ?e = "vehicle_road_id (sim ?st) amb_id"
  let ?st2 = "setSpeedMode amb_id 0 (setColor amb_id (255, 0, 0, 255) ?st)"
  let ?lights = "fold (dash_tl ?e) (trafficlight_id_list (sim ?st)) (0 :: nat, ?st2)"
  obtain amb_speed alerted controlled where result:
    "snd (snd (dash_ambulance vehicles amb_id acc))
       = append_logs amb_speed alerted controlled (snd ?lights)"
    using dash_ambulance_unfold by blast
  have zone: "on_controlled_lanes ?e (controlled_lanes (sim (snd (0 :: nat, ?st2))) tl_id)"
    using assms(2) by (simp only: snd_conv marked_keeps in_zone_def)
  show ?thesis
    unfolding result append_logs_keeps
    using fold_dash_tl_state [OF assms(1) zone]
    by (simp only: snd_conv marked_keeps signal_string_def)
qed

lemma dash_ambulance_saved:
  assumes "tl_id \<in> set (trafficlight_id_list (sim (snd (snd acc))))"
      and "in_zone (sim (snd (snd acc))) amb_id tl_id"
  shows "original_tl_programs (snd (snd (dash_ambulance vehicles amb_id acc))) tl_id
     = Some (case original_tl_programs (snd (snd acc)) tl_id of
               None \<Rightarrow> trafficlight_program (sim (snd (snd acc))) tl_id
             | Some saved \<Rightarrow> saved)"
proof -
  let ?st = "snd (snd acc)"
  let ?e = "vehicle_road_id (sim ?st) amb_id"
  let ?st2 = "setSpeedMode amb_id 0 (setColor amb_id (255, 0, 0, 255) ?st)"
  let ?lights = "fold (dash_tl ?e) (trafficlight_id_list (sim ?st)) (0 :: nat, ?st2)"
  obtain amb_speed alerted controlled where result:
    "snd (snd (dash_ambulance vehicles amb_id acc))
       = append_logs amb_speed alerted controlled (snd ?lights)"
    using dash_ambulance_unfold by blast
  have zone: "on_controlled_lanes ?e (controlled_lanes (sim (snd (0 :: nat, ?st2))) tl_id)"
    using assms(2) by (simp only: snd_conv marked_keeps in_zone_def)
  show ?thesis
    unfolding result append_logs_keeps
    using fold_dash_tl_saved [OF assms(1) zone]
    by (simp only: snd_conv marked_keeps)
qed

lemma marked_keeps_more:
  "trafficlight_id_list (sim (setSpeedMode amb_id m (setColor amb_id c st)))
     = trafficlight_id_list (sim st)"
  "vehicle_road_id (sim (setSpeedMode amb_id m (setColor amb_id c st))) = vehicle_road_id (sim st)"
  by (simp_all add: setColor_def setSpeedMode_def)

lemma dash_ambulance_keeps:
  "controlled_lanes (sim (snd (snd (dash_ambulance vehicles amb_id acc))))
     = controlled_lanes (sim (snd (snd acc)))"
  "trafficlight_id_list (sim (snd (snd (dash_ambulance vehicles amb_id acc))))
     = trafficlight_id_list (sim (snd (snd acc)))"
  "vehicle_road_id (sim (snd (snd (dash_ambulance vehicles amb_id acc))))
     = vehicle_road_id (sim (snd (snd acc)))"
  "length (red_yellow_green_state (sim (snd (snd (dash_ambulance vehicles amb_id acc)))) other)
     = length (red_yellow_green_state (sim (snd (snd acc))) other)"
proof -
  let ?st = "snd (snd acc)"
  let ?e = "vehicle_road_id (sim ?st) amb_id"
  let ?st2 = "setSpeedMode amb_id 0 (setColor amb_id (255, 0, 0, 255) ?st)"
  let ?lights = "fold (dash_tl ?e) (trafficlight_id_list (sim ?st)) (0 :: nat, ?st2)"
  obtain amb_speed alerted controlled where result:
    "snd (snd (dash_ambulance vehicles amb_id acc))
       = append_logs amb_speed alerted controlled (snd ?lights)"
    using dash_ambulance_unfold by blast
  show "controlled_lanes (sim (snd (snd (dash_ambulance vehicles amb_id acc))))
     = controlled_lanes (sim ?st)"
    unfolding result append_logs_keeps fold_dash_tl_keeps by (simp only: snd_conv marked_keeps)
  show "trafficlight_id_list (sim (snd (snd (dash_ambulance vehicles amb_id acc))))
     = trafficlight_id_list (sim ?st)"
    unfolding result append_logs_keeps fold_dash_tl_keeps
    by (simp only: snd_conv marked_keeps_more)
  show "vehicle_road_id (sim (snd (snd (dash_ambulance vehicles amb_id acc))))
     = vehicle_road_id (sim ?st)"
    unfolding result append_logs_keeps fold_dash_tl_keeps
    by (simp only: snd_conv marked_keeps_more)
  show "length (red_yellow_green_state (sim (snd (snd (dash_ambulance vehicles amb_id acc)))) other)
     = length (red_yellow_green_state (sim ?st) other)"
    unfolding result append_logs_keeps fold_dash_tl_keeps by (simp only: snd_conv marked_keeps)
qed

lemma fold_dash_ambulance_keeps:
  "controlled_lanes (sim (snd (snd (fold (dash_ambulance vehicles) ambulances acc))))
     = controlled_lanes (sim (snd (snd acc)))"
  "trafficlight_id_list (sim (snd (snd (fold (dash_ambulance vehicles) ambulances acc))))
     = trafficlight_id_list (sim (snd (snd acc)))"
  "vehicle_road_id (sim (snd (snd (fold (dash_ambulance vehicles) ambulances acc))))
     = vehicle_road_id (sim (snd (snd acc)))"
  "length (red_yellow_green_state
             (sim (snd (snd (fold (dash_ambulance vehicles) ambulances acc)))) other)
     = length (red_yellow_green_state (sim (snd (snd acc))) other)"
  by (induction ambulances arbitrary: acc; simp add: dash_ambulance_keeps)+

text \<open>A loop whose passes only append commands: what it sends is what its passes send.\<close>

lemma ex_nth_iff: "(\<exists>k<length xs. P (xs ! k)) \<longleftrightarrow> (\<exists>a\<in>set xs. P a)"
  by (metis in_set_conv_nth)

lemma fold_grows:
  fixes proj :: "'acc \<Rightarrow> 'a state_scheme"
  assumes "\<And>a acc. \<exists>xs. commands (proj (f a acc)) = commands (proj acc) @ xs"
  shows "\<exists>ys. commands (proj (fold f xs acc)) = commands (proj acc) @ ys"
proof (induction xs arbitrary: acc)
  case Nil
  then show ?case by simp
next
  case (Cons a xs)
  obtain us where "commands (proj (f a acc)) = commands (proj acc) @ us"
    using assms by blast
  moreover obtain vs where "commands (proj (fold f xs (f a acc))) = commands (proj (f a acc)) @ vs"
    using Cons.IH by blast
  ultimately show ?case by simp
qed

lemma fold_sent_turns:
  fixes proj :: "'acc \<Rightarrow> 'a state_scheme"
  assumes "\<And>a acc. \<exists>xs. commands (proj (f a acc)) = commands (proj acc) @ xs"
  shows "c \<in> set (sent_in (proj acc) (proj (fold f xs acc)))
     \<longleftrightarrow> (\<exists>k<length xs. c \<in> set (sent_in (proj (fold f (take k xs) acc))
                                        (proj (f (xs ! k) (fold f (take k xs) acc)))))"
proof (induction xs rule: rev_induct)
  case Nil
  then show ?case by (simp add: sent_in_def)
next
  case (snoc y ys)
  let ?mid = "fold f ys acc"
  obtain us where us: "commands (proj ?mid) = commands (proj acc) @ us"
    using fold_grows [of proj f, OF assms] by blast
  obtain vs where vs: "commands (proj (f y ?mid)) = commands (proj ?mid) @ vs"
    using assms by blast
  have split: "sent_in (proj acc) (proj (fold f (ys @ [y]) acc))
      = sent_in (proj acc) (proj ?mid) @ sent_in (proj ?mid) (proj (f y ?mid))"
    using sent_in_trans [OF us vs] by simp
  have earlier: "(\<exists>k<length ys. c \<in> set (sent_in (proj (fold f (take k (ys @ [y])) acc))
                     (proj (f ((ys @ [y]) ! k) (fold f (take k (ys @ [y])) acc)))))
      \<longleftrightarrow> (\<exists>k<length ys. c \<in> set (sent_in (proj (fold f (take k ys) acc))
                     (proj (f (ys ! k) (fold f (take k ys) acc)))))"
    by (simp add: nth_append cong: conj_cong)
  have "(\<exists>k<length (ys @ [y]). c \<in> set (sent_in (proj (fold f (take k (ys @ [y])) acc))
                     (proj (f ((ys @ [y]) ! k) (fold f (take k (ys @ [y])) acc)))))
      \<longleftrightarrow> (\<exists>k<length ys. c \<in> set (sent_in (proj (fold f (take k (ys @ [y])) acc))
                     (proj (f ((ys @ [y]) ! k) (fold f (take k (ys @ [y])) acc)))))
          \<or> c \<in> set (sent_in (proj ?mid) (proj (f y ?mid)))"
    by (auto simp: less_Suc_eq)
  then show ?case
    unfolding split earlier using snoc.IH by auto
qed


text \<open>One iteration of the main script, turn by turn.\<close>

lemma main_turn_start: "main_turn advance request st 0 = simulationStep advance st"
  by (simp add: main_turn_def Let_def)

lemma main_turn_next:
  "k < length (detected (advance (sim st))) \<Longrightarrow>
   main_turn advance request st (Suc k)
     = main_ambulance request (vehicle_id_list (advance (sim st)))
         (detected (advance (sim st)) ! k) (main_turn advance request st k)"
  by (simp add: main_turn_def Let_def simulationStep_def detected_def take_Suc_conv_app_nth)

lemma main_body_turns:
  "main_body advance request st
     = (main_turn advance request st (length (detected (advance (sim st)))))
         \<lparr>step := step st + 1\<rparr>"
  by (simp add: main_body_def main_turn_def Let_def simulationStep_def detected_def)

lemma main_ambulance_grows:
  "\<exists>xs. commands (main_ambulance request vehicles amb_id st) = commands st @ xs"
proof -
  obtain xs where "commands (main_ambulance request vehicles amb_id st)
      = commands st @ marking amb_id @ xs"
    using main_ambulance_sent by blast
  then show ?thesis by (intro exI [of _ "marking amb_id @ xs"]) simp
qed

lemma dash_ambulance_grows:
  "\<exists>xs. commands (snd (snd (dash_ambulance vehicles amb_id acc))) = commands (snd (snd acc)) @ xs"
proof -
  obtain xs where "commands (snd (snd (dash_ambulance vehicles amb_id acc)))
      = commands (snd (snd acc)) @ marking amb_id @ xs"
    using dash_ambulance_sent by blast
  then show ?thesis by (intro exI [of _ "marking amb_id @ xs"]) simp
qed

lemma main_body_override:
  "SetRedYellowGreenState tl_id x \<in> set (sent_in st (main_body advance request st))
   \<longleftrightarrow> (\<exists>k<length (detected (advance (sim st))).
          tl_id \<in> set (trafficlight_id_list (sim (main_turn advance request st k)))
          \<and> in_zone (sim (main_turn advance request st k)) (detected (advance (sim st)) ! k) tl_id
          \<and> x = signal_string (sim (main_turn advance request st k))
                  (detected (advance (sim st)) ! k) tl_id
          \<and> length x = length (red_yellow_green_state (sim (main_turn advance request st k)) tl_id))"
proof -
  let ?st1 = "simulationStep advance st"
  let ?vs = "vehicle_id_list (advance (sim st))"
  let ?ambs = "detected (advance (sim st))"
  let ?f = "main_ambulance request ?vs"
  have turn: "main_turn advance request st k = fold ?f (take k ?ambs) ?st1" for k
    by (simp add: main_turn_def Let_def simulationStep_def detected_def)
  obtain ys where ys: "commands (fold ?f ?ambs ?st1) = commands ?st1 @ ys"
    using fold_grows [where proj = "\<lambda>s. s" and f = ?f, OF main_ambulance_grows] by blast
  have "commands (main_body advance request st) = commands (fold ?f ?ambs ?st1)"
    by (simp add: main_body_def Let_def simulationStep_def detected_def)
  then have "commands (main_body advance request st) = commands st @ (SimulationStep # ys)"
    using ys by (simp add: simulationStep_def)
  then have "sent_in st (main_body advance request st) = SimulationStep # ys"
    by (rule sent_in_append)
  moreover have "sent_in ?st1 (fold ?f ?ambs ?st1) = ys"
    using ys by (rule sent_in_append)
  ultimately have "SetRedYellowGreenState tl_id x \<in> set (sent_in st (main_body advance request st))
      \<longleftrightarrow> SetRedYellowGreenState tl_id x \<in> set (sent_in ?st1 (fold ?f ?ambs ?st1))"
    by simp
  also have "\<dots> \<longleftrightarrow> (\<exists>k<length ?ambs. SetRedYellowGreenState tl_id x
        \<in> set (sent_in (fold ?f (take k ?ambs) ?st1) (?f (?ambs ! k) (fold ?f (take k ?ambs) ?st1))))"
    using fold_sent_turns [where proj = "\<lambda>s. s" and f = ?f, OF main_ambulance_grows] .
  finally show ?thesis
    unfolding turn main_ambulance_override .
qed

lemma dash_body_override:
  "SetRedYellowGreenState tl_id x \<in> set (sent_in st (dash_body advance st))
   \<longleftrightarrow> (\<exists>a\<in>set (detected (advance (sim st))).
          tl_id \<in> set (trafficlight_id_list (advance (sim st)))
          \<and> in_zone (advance (sim st)) a tl_id
          \<and> x = signal_string (advance (sim st)) a tl_id
          \<and> length x = length (red_yellow_green_state (advance (sim st)) tl_id))"
proof -
  let ?s1 = "advance (sim st)"
  let ?vs = "vehicle_id_list ?s1"
  let ?ambs = "detected ?s1"
  let ?f = "dash_ambulance ?vs"
  let ?acc = "(0 :: nat, 0 :: nat, clear_vehicle_data (simulationStep advance st))"
  let ?proj = "\<lambda>acc :: nat \<times> nat \<times> dash_state. snd (snd acc)"
  have start: "sim (clear_vehicle_data (simulationStep advance st)) = ?s1"
      "commands (clear_vehicle_data (simulationStep advance st)) = commands st @ [SimulationStep]"
    by (simp_all add: clear_vehicle_data_def simulationStep_def)
  have view: "in_zone (sim (snd (snd (fold ?f ambulances ?acc)))) a tl_id = in_zone ?s1 a tl_id"
      "signal_string (sim (snd (snd (fold ?f ambulances ?acc)))) a tl_id = signal_string ?s1 a tl_id"
      "trafficlight_id_list (sim (snd (snd (fold ?f ambulances ?acc)))) = trafficlight_id_list ?s1"
      "length (red_yellow_green_state (sim (snd (snd (fold ?f ambulances ?acc)))) tl_id)
         = length (red_yellow_green_state ?s1 tl_id)"
    for ambulances a
    by (simp_all only: in_zone_def signal_string_def fold_dash_ambulance_keeps snd_conv start)
  obtain ys where ys: "commands (snd (snd (fold ?f ?ambs ?acc))) = commands (snd (snd ?acc)) @ ys"
    using fold_grows [where proj = ?proj and f = ?f, OF dash_ambulance_grows] by blast
  have "commands (dash_body advance st) = commands (snd (snd (fold ?f ?ambs ?acc)))"
    by (simp add: dash_body_unfold update_vehicle_data_def Let_def detected_def)
  then have "commands (dash_body advance st) = commands st @ (SimulationStep # ys)"
    using ys by (simp add: start)
  then have "sent_in st (dash_body advance st) = SimulationStep # ys"
    by (rule sent_in_append)
  moreover have "sent_in (snd (snd ?acc)) (snd (snd (fold ?f ?ambs ?acc))) = ys"
    using ys by (rule sent_in_append)
  ultimately have "SetRedYellowGreenState tl_id x \<in> set (sent_in st (dash_body advance st))
      \<longleftrightarrow> SetRedYellowGreenState tl_id x
            \<in> set (sent_in (snd (snd ?acc)) (snd (snd (fold ?f ?ambs ?acc))))"
    by simp
  also have "\<dots> \<longleftrightarrow> (\<exists>k<length ?ambs. SetRedYellowGreenState tl_id x
        \<in> set (sent_in (snd (snd (fold ?f (take k ?ambs) ?acc)))
                 (snd (snd (?f (?ambs ! k) (fold ?f (take k ?ambs) ?acc))))))"
    using fold_sent_turns [where proj = ?proj and f = ?f, OF dash_ambulance_grows] .
  also have "\<dots> \<longleftrightarrow> (\<exists>k<length ?ambs.
          tl_id \<in> set (trafficlight_id_list ?s1)
          \<and> in_zone ?s1 (?ambs ! k) tl_id
          \<and> x = signal_string ?s1 (?ambs ! k) tl_id
          \<and> length x = length (red_yellow_green_state ?s1 tl_id))"
    unfolding dash_ambulance_override view ..
  also have "\<dots> \<longleftrightarrow> (\<exists>a\<in>set ?ambs.
          tl_id \<in> set (trafficlight_id_list ?s1)
          \<and> in_zone ?s1 a tl_id
          \<and> x = signal_string ?s1 a tl_id
          \<and> length x = length (red_yellow_green_state ?s1 tl_id))"
    by (rule ex_nth_iff [where P = "\<lambda>a. tl_id \<in> set (trafficlight_id_list ?s1)
          \<and> in_zone ?s1 a tl_id
          \<and> x = signal_string ?s1 a tl_id
          \<and> length x = length (red_yellow_green_state ?s1 tl_id)"])
  finally show ?thesis .
qed


section \<open>The signal string and its length guard\<close>

text \<open>
  Claim C1. For a detected emergency vehicle and a listed traffic light that controls a
  lane whose identifier contains the identifier of the road the vehicle is on, the signal
  string has one character per controlled lane of the light: \<open>G\<close> where the lane's
  identifier contains the road identifier, \<open>r\<close> elsewhere. When the string is as long as
  the light's current state, the vehicle's turn of the per-step loop sends it as the
  light's new state, and it is the light's state after the turn (a lane-change request
  being taken to leave the states of the lights alone). One iteration of either loop sends
  it for every detected vehicle: in the main script for the simulator state the vehicle's
  turn starts in, in the dashboard for the state right after the simulation step, since
  its turns change nothing the string is built from.
\<close>

theorem C1_signal_override:
   "signal_string s a tl_id
      = map (\<lambda>lane. if sublist (vehicle_road_id s a) lane then CHR ''G'' else CHR ''r'')
          (controlled_lanes s tl_id)
    \<and> length (signal_string s a tl_id) = length (controlled_lanes s tl_id)
    \<and> (tl_id \<in> set (trafficlight_id_list (sim st))
        \<and> in_zone (sim st) a tl_id
        \<and> length (signal_string (sim st) a tl_id) = length (red_yellow_green_state (sim st) tl_id)
        \<longrightarrow>
          SetRedYellowGreenState tl_id (signal_string (sim st) a tl_id)
            \<in> set (sent_in st (main_ambulance request vehicles a st)))
    \<and> ((\<forall>s v lane duration.
           red_yellow_green_state (fst (request s v lane duration)) = red_yellow_green_state s)
        \<and> tl_id \<in> set (trafficlight_id_list (sim st))
        \<and> in_zone (sim st) a tl_id
        \<and> length (signal_string (sim st) a tl_id) = length (red_yellow_green_state (sim st) tl_id)
        \<longrightarrow>
          red_yellow_green_state (sim (main_ambulance request vehicles a st)) tl_id
            = signal_string (sim st) a tl_id)
    \<and> (tl_id \<in> set (trafficlight_id_list (sim dst))
        \<and> in_zone (sim dst) a tl_id
        \<and> length (signal_string (sim dst) a tl_id) = length (red_yellow_green_state (sim dst) tl_id)
        \<longrightarrow>
          SetRedYellowGreenState tl_id (signal_string (sim dst) a tl_id)
            \<in> set (sent_in dst (snd (snd (dash_ambulance vehicles a (alerted, controlled, dst)))))
          \<and> red_yellow_green_state
                (sim (snd (snd (dash_ambulance vehicles a (alerted, controlled, dst))))) tl_id
              = signal_string (sim dst) a tl_id)
    \<and> (k < length (detected (advance (sim st)))
        \<and> tl_id \<in> set (trafficlight_id_list (sim (main_turn advance request st k)))
        \<and> in_zone (sim (main_turn advance request st k)) (detected (advance (sim st)) ! k) tl_id
        \<and> length (signal_string (sim (main_turn advance request st k))
                    (detected (advance (sim st)) ! k) tl_id)
            = length (red_yellow_green_state (sim (main_turn advance request st k)) tl_id)
        \<longrightarrow>
          SetRedYellowGreenState tl_id
              (signal_string (sim (main_turn advance request st k))
                 (detected (advance (sim st)) ! k) tl_id)
            \<in> set (sent_in st (main_body advance request st)))
    \<and> (a \<in> set (detected (advance (sim dst)))
        \<and> tl_id \<in> set (trafficlight_id_list (advance (sim dst)))
        \<and> in_zone (advance (sim dst)) a tl_id
        \<and> length (signal_string (advance (sim dst)) a tl_id)
            = length (red_yellow_green_state (advance (sim dst)) tl_id)
        \<longrightarrow>
          SetRedYellowGreenState tl_id (signal_string (advance (sim dst)) a tl_id)
            \<in> set (sent_in dst (dash_body advance dst)))"
  apply (intro conjI impI; (elim conjE)?)
  subgoal by (simp add: signal_string_def build_state_map)
  subgoal by (simp add: signal_string_def build_state_map)
  subgoal by (simp add: main_ambulance_override)
  subgoal premises p
    using main_ambulance_light_state [OF p(1) [rule_format] p(2) p(3)] p(4) by simp
  subgoal
    using dash_ambulance_override [where acc = "(alerted, controlled, dst)" and tl_id = tl_id
        and amb_id = a and vehicles = vehicles, unfolded snd_conv]
    by simp
  subgoal
    using dash_ambulance_light_state [where acc = "(alerted, controlled, dst)" and tl_id = tl_id
        and amb_id = a and vehicles = vehicles, unfolded snd_conv]
    by simp
  subgoal by (subst main_body_override) blast
  subgoal by (subst dash_body_override) blast
  done

theorem C1_signal_override_witness:
  "signal_string example_sim ''ambulance_1'' ''J1'' = ''Gr''
   \<and> red_yellow_green_state example_sim ''J1'' = ''rG''
   \<and> SetRedYellowGreenState ''J1'' ''Gr''
       \<in> set (sent_in example_main
                (main_ambulance no_lane_change [''ambulance_1'', ''car_1'', ''car_2'']
                   ''ambulance_1'' example_main))
   \<and> red_yellow_green_state
       (sim (main_ambulance no_lane_change [''ambulance_1'', ''car_1'', ''car_2'']
               ''ambulance_1'' example_main)) ''J1'' = ''Gr''
   \<and> SetRedYellowGreenState ''J1'' ''Gr''
       \<in> set (sent_in example_dash
                (snd (snd (dash_ambulance [''ambulance_1'', ''car_1'', ''car_2''] ''ambulance_1''
                             (0, 0, example_dash)))))
   \<and> red_yellow_green_state
       (sim (snd (snd (dash_ambulance [''ambulance_1'', ''car_1'', ''car_2''] ''ambulance_1''
                         (0, 0, example_dash))))) ''J1'' = ''Gr''
   \<and> SetRedYellowGreenState ''J1'' ''Gr''
       \<in> set (sent_in example_main (main_body frozen no_lane_change example_main))
   \<and> SetRedYellowGreenState ''J1'' ''Gr''
       \<in> set (sent_in example_dash (dash_body frozen example_dash))"
proof -
  have frame: "red_yellow_green_state (fst (no_lane_change s v lane duration))
      = red_yellow_green_state s" for s v lane duration
    by (simp add: no_lane_change_def)
  have sims: "sim example_main = example_sim" "sim example_dash = example_sim"
      "frozen example_sim = example_sim"
    by (simp_all add: example_main_def example_dash_def frozen_def)
  have turn: "sim (main_turn frozen no_lane_change example_main 0) = example_sim"
    by (simp add: main_turn_start simulationStep_def sims)
  have found: "detected example_sim = [''ambulance_1'']"
    by (simp add: detected_def ambulances_of_def is_ambulance_def example_sim_def
          lower_def lower_char_def sublist_code)
  have built: "signal_string example_sim ''ambulance_1'' ''J1'' = ''Gr''"
    by (simp add: signal_string_def example_sim_def sublist_code)
  have zone: "in_zone example_sim ''ambulance_1'' ''J1''"
    by (simp add: in_zone_def on_controlled_lanes_def example_sim_def sublist_code)
  have light: "trafficlight_id_list example_sim = [''J1'']"
      "red_yellow_green_state example_sim ''J1'' = ''rG''"
    by (simp_all add: example_sim_def)
  from C1_signal_override [where request = no_lane_change and s = example_sim
      and a = "''ambulance_1''" and tl_id = "''J1''" and st = example_main
      and vehicles = "[''ambulance_1'', ''car_1'', ''car_2'']" and dst = example_dash
      and alerted = 0 and controlled = 0 and k = 0 and advance = frozen,
      THEN conjunct2, THEN conjunct2]
  show ?thesis
    by (simp add: sims turn found built zone light frame)
qed

text \<open>
  Claim C2. In a vehicle's turn an override of a light is sent exactly when the light is
  listed, controls a lane of the vehicle's road, and the signal string is as long as the
  light's current state; the command then carries that string. Nothing else read from the
  simulator decides it. On a mismatch of the lengths no override is sent for the light,
  the main script prints the warning, the light's state stays as it was (a lane-change
  request being taken to leave the states of the lights alone), and the entry saved for
  the light is the one the take-over step made, as it is when the lengths agree; the
  pass of the light loop that finds the mismatch sends nothing and leaves the simulator
  and every other saved entry as they were. One
  iteration of a loop sends an override exactly when these conditions hold for a detected
  vehicle: in the main script in the simulator state the vehicle's turn starts in, in the
  dashboard in the state right after the simulation step.
\<close>

theorem C2_override_guard:
   "(SetRedYellowGreenState tl_id x \<in> set (sent_in st (main_ambulance request vehicles a st))
       \<longleftrightarrow> tl_id \<in> set (trafficlight_id_list (sim st))
           \<and> in_zone (sim st) a tl_id
           \<and> x = signal_string (sim st) a tl_id
           \<and> length x = length (red_yellow_green_state (sim st) tl_id))
    \<and> (StateLengthMismatch tl_id \<in> set (printed_in st (main_ambulance request vehicles a st))
       \<longleftrightarrow> tl_id \<in> set (trafficlight_id_list (sim st))
           \<and> in_zone (sim st) a tl_id
           \<and> length (signal_string (sim st) a tl_id)
               \<noteq> length (red_yellow_green_state (sim st) tl_id))
    \<and> ((\<forall>s v lane duration.
           red_yellow_green_state (fst (request s v lane duration)) = red_yellow_green_state s)
        \<and> tl_id \<in> set (trafficlight_id_list (sim st))
        \<and> in_zone (sim st) a tl_id
        \<and> length (signal_string (sim st) a tl_id) \<noteq> length (red_yellow_green_state (sim st) tl_id)
        \<longrightarrow>
          red_yellow_green_state (sim (main_ambulance request vehicles a st)) tl_id
            = red_yellow_green_state (sim st) tl_id)
    \<and> (tl_id \<in> set (trafficlight_id_list (sim st)) \<and> in_zone (sim st) a tl_id
        \<longrightarrow>
          original_tl_programs (main_ambulance request vehicles a st) tl_id
            = Some (case original_tl_programs st tl_id of
                      None \<Rightarrow> trafficlight_program (sim st) tl_id
                    | Some saved \<Rightarrow> saved))
    \<and> (SetRedYellowGreenState tl_id x
         \<in> set (sent_in dst (snd (snd (dash_ambulance vehicles a (alerted, controlled, dst)))))
       \<longleftrightarrow> tl_id \<in> set (trafficlight_id_list (sim dst))
           \<and> in_zone (sim dst) a tl_id
           \<and> x = signal_string (sim dst) a tl_id
           \<and> length x = length (red_yellow_green_state (sim dst) tl_id))
    \<and> (tl_id \<in> set (trafficlight_id_list (sim dst))
        \<and> in_zone (sim dst) a tl_id
        \<and> length (signal_string (sim dst) a tl_id) \<noteq> length (red_yellow_green_state (sim dst) tl_id)
        \<longrightarrow>
          red_yellow_green_state
              (sim (snd (snd (dash_ambulance vehicles a (alerted, controlled, dst))))) tl_id
            = red_yellow_green_state (sim dst) tl_id)
    \<and> (tl_id \<in> set (trafficlight_id_list (sim dst)) \<and> in_zone (sim dst) a tl_id
        \<longrightarrow>
          original_tl_programs (snd (snd (dash_ambulance vehicles a (alerted, controlled, dst)))) tl_id
            = Some (case original_tl_programs dst tl_id of
                      None \<Rightarrow> trafficlight_program (sim dst) tl_id
                    | Some saved \<Rightarrow> saved))
    \<and> (SetRedYellowGreenState tl_id x \<in> set (sent_in st (main_body advance request st))
       \<longleftrightarrow> (\<exists>k<length (detected (advance (sim st))).
              tl_id \<in> set (trafficlight_id_list (sim (main_turn advance request st k)))
              \<and> in_zone (sim (main_turn advance request st k))
                    (detected (advance (sim st)) ! k) tl_id
              \<and> x = signal_string (sim (main_turn advance request st k))
                      (detected (advance (sim st)) ! k) tl_id
              \<and> length x
                  = length (red_yellow_green_state (sim (main_turn advance request st k)) tl_id)))
    \<and> (SetRedYellowGreenState tl_id x \<in> set (sent_in dst (dash_body advance dst))
       \<longleftrightarrow> (\<exists>v\<in>set (detected (advance (sim dst))).
              tl_id \<in> set (trafficlight_id_list (advance (sim dst)))
              \<and> in_zone (advance (sim dst)) v tl_id
              \<and> x = signal_string (advance (sim dst)) v tl_id
              \<and> length x = length (red_yellow_green_state (advance (sim dst)) tl_id)))
    \<and> (on_controlled_lanes amb_edge (controlled_lanes (sim st) tl_id)
        \<and> length (build_state amb_edge (controlled_lanes (sim st) tl_id) [])
            \<noteq> length (red_yellow_green_state (sim st) tl_id)
        \<longrightarrow>
          sim (main_tl a amb_edge tl_id st) = sim st
          \<and> commands (main_tl a amb_edge tl_id st) = commands st
          \<and> original_tl_programs (main_tl a amb_edge tl_id st)
              = (case original_tl_programs st tl_id of
                   None \<Rightarrow> (original_tl_programs st)(tl_id \<mapsto> trafficlight_program (sim st) tl_id)
                 | Some kept \<Rightarrow> original_tl_programs st))
    \<and> (on_controlled_lanes amb_edge (controlled_lanes (sim dst) tl_id)
        \<and> length (build_state amb_edge (controlled_lanes (sim dst) tl_id) [])
            \<noteq> length (red_yellow_green_state (sim dst) tl_id)
        \<longrightarrow>
          sim (snd (dash_tl amb_edge tl_id (n, dst))) = sim dst
          \<and> commands (snd (dash_tl amb_edge tl_id (n, dst))) = commands dst
          \<and> original_tl_programs (snd (dash_tl amb_edge tl_id (n, dst)))
              = (case original_tl_programs dst tl_id of
                   None \<Rightarrow> (original_tl_programs dst)(tl_id \<mapsto> trafficlight_program (sim dst) tl_id)
                 | Some kept \<Rightarrow> original_tl_programs dst))"
proof (intro conjI)
  show "on_controlled_lanes amb_edge (controlled_lanes (sim st) tl_id)
        \<and> length (build_state amb_edge (controlled_lanes (sim st) tl_id) [])
            \<noteq> length (red_yellow_green_state (sim st) tl_id)
        \<longrightarrow>
          sim (main_tl a amb_edge tl_id st) = sim st
          \<and> commands (main_tl a amb_edge tl_id st) = commands st
          \<and> original_tl_programs (main_tl a amb_edge tl_id st)
              = (case original_tl_programs st tl_id of
                   None \<Rightarrow> (original_tl_programs st)(tl_id \<mapsto> trafficlight_program (sim st) tl_id)
                 | Some kept \<Rightarrow> original_tl_programs st)"
    by (simp add: tl_defs split: option.splits)
  show "on_controlled_lanes amb_edge (controlled_lanes (sim dst) tl_id)
        \<and> length (build_state amb_edge (controlled_lanes (sim dst) tl_id) [])
            \<noteq> length (red_yellow_green_state (sim dst) tl_id)
        \<longrightarrow>
          sim (snd (dash_tl amb_edge tl_id (n, dst))) = sim dst
          \<and> commands (snd (dash_tl amb_edge tl_id (n, dst))) = commands dst
          \<and> original_tl_programs (snd (dash_tl amb_edge tl_id (n, dst)))
              = (case original_tl_programs dst tl_id of
                   None \<Rightarrow> (original_tl_programs dst)(tl_id \<mapsto> trafficlight_program (sim dst) tl_id)
                 | Some kept \<Rightarrow> original_tl_programs dst)"
    by (simp add: tl_defs split: option.splits)
  show "SetRedYellowGreenState tl_id x \<in> set (sent_in st (main_body advance request st))
       \<longleftrightarrow> (\<exists>k<length (detected (advance (sim st))).
              tl_id \<in> set (trafficlight_id_list (sim (main_turn advance request st k)))
              \<and> in_zone (sim (main_turn advance request st k))
                    (detected (advance (sim st)) ! k) tl_id
              \<and> x = signal_string (sim (main_turn advance request st k))
                      (detected (advance (sim st)) ! k) tl_id
              \<and> length x
                  = length (red_yellow_green_state (sim (main_turn advance request st k)) tl_id))"
    by (rule main_body_override)
qed (use dash_ambulance_override [where acc = "(alerted, controlled, dst)" and tl_id = tl_id
         and x = x and amb_id = a and vehicles = vehicles, unfolded snd_conv]
       dash_ambulance_light_state [where acc = "(alerted, controlled, dst)" and tl_id = tl_id
         and amb_id = a and vehicles = vehicles, unfolded snd_conv]
       dash_ambulance_saved [where acc = "(alerted, controlled, dst)" and tl_id = tl_id
         and amb_id = a and vehicles = vehicles, unfolded snd_conv]
     in \<open>simp_all add: main_ambulance_override main_ambulance_warning
           main_ambulance_light_state main_ambulance_saved dash_body_override\<close>)

theorem C2_override_guard_witness:
  "in_zone mismatch_sim ''ambulance_1'' ''J1''
   \<and> signal_string mismatch_sim ''ambulance_1'' ''J1'' = ''Gr''
   \<and> red_yellow_green_state mismatch_sim ''J1'' = ''rGy''
   \<and> SetRedYellowGreenState ''J1'' ''Gr''
       \<notin> set (sent_in mismatch_main
                (main_ambulance no_lane_change [''ambulance_1'', ''car_1'', ''car_2'']
                   ''ambulance_1'' mismatch_main))
   \<and> StateLengthMismatch ''J1''
       \<in> set (printed_in mismatch_main
                (main_ambulance no_lane_change [''ambulance_1'', ''car_1'', ''car_2'']
                   ''ambulance_1'' mismatch_main))
   \<and> red_yellow_green_state
       (sim (main_ambulance no_lane_change [''ambulance_1'', ''car_1'', ''car_2'']
               ''ambulance_1'' mismatch_main)) ''J1'' = ''rGy''
   \<and> original_tl_programs
       (main_ambulance no_lane_change [''ambulance_1'', ''car_1'', ''car_2'']
          ''ambulance_1'' mismatch_main) ''J1'' = Some ''0''
   \<and> SetRedYellowGreenState ''J1'' ''Gr''
       \<notin> set (sent_in mismatch_dash
                (snd (snd (dash_ambulance [''ambulance_1'', ''car_1'', ''car_2''] ''ambulance_1''
                             (0, 0, mismatch_dash)))))
   \<and> red_yellow_green_state
       (sim (snd (snd (dash_ambulance [''ambulance_1'', ''car_1'', ''car_2''] ''ambulance_1''
                         (0, 0, mismatch_dash))))) ''J1'' = ''rGy''
   \<and> original_tl_programs
       (snd (snd (dash_ambulance [''ambulance_1'', ''car_1'', ''car_2''] ''ambulance_1''
                    (0, 0, mismatch_dash)))) ''J1'' = Some ''0''
   \<and> SetRedYellowGreenState ''J1'' ''Gr''
       \<notin> set (sent_in mismatch_main (main_body frozen no_lane_change mismatch_main))
   \<and> SetRedYellowGreenState ''J1'' ''Gr''
       \<notin> set (sent_in mismatch_dash (dash_body frozen mismatch_dash))
   \<and> sim (main_tl ''ambulance_1'' ''e1'' ''J1'' mismatch_main) = mismatch_sim
   \<and> commands (main_tl ''ambulance_1'' ''e1'' ''J1'' mismatch_main) = []
   \<and> original_tl_programs (main_tl ''ambulance_1'' ''e1'' ''J1'' mismatch_main)
       = [''J1'' \<mapsto> ''0'']
   \<and> sim (snd (dash_tl ''e1'' ''J1'' (0, mismatch_dash))) = mismatch_sim
   \<and> commands (snd (dash_tl ''e1'' ''J1'' (0, mismatch_dash))) = []
   \<and> original_tl_programs (snd (dash_tl ''e1'' ''J1'' (0, mismatch_dash)))
       = [''J1'' \<mapsto> ''0'']"
proof -
  have frame: "red_yellow_green_state (fst (no_lane_change s v lane duration))
      = red_yellow_green_state s" for s v lane duration
    by (simp add: no_lane_change_def)
  have sims: "sim mismatch_main = mismatch_sim" "sim mismatch_dash = mismatch_sim"
      "frozen mismatch_sim = mismatch_sim"
    by (simp_all add: mismatch_main_def mismatch_dash_def frozen_def)
  have turn: "sim (main_turn frozen no_lane_change mismatch_main 0) = mismatch_sim"
    by (simp add: main_turn_start simulationStep_def sims)
  have saved: "original_tl_programs mismatch_main = Map.empty"
      "original_tl_programs mismatch_dash = Map.empty"
      "commands mismatch_main = []" "commands mismatch_dash = []"
    by (simp_all add: mismatch_main_def mismatch_dash_def example_main_def example_dash_def)
  have pass: "on_controlled_lanes ''e1'' (controlled_lanes mismatch_sim ''J1'')"
      "build_state ''e1'' (controlled_lanes mismatch_sim ''J1'') [] = ''Gr''"
    by (simp_all add: on_controlled_lanes_def mismatch_sim_def example_sim_def sublist_code)
  have found: "detected mismatch_sim = [''ambulance_1'']"
    by (simp add: detected_def ambulances_of_def is_ambulance_def mismatch_sim_def example_sim_def
          lower_def lower_char_def sublist_code)
  have built: "signal_string mismatch_sim ''ambulance_1'' ''J1'' = ''Gr''"
    by (simp add: signal_string_def mismatch_sim_def example_sim_def sublist_code)
  have zone: "in_zone mismatch_sim ''ambulance_1'' ''J1''"
    by (simp add: in_zone_def on_controlled_lanes_def mismatch_sim_def example_sim_def
          sublist_code)
  have light: "trafficlight_id_list mismatch_sim = [''J1'']"
      "red_yellow_green_state mismatch_sim ''J1'' = ''rGy''"
      "trafficlight_program mismatch_sim ''J1'' = ''0''"
    by (simp_all add: mismatch_sim_def example_sim_def)
  from C2_override_guard [where request = no_lane_change and tl_id = "''J1''" and x = "''Gr''"
      and st = mismatch_main and vehicles = "[''ambulance_1'', ''car_1'', ''car_2'']"
      and a = "''ambulance_1''" and dst = mismatch_dash and alerted = 0 and controlled = 0
      and advance = frozen and amb_edge = "''e1''" and n = 0]
  show ?thesis
    by (simp add: sims turn saved pass found built zone light frame)
qed

section \<open>The logs of the dashboard\<close>

lemma dash_tl_logs:
  "time_log (snd (dash_tl amb_edge tl_id acc)) = time_log (snd acc)"
  "ambulance_speed_log (snd (dash_tl amb_edge tl_id acc)) = ambulance_speed_log (snd acc)"
  "vehicle_alert_count (snd (dash_tl amb_edge tl_id acc)) = vehicle_alert_count (snd acc)"
  "traffic_light_control_log (snd (dash_tl amb_edge tl_id acc))
     = traffic_light_control_log (snd acc)"
  "stopped_vehicle_counts (snd (dash_tl amb_edge tl_id acc)) = stopped_vehicle_counts (snd acc)"
  "simulation_times (snd (dash_tl amb_edge tl_id acc)) = simulation_times (snd acc)"
  "vehicle_data (snd (dash_tl amb_edge tl_id acc)) = vehicle_data (snd acc)"
  "vehicle_speed (sim (snd (dash_tl amb_edge tl_id acc))) = vehicle_speed (sim (snd acc))"
  "vehicle_class (sim (snd (dash_tl amb_edge tl_id acc))) = vehicle_class (sim (snd acc))"
  "vehicle_id_list (sim (snd (dash_tl amb_edge tl_id acc))) = vehicle_id_list (sim (snd acc))"
  "min_expected_number (sim (snd (dash_tl amb_edge tl_id acc)))
     = min_expected_number (sim (snd acc))"
  by (cases acc; simp add: tl_defs)+

lemma fold_dash_tl_logs:
  "time_log (snd (fold (dash_tl amb_edge) junctions acc)) = time_log (snd acc)"
  "ambulance_speed_log (snd (fold (dash_tl amb_edge) junctions acc))
     = ambulance_speed_log (snd acc)"
  "vehicle_alert_count (snd (fold (dash_tl amb_edge) junctions acc))
     = vehicle_alert_count (snd acc)"
  "traffic_light_control_log (snd (fold (dash_tl amb_edge) junctions acc))
     = traffic_light_control_log (snd acc)"
  "stopped_vehicle_counts (snd (fold (dash_tl amb_edge) junctions acc))
     = stopped_vehicle_counts (snd acc)"
  "simulation_times (snd (fold (dash_tl amb_edge) junctions acc)) = simulation_times (snd acc)"
  "vehicle_data (snd (fold (dash_tl amb_edge) junctions acc)) = vehicle_data (snd acc)"
  "vehicle_speed (sim (snd (fold (dash_tl amb_edge) junctions acc)))
     = vehicle_speed (sim (snd acc))"
  "vehicle_class (sim (snd (fold (dash_tl amb_edge) junctions acc)))
     = vehicle_class (sim (snd acc))"
  "vehicle_id_list (sim (snd (fold (dash_tl amb_edge) junctions acc)))
     = vehicle_id_list (sim (snd acc))"
  "min_expected_number (sim (snd (fold (dash_tl amb_edge) junctions acc)))
     = min_expected_number (sim (snd acc))"
  by (induction junctions arbitrary: acc; simp add: dash_tl_logs)+

lemma marked_logs:
  "time_log (setSpeedMode amb_id m (setColor amb_id c st)) = time_log st"
  "ambulance_speed_log (setSpeedMode amb_id m (setColor amb_id c st)) = ambulance_speed_log st"
  "vehicle_alert_count (setSpeedMode amb_id m (setColor amb_id c st)) = vehicle_alert_count st"
  "traffic_light_control_log (setSpeedMode amb_id m (setColor amb_id c st))
     = traffic_light_control_log st"
  "stopped_vehicle_counts (setSpeedMode amb_id m (setColor amb_id c st))
     = stopped_vehicle_counts st"
  "simulation_times (setSpeedMode amb_id m (setColor amb_id c st)) = simulation_times st"
  "vehicle_data (setSpeedMode amb_id m (setColor amb_id c st)) = vehicle_data st"
  "vehicle_speed (sim (setSpeedMode amb_id m (setColor amb_id c st))) = vehicle_speed (sim st)"
  "vehicle_class (sim (setSpeedMode amb_id m (setColor amb_id c st))) = vehicle_class (sim st)"
  "vehicle_id_list (sim (setSpeedMode amb_id m (setColor amb_id c st)))
     = vehicle_id_list (sim st)"
  "min_expected_number (sim (setSpeedMode amb_id m (setColor amb_id c st)))
     = min_expected_number (sim st)"
  by (simp_all add: setColor_def setSpeedMode_def)

lemma dash_ambulance_logs:
  "length (time_log (snd (snd (dash_ambulance vehicles amb_id acc))))
     = Suc (length (time_log (snd (snd acc))))"
  "length (ambulance_speed_log (snd (snd (dash_ambulance vehicles amb_id acc))))
     = Suc (length (ambulance_speed_log (snd (snd acc))))"
  "length (vehicle_alert_count (snd (snd (dash_ambulance vehicles amb_id acc))))
     = Suc (length (vehicle_alert_count (snd (snd acc))))"
  "length (traffic_light_control_log (snd (snd (dash_ambulance vehicles amb_id acc))))
     = Suc (length (traffic_light_control_log (snd (snd acc))))"
  "stopped_vehicle_counts (snd (snd (dash_ambulance vehicles amb_id acc)))
     = stopped_vehicle_counts (snd (snd acc))"
  "simulation_times (snd (snd (dash_ambulance vehicles amb_id acc)))
     = simulation_times (snd (snd acc))"
  "vehicle_data (snd (snd (dash_ambulance vehicles amb_id acc))) = vehicle_data (snd (snd acc))"
  "vehicle_speed (sim (snd (snd (dash_ambulance vehicles amb_id acc))))
     = vehicle_speed (sim (snd (snd acc)))"
  "vehicle_class (sim (snd (snd (dash_ambulance vehicles amb_id acc))))
     = vehicle_class (sim (snd (snd acc)))"
  "vehicle_id_list (sim (snd (snd (dash_ambulance vehicles amb_id acc))))
     = vehicle_id_list (sim (snd (snd acc)))"
  "min_expected_number (sim (snd (snd (dash_ambulance vehicles amb_id acc))))
     = min_expected_number (sim (snd (snd acc)))"
proof -
  obtain amb_speed alerted controlled where result:
    "snd (snd (dash_ambulance vehicles amb_id acc))
       = append_logs amb_speed alerted controlled
           (snd (fold (dash_tl (vehicle_road_id (sim (snd (snd acc))) amb_id))
                   (trafficlight_id_list (sim (snd (snd acc))))
                   (0, setSpeedMode amb_id 0 (setColor amb_id (255, 0, 0, 255) (snd (snd acc))))))"
    using dash_ambulance_unfold by blast
  show "length (time_log (snd (snd (dash_ambulance vehicles amb_id acc))))
     = Suc (length (time_log (snd (snd acc))))"
    "length (ambulance_speed_log (snd (snd (dash_ambulance vehicles amb_id acc))))
     = Suc (length (ambulance_speed_log (snd (snd acc))))"
    "length (vehicle_alert_count (snd (snd (dash_ambulance vehicles amb_id acc))))
     = Suc (length (vehicle_alert_count (snd (snd acc))))"
    "length (traffic_light_control_log (snd (snd (dash_ambulance vehicles amb_id acc))))
     = Suc (length (traffic_light_control_log (snd (snd acc))))"
    "stopped_vehicle_counts (snd (snd (dash_ambulance vehicles amb_id acc)))
     = stopped_vehicle_counts (snd (snd acc))"
    "simulation_times (snd (snd (dash_ambulance vehicles amb_id acc)))
     = simulation_times (snd (snd acc))"
    "vehicle_data (snd (snd (dash_ambulance vehicles amb_id acc))) = vehicle_data (snd (snd acc))"
    "vehicle_speed (sim (snd (snd (dash_ambulance vehicles amb_id acc))))
     = vehicle_speed (sim (snd (snd acc)))"
    "vehicle_class (sim (snd (snd (dash_ambulance vehicles amb_id acc))))
     = vehicle_class (sim (snd (snd acc)))"
    "vehicle_id_list (sim (snd (snd (dash_ambulance vehicles amb_id acc))))
     = vehicle_id_list (sim (snd (snd acc)))"
    "min_expected_number (sim (snd (snd (dash_ambulance vehicles amb_id acc))))
     = min_expected_number (sim (snd (snd acc)))"
    unfolding result
    by (simp_all add: append_logs_def fold_dash_tl_logs marked_logs)
qed

lemma fold_dash_ambulance_logs:
  "length (time_log (snd (snd (fold (dash_ambulance vehicles) ambulances acc))))
     = length (time_log (snd (snd acc))) + length ambulances"
  "length (ambulance_speed_log (snd (snd (fold (dash_ambulance vehicles) ambulances acc))))
     = length (ambulance_speed_log (snd (snd acc))) + length ambulances"
  "length (vehicle_alert_count (snd (snd (fold (dash_ambulance vehicles) ambulances acc))))
     = length (vehicle_alert_count (snd (snd acc))) + length ambulances"
  "length (traffic_light_control_log (snd (snd (fold (dash_ambulance vehicles) ambulances acc))))
     = length (traffic_light_control_log (snd (snd acc))) + length ambulances"
  "stopped_vehicle_counts (snd (snd (fold (dash_ambulance vehicles) ambulances acc)))
     = stopped_vehicle_counts (snd (snd acc))"
  "simulation_times (snd (snd (fold (dash_ambulance vehicles) ambulances acc)))
     = simulation_times (snd (snd acc))"
  "vehicle_data (snd (snd (fold (dash_ambulance vehicles) ambulances acc)))
     = vehicle_data (snd (snd acc))"
  "vehicle_speed (sim (snd (snd (fold (dash_ambulance vehicles) ambulances acc))))
     = vehicle_speed (sim (snd (snd acc)))"
  "vehicle_class (sim (snd (snd (fold (dash_ambulance vehicles) ambulances acc))))
     = vehicle_class (sim (snd (snd acc)))"
  "vehicle_id_list (sim (snd (snd (fold (dash_ambulance vehicles) ambulances acc))))
     = vehicle_id_list (sim (snd (snd acc)))"
  "min_expected_number (sim (snd (snd (fold (dash_ambulance vehicles) ambulances acc))))
     = min_expected_number (sim (snd (snd acc)))"
  by (induction ambulances arbitrary: acc; simp add: dash_ambulance_logs)+

text \<open>The table of vehicles and the count taken from it.\<close>

lemma fold_update_distinct:
  "distinct (map fst table) \<Longrightarrow>
   distinct (map fst (fold (\<lambda>v. AList.update v (f v)) vs table))"
  by (induction vs arbitrary: table) (simp_all add: distinct_update)

lemma fold_update_map_of:
  "map_of (fold (\<lambda>v. AList.update v (f v)) vs table) k
     = (if k \<in> set vs then Some (f k) else map_of table k)"
proof (induction vs arbitrary: table rule: rev_induct)
  case Nil
  then show ?case by simp
next
  case (snoc v vs)
  then show ?case by (simp add: update_conv')
qed

lemma count_distinct_table:
  assumes "distinct (map fst table)"
      and "\<And>k x. (k, x) \<in> set table \<Longrightarrow> x = f k"
  shows "length (filter Q (map snd table)) = card {k \<in> fst ` set table. Q (f k)}"
proof -
  have "\<forall>(k, x)\<in>set table. x = f k"
    using assms(2) by auto
  then have "length (filter Q (map snd table)) = length (filter (\<lambda>k. Q (f k)) (map fst table))"
    by (induction table) auto
  also have "\<dots> = card (set (filter (\<lambda>k. Q (f k)) (map fst table)))"
  proof -
    have "distinct (filter (\<lambda>k. Q (f k)) (map fst table))"
      using assms(1) by (rule distinct_filter)
    then show ?thesis
      by (rule distinct_card [symmetric])
  qed
  also have "set (filter (\<lambda>k. Q (f k)) (map fst table)) = {k \<in> fst ` set table. Q (f k)}"
    by auto
  finally show ?thesis .
qed

lemma stopped_count_of_table:
  "stopped_count_of (fold (record_vehicle s) vehicles [])
     = card {v \<in> set vehicles. vehicle_speed s v < 0.1 \<and> \<not> is_ambulance s v}"
proof -
  let ?f = "\<lambda>veh_id. \<lparr>info_speed = vehicle_speed s veh_id,
        info_class = vehicle_class s veh_id,
        info_position = vehicle_position s veh_id,
        info_stopped = (vehicle_speed s veh_id < 0.1),
        info_is_ambulance =
          (sublist ''ambulance'' (lower veh_id) \<or> vehicle_class s veh_id = ''emergency'')\<rparr>"
  let ?table = "fold (\<lambda>v. AList.update v (?f v)) vehicles []"
  have same: "fold (record_vehicle s) vehicles [] = ?table"
    by (simp add: record_vehicle_def [abs_def])
  have keys: "distinct (map fst ?table)"
    by (rule fold_update_distinct) simp
  have entries: "map_of ?table k = (if k \<in> set vehicles then Some (?f k) else None)" for k
    by (simp add: fold_update_map_of)
  have vals: "x = ?f k" if "(k, x) \<in> set ?table" for k x
  proof -
    from that keys have "map_of ?table k = Some x" by simp
    then show ?thesis
      unfolding entries by (simp split: if_splits)
  qed
  have dom: "fst ` set ?table = set vehicles"
  proof -
    have "fst ` set ?table = dom (map_of ?table)"
      by (simp add: dom_map_of_conv_image_fst)
    also have "\<dots> = set vehicles"
      unfolding dom_def entries by auto
    finally show ?thesis .
  qed
  have "stopped_count_of ?table
      = card {k \<in> fst ` set ?table. info_stopped (?f k) \<and> \<not> info_is_ambulance (?f k)}"
    unfolding stopped_count_of_def using keys vals by (rule count_distinct_table)
  then show ?thesis
    unfolding same dom by (simp add: is_ambulance_def)
qed

text \<open>One iteration of the worker.\<close>

lemma dash_body_logs:
  "length (time_log (dash_body advance st))
     = length (time_log st) + length (detected (advance (sim st)))"
  "length (ambulance_speed_log (dash_body advance st))
     = length (ambulance_speed_log st) + length (detected (advance (sim st)))"
  "length (vehicle_alert_count (dash_body advance st))
     = length (vehicle_alert_count st) + length (detected (advance (sim st)))"
  "length (traffic_light_control_log (dash_body advance st))
     = length (traffic_light_control_log st) + length (detected (advance (sim st)))"
  "stopped_vehicle_counts (dash_body advance st)
     = stopped_vehicle_counts st @ [card {v \<in> set (vehicle_id_list (advance (sim st))).
                   vehicle_speed (advance (sim st)) v < 0.1
                   \<and> \<not> is_ambulance (advance (sim st)) v}]"
  "simulation_times (dash_body advance st) = simulation_times st @ [step st]"
  "min_expected_number (sim (dash_body advance st)) = min_expected_number (advance (sim st))"
proof -
  let ?s1 = "advance (sim st)"
  let ?vs = "vehicle_id_list ?s1"
  let ?acc = "(0 :: nat, 0 :: nat, clear_vehicle_data (simulationStep advance st))"
  let ?st3 = "snd (snd (fold (dash_ambulance ?vs) (detected ?s1) ?acc))"
  have body: "dash_body advance st
      = (update_vehicle_data ?vs ?st3)\<lparr>step := step (update_vehicle_data ?vs ?st3) + 1\<rparr>"
    by (simp add: dash_body_unfold Let_def detected_def)
  have start: "time_log (snd (snd ?acc)) = time_log st"
      "ambulance_speed_log (snd (snd ?acc)) = ambulance_speed_log st"
      "vehicle_alert_count (snd (snd ?acc)) = vehicle_alert_count st"
      "traffic_light_control_log (snd (snd ?acc)) = traffic_light_control_log st"
      "stopped_vehicle_counts (snd (snd ?acc)) = stopped_vehicle_counts st"
      "simulation_times (snd (snd ?acc)) = simulation_times st"
      "vehicle_data (snd (snd ?acc)) = []"
      "sim (snd (snd ?acc)) = ?s1"
      "step (snd (snd ?acc)) = step st"
    by (simp_all add: clear_vehicle_data_def simulationStep_def)
  have turns: "length (time_log ?st3) = length (time_log st) + length (detected ?s1)"
      "length (ambulance_speed_log ?st3) = length (ambulance_speed_log st) + length (detected ?s1)"
      "length (vehicle_alert_count ?st3) = length (vehicle_alert_count st) + length (detected ?s1)"
      "length (traffic_light_control_log ?st3)
         = length (traffic_light_control_log st) + length (detected ?s1)"
      "stopped_vehicle_counts ?st3 = stopped_vehicle_counts st"
      "simulation_times ?st3 = simulation_times st"
      "vehicle_data ?st3 = []"
      "vehicle_speed (sim ?st3) = vehicle_speed ?s1"
      "vehicle_class (sim ?st3) = vehicle_class ?s1"
      "min_expected_number (sim ?st3) = min_expected_number ?s1"
      "step ?st3 = step st"
    unfolding fold_dash_ambulance_logs fold_dash_ambulance_step start by simp_all
  have step3: "step (clear_vehicle_data (simulationStep advance st)) = step st"
    by (simp add: clear_vehicle_data_def simulationStep_def)
  have count: "stopped_count_of (fold (record_vehicle (sim ?st3)) ?vs [])
      = card {v \<in> set ?vs. vehicle_speed ?s1 v < 0.1 \<and> \<not> is_ambulance ?s1 v}"
    unfolding stopped_count_of_table
    by (simp only: turns is_ambulance_def)
  show "length (time_log (dash_body advance st))
     = length (time_log st) + length (detected (advance (sim st)))"
    "length (ambulance_speed_log (dash_body advance st))
     = length (ambulance_speed_log st) + length (detected (advance (sim st)))"
    "length (vehicle_alert_count (dash_body advance st))
     = length (vehicle_alert_count st) + length (detected (advance (sim st)))"
    "length (traffic_light_control_log (dash_body advance st))
     = length (traffic_light_control_log st) + length (detected (advance (sim st)))"
    "stopped_vehicle_counts (dash_body advance st)
     = stopped_vehicle_counts st @ [card {v \<in> set (vehicle_id_list (advance (sim st))).
                   vehicle_speed (advance (sim st)) v < 0.1
                   \<and> \<not> is_ambulance (advance (sim st)) v}]"
    "simulation_times (dash_body advance st) = simulation_times st @ [step st]"
    "min_expected_number (sim (dash_body advance st)) = min_expected_number (advance (sim st))"
    unfolding body
    by (simp_all add: update_vehicle_data_def Let_def turns count step3)
qed

lemma blocks_aligned:
  "logs_aligned (clear_vehicle_data st) = logs_aligned st"
  "logs_aligned st \<Longrightarrow> logs_aligned (append_logs amb_speed alerted controlled st)"
  "logs_aligned st \<Longrightarrow> logs_aligned (update_vehicle_data vehicles st)"
  by (simp_all add: logs_aligned_def clear_vehicle_data_def append_logs_def
        update_vehicle_data_def Let_def)

lemma between_blocks_aligned:
  "logs_aligned (simulationStep advance st) = logs_aligned st"
  "logs_aligned (setColor v c st) = logs_aligned st"
  "logs_aligned (setSpeedMode v m st) = logs_aligned st"
  "logs_aligned (snd (dash_tl amb_edge tl_id (n, st))) = logs_aligned st"
  "logs_aligned (st\<lparr>step := step st + 1\<rparr>) = logs_aligned st"
  by (simp_all add: logs_aligned_def simulationStep_def setColor_def setSpeedMode_def tl_defs)

lemma dash_ambulance_aligned:
  "logs_aligned (snd (snd acc)) \<Longrightarrow> logs_aligned (snd (snd (dash_ambulance vehicles amb_id acc)))"
  by (simp add: logs_aligned_def dash_ambulance_logs)

lemma dash_body_aligned: "logs_aligned st \<Longrightarrow> logs_aligned (dash_body advance st)"
  by (simp add: logs_aligned_def dash_body_logs)

lemma iterate_aligned: "logs_aligned st \<Longrightarrow> logs_aligned ((dash_body advance ^^ k) st)"
  by (induction k) (simp_all add: dash_body_aligned)

lemma run_simulation_aligned:
  assumes "logs_aligned st" and "run_simulation advance st = Some r"
  shows "logs_aligned r"
proof -
  obtain k where "r = (dash_body advance ^^ k) st"
    using run_simulation_Some [OF assms(2)] by blast
  then show ?thesis
    using assms(1) by (simp add: iterate_aligned)
qed


text \<open>
  Claim C10. The lists of the module start empty. Each block run under the lock (clearing
  the table; the four appends of one ambulance; the update of the table with its two
  appends) takes a state in which the four per-ambulance lists have one length and the two
  per-iteration lists have one length to a state of that kind, and so does every step the
  worker takes outside the lock; so the lengths agree after every turn of an ambulance,
  after every iteration, and in the state the worker ends in. The four appends add one
  entry to each of the four lists, so an iteration adds one entry per detected ambulance.
  The count an iteration appends is the number of listed vehicles slower than 0.1 that are
  not classified as ambulances, paired with the iteration's step in the other list.
\<close>

theorem C10_logs_aligned:
  "logs_aligned (initial_dash s)
   \<and> (logs_aligned st \<longrightarrow>
         logs_aligned (clear_vehicle_data st)
         \<and> logs_aligned (append_logs amb_speed alerted controlled st)
         \<and> logs_aligned (update_vehicle_data vehicles st)
         \<and> logs_aligned (simulationStep advance st)
         \<and> logs_aligned (setColor v c st)
         \<and> logs_aligned (setSpeedMode v m st)
         \<and> logs_aligned (snd (dash_tl amb_edge tl_id (n, st)))
         \<and> logs_aligned (st\<lparr>step := step st + 1\<rparr>)
         \<and> logs_aligned (snd (snd (dash_ambulance vehicles a (alerted, controlled, st))))
         \<and> logs_aligned (dash_body advance st)
         \<and> logs_aligned ((dash_body advance ^^ k) st))
   \<and> (logs_aligned st \<and> run_simulation advance st = Some r \<longrightarrow> logs_aligned r)
   \<and> time_log (append_logs amb_speed alerted controlled st) = time_log st @ [step st]
   \<and> ambulance_speed_log (append_logs amb_speed alerted controlled st)
       = ambulance_speed_log st @ [amb_speed]
   \<and> vehicle_alert_count (append_logs amb_speed alerted controlled st)
       = vehicle_alert_count st @ [alerted]
   \<and> traffic_light_control_log (append_logs amb_speed alerted controlled st)
       = traffic_light_control_log st @ [controlled]
   \<and> length (time_log (dash_body advance st))
       = length (time_log st) + length (detected (advance (sim st)))
   \<and> stopped_vehicle_counts (dash_body advance st)
       = stopped_vehicle_counts st
         @ [card {v \<in> set (vehicle_id_list (advance (sim st))).
                   vehicle_speed (advance (sim st)) v < 0.1
                   \<and> \<not> is_ambulance (advance (sim st)) v}]
   \<and> simulation_times (dash_body advance st) = simulation_times st @ [step st]"
  apply (intro conjI impI; (elim conjE)?)
  subgoal by (simp add: logs_aligned_def initial_dash_def)
  subgoal by (simp add: blocks_aligned)
  subgoal by (rule blocks_aligned)
  subgoal by (rule blocks_aligned)
  subgoal by (simp add: between_blocks_aligned)
  subgoal by (simp add: between_blocks_aligned)
  subgoal by (simp add: between_blocks_aligned)
  subgoal by (simp add: between_blocks_aligned)
  subgoal by (simp only: between_blocks_aligned)
  subgoal using dash_ambulance_aligned [of "(alerted, controlled, st)" vehicles a] by simp
  subgoal by (rule dash_body_aligned)
  subgoal by (rule iterate_aligned)
  subgoal by (rule run_simulation_aligned)
  subgoal by (simp add: append_logs_def)
  subgoal by (simp add: append_logs_def)
  subgoal by (simp add: append_logs_def)
  subgoal by (simp add: append_logs_def)
  subgoal by (rule dash_body_logs)
  subgoal by (rule dash_body_logs)
  subgoal by (rule dash_body_logs)
  done

theorem C10_logs_aligned_witness:
  "logs_aligned example_dash
   \<and> run_simulation countdown example_dash = Some (dash_body countdown example_dash)
   \<and> logs_aligned (dash_body countdown example_dash)
   \<and> length (time_log (dash_body countdown example_dash)) = 1
   \<and> stopped_vehicle_counts (dash_body countdown example_dash) = [1]
   \<and> simulation_times (dash_body countdown example_dash) = [0]"
proof -
  have start: "logs_aligned example_dash" "time_log example_dash = []"
      "stopped_vehicle_counts example_dash = []" "simulation_times example_dash = []"
      "step example_dash = 0" "sim example_dash = example_sim"
    by (simp_all add: logs_aligned_def example_dash_def)
  have before: "0 < min_expected_number (sim example_dash)"
    by (simp add: example_dash_def example_sim_def)
  have after: "\<not> 0 < min_expected_number (sim (dash_body countdown example_dash))"
    by (simp add: dash_body_logs countdown_def example_dash_def example_sim_def)
  have "run_simulation countdown example_dash
      = run_simulation countdown (dash_body countdown example_dash)"
    using before by (subst run_simulation.simps) simp
  also have "\<dots> = Some (dash_body countdown example_dash)"
    using after by (subst run_simulation.simps) simp
  finally have returned:
    "run_simulation countdown example_dash = Some (dash_body countdown example_dash)" .
  have found: "detected (countdown example_sim) = [''ambulance_1'']"
    by (simp add: detected_def ambulances_of_def is_ambulance_def countdown_def example_sim_def
          lower_def lower_char_def sublist_code)
  have stopped: "{v \<in> set (vehicle_id_list (countdown example_sim)).
                   vehicle_speed (countdown example_sim) v < 0.1
                   \<and> \<not> is_ambulance (countdown example_sim) v} = {''car_2''}"
    by (auto simp: is_ambulance_def countdown_def example_sim_def
          lower_def lower_char_def sublist_code)
  from C10_logs_aligned [where st = example_dash and advance = countdown
      and r = "dash_body countdown example_dash" and s = example_sim and k = 1]
    stopped
  show ?thesis
    by (simp add: start returned found)
qed

end
